theory Spec2Isabelle
  imports Main "HOL-Library.Word"
begin

section \<open>The network ACL driver (lxd/network/acl/driver_common.go)\<close>

text \<open>
  A shallow embedding of the validation engine and of the Update, Rename and Delete
  operations of the ACL handle \<open>common\<close>. Go strings are \<open>string\<close>, a nil-able
  slice or map is an \<open>option\<close> (\<open>None\<close> is nil), a Go map is an association list
  (Go iterates a map in no fixed order; the model iterates in list order), and an
  \<open>error\<close> return is \<open>error option\<close> or a sum with the error on the left.
\<close>

subsection \<open>Errors\<close>

text \<open>
  An error keeps the format string of the source and the arguments it is formatted
  with. \<open>Wrapf\<close> is errors.Wrapf; \<open>ErrInstanceListStop\<close> is the sentinel
  db.ErrInstanceListStop; \<open>Failure\<close> is an error handed back by a collaborator (the
  store, the SDN client) or by a library validator.
\<close>

datatype arg = S string | N nat | C char

datatype error =
    Errorf string "arg list"
  | Wrapf error string "arg list"
  | ErrInstanceListStop
  | Failure string

subsection \<open>Data model\<close>

datatype ruleDirection = ruleDirectionIngress | ruleDirectionEgress

text \<open>The string a rule direction is printed as (its underlying Go string).\<close>

fun directionString :: "ruleDirection \<Rightarrow> string" where
  "directionString ruleDirectionIngress = ''ingress''"
| "directionString ruleDirectionEgress = ''egress''"

definition ruleSubjectInternal :: string where
  "ruleSubjectInternal = ''@internal''"

definition ruleSubjectExternal :: string where
  "ruleSubjectExternal = ''@external''"

definition ruleSubjectInternalAliases :: "string list" where
  "ruleSubjectInternalAliases = [ruleSubjectInternal, ''#internal'']"

definition ruleSubjectExternalAliases :: "string list" where
  "ruleSubjectExternalAliases = [ruleSubjectExternal, ''#external'']"

definition ValidActions :: "string list" where
  "ValidActions = [''allow'', ''drop'', ''reject'']"

text \<open>
  Modelled from the spec: the type api.NetworkACLRule is declared outside the two source
  files. Its fields are the ones the driver reads and the spec lists for a rule (action,
  state, source, destination, protocol, source and destination ports, ICMP type and
  code). Two rules are equal (Go's \<open>==\<close> on the struct) when all fields are.
\<close>

record NetworkACLRule =
  Action :: string
  Source :: string
  Destination :: string
  Protocol :: string
  SourcePort :: string
  DestinationPort :: string
  ICMPType :: string
  ICMPCode :: string
  State :: string

text \<open>
  Modelled from the spec: api.NetworkACLPut (the writable part: description, both rule
  sequences, the config map) and api.NetworkACL (the name, the writable part, UsedBy)
  are declared outside the source files. \<open>None\<close> is a nil slice or a nil map.
\<close>

record NetworkACLPut =
  Description :: string
  Ingress :: "NetworkACLRule list option"
  Egress :: "NetworkACLRule list option"
  Config :: "(string \<times> string) list option"

record NetworkACL =
  Name :: string
  Put :: NetworkACLPut
  UsedBy :: "string list option"

text \<open>
  The handle. The logger and the pointer to the daemon state are not fields of the
  model: the state of the collaborators is the \<open>world\<close> below, passed explicitly.
\<close>

record common =
  id_acl :: int
  projectName :: string
  info :: NetworkACL

subsection \<open>Library functions the driver calls\<close>

text \<open>
  The driver calls functions of Go's standard library and of other packages of the
  repository, none of them in the source files. They are parameters of the model: every
  function of the driver takes the library \<open>L\<close>, and the theorems hold for every
  library. \<open>go_lib\<close> below is one instance, which the concrete examples run on.
  A Go IP address (net.IP, a byte slice) is a list of bytes.
\<close>

type_synonym IP = "8 word list"

record lib =
  Normalise :: "NetworkACLRule \<Rightarrow> NetworkACLRule"
  SplitNTrimSpace :: "string \<Rightarrow> string \<Rightarrow> int \<Rightarrow> bool \<Rightarrow> string list"
  ParseIP :: "string \<Rightarrow> IP option"
  ParseCIDR :: "string \<Rightarrow> error + IP"
  IsNetworkRange :: "string \<Rightarrow> error option"
  IsNetworkPort :: "string \<Rightarrow> error option"
  IsNetworkPortRange :: "string \<Rightarrow> error option"
  IsUint8 :: "string \<Rightarrow> error option"
  IsUserConfig :: "string \<Rightarrow> bool"
  ValidHostname :: "string \<Rightarrow> error option"
  APIVersion :: string
  Default :: string

text \<open>
  Modelled from the spec: shared.StringInSlice is not in the source files. A field that
  "must be one of" some literals is checked with it: the key is an element of the list.
\<close>

definition StringInSlice :: "string \<Rightarrow> string list \<Rightarrow> bool" where
  "StringInSlice key xs = (key \<in> set xs)"

text \<open>
  Modelled from the spec: shared.StringHasPrefix is not in the source files. A name "must
  not start with a reserved selector prefix": the string starts with one of the prefixes.
\<close>

definition StringHasPrefix :: "string \<Rightarrow> string list \<Rightarrow> bool" where
  "StringHasPrefix s prefixes = (\<exists>p \<in> set prefixes. take (length p) s = p)"

text \<open>strings.Join of Go's standard library.\<close>

fun Join :: "string list \<Rightarrow> string \<Rightarrow> string" where
  "Join [] sep = []"
| "Join [x] sep = x"
| "Join (x # y # ys) sep = x @ sep @ Join (y # ys) sep"

text \<open>
  strings.SplitN of Go's standard library. \<open>splitSep\<close> cuts the string at
  every separator while pieces may still be cut off (\<open>None\<close>: no limit); \<open>skip\<close>
  counts the bytes of a separator still to pass over.
\<close>

fun splitSep :: "string \<Rightarrow> nat option \<Rightarrow> nat \<Rightarrow> string \<Rightarrow> string \<Rightarrow> string list" where
  "splitSep sep limit skip cur [] = [cur]"
| "splitSep sep limit (Suc skip) cur (x # xs) = splitSep sep limit skip cur xs"
| "splitSep sep limit 0 cur (x # xs) =
     (if limit \<noteq> Some 0 \<and> take (length sep) (x # xs) = sep
      then cur # splitSep sep (map_option (\<lambda>k. k - 1) limit) (length sep - 1) [] xs
      else splitSep sep limit 0 (cur @ [x]) xs)"

definition SplitN :: "string \<Rightarrow> string \<Rightarrow> int \<Rightarrow> string list" where
  "SplitN s sep n =
     (if n = 0 then []
      else if sep = [] then map (\<lambda>c. [c]) s
      else splitSep sep (if n < 0 then None else Some (nat n - 1)) 0 [] s)"

text \<open>net.IP.To4 of Go's standard library: the four bytes of an IPv4 address, or nil.\<close>

definition To4 :: "IP \<Rightarrow> IP option" where
  "To4 ip =
     (if length ip = 4 then Some ip
      else if length ip = 16 \<and> take 10 ip = [0, 0, 0, 0, 0, 0, 0, 0, 0, 0] \<and> ip ! 10 = 0xff \<and> ip ! 11 = 0xff
      then Some (drop 12 ip)
      else None)"

subsection \<open>The collaborators: the store and the SDN control plane\<close>

text \<open>
  Modelled from the spec: the persistent store and the SDN control-plane client are
  collaborators with success or failure outcomes (the spec's external interfaces); their
  code, and the package functions LoadByName, UsedBy, NetworkUsage, OVNEnsureACLs and
  OVNPortGroupDeleteIfUnused that reach them, are not in the source files.

  The \<open>world\<close> holds what the store answers from: the ACL rows by id, the entities that
  reference an ACL, and the networks an ACL applies to. \<open>journal\<close> records every call
  made to a collaborator, oldest first. \<open>faults\<close> scripts the outcomes of the calls to
  come: each call takes the next outcome (\<open>Some e\<close>: the call fails with \<open>e\<close> and has
  no effect), and a call succeeds once the script is used up.
\<close>

record NetworkACLUsage =
  NetName :: string
  Type :: string

text \<open>
  The entities the usage enumeration reports: an instance (name, project), a network, a
  profile (name, project), an ACL; a value of any other Go type is \<open>Unrecognised\<close>,
  with the name of its type.
\<close>

datatype usageType =
    Instance string string
  | Network string
  | Profile string string
  | ACL string
  | Unrecognised string

record aclRow =
  rowProject :: string
  rowName :: string
  rowPut :: NetworkACLPut

datatype call =
    Call_GetNetworkACLIDsByNames string
  | Call_UpdateNetworkACL int NetworkACLPut
  | Call_RenameNetworkACL int string
  | Call_DeleteNetworkACL int
  | Call_LoadByName string string
  | Call_UsedBy string string
  | Call_NetworkUsage string "string list"
  | Call_NewOVN
  | Call_OVNEnsureACLs string "(string \<times> int) list" "(string \<times> NetworkACLUsage) list" "string list" bool
  | Call_OVNPortGroupDeleteIfUnused string string
  | Call_OVNRevert

record world =
  db_acls :: "(int \<times> aclRow) list"
  db_usage :: "(string \<times> string \<times> usageType) list"
  db_networks :: "(string \<times> string \<times> NetworkACLUsage) list"
  journal :: "call list"
  faults :: "error option list"

definition nextOutcome :: "world \<Rightarrow> error option" where
  "nextOutcome w = (case faults w of [] \<Rightarrow> None | f # fs \<Rightarrow> f)"

definition advance :: "call \<Rightarrow> world \<Rightarrow> world" where
  "advance c w = w\<lparr>journal := journal w @ [c], faults := tl (faults w)\<rparr>"

definition collab :: "call \<Rightarrow> world \<Rightarrow> error option \<times> world" where
  "collab c w = (nextOutcome w, advance c w)"

text \<open>
  Modelled from the spec: the store's listACLNameToID(project), not in the source files:
  the map of ACL names to ids of a project.
\<close>

definition GetNetworkACLIDsByNames :: "world \<Rightarrow> string \<Rightarrow> (error + (string \<times> int) list) \<times> world" where
  "GetNetworkACLIDsByNames w project =
     (case collab (Call_GetNetworkACLIDsByNames project) w of
        (Some err, w1) \<Rightarrow> (Inl err, w1)
      | (None, w1) \<Rightarrow>
          (Inr (map (\<lambda>(i, r). (rowName r, i))
                  (filter (\<lambda>(i, r). rowProject r = project) (db_acls w1))), w1))"

text \<open>
  Modelled from the spec: the store's updateACL(id, config), renameACL(id, newName) and
  deleteACL(id), not in the source files. On success the row of that id gets the
  configuration, gets the name, or is removed; on failure the store is as it was.
\<close>

definition writePut :: "int \<Rightarrow> NetworkACLPut \<Rightarrow> (int \<times> aclRow) list \<Rightarrow> (int \<times> aclRow) list" where
  "writePut i config rows =
     map (\<lambda>(j, r). if j = i then (j, r\<lparr>rowPut := config\<rparr>) else (j, r)) rows"

definition UpdateNetworkACL :: "world \<Rightarrow> int \<Rightarrow> NetworkACLPut \<Rightarrow> error option \<times> world" where
  "UpdateNetworkACL w i config =
     (case collab (Call_UpdateNetworkACL i config) w of
        (Some err, w1) \<Rightarrow> (Some err, w1)
      | (None, w1) \<Rightarrow> (None, w1\<lparr>db_acls := writePut i config (db_acls w1)\<rparr>))"

definition RenameNetworkACL :: "world \<Rightarrow> int \<Rightarrow> string \<Rightarrow> error option \<times> world" where
  "RenameNetworkACL w i newName =
     (case collab (Call_RenameNetworkACL i newName) w of
        (Some err, w1) \<Rightarrow> (Some err, w1)
      | (None, w1) \<Rightarrow>
          (None, w1\<lparr>db_acls :=
             map (\<lambda>(j, r). if j = i then (j, r\<lparr>rowName := newName\<rparr>) else (j, r)) (db_acls w1)\<rparr>))"

definition DeleteNetworkACL :: "world \<Rightarrow> int \<Rightarrow> error option \<times> world" where
  "DeleteNetworkACL w i =
     (case collab (Call_DeleteNetworkACL i) w of
        (Some err, w1) \<Rightarrow> (Some err, w1)
      | (None, w1) \<Rightarrow> (None, w1\<lparr>db_acls := filter (\<lambda>(j, r). j \<noteq> i) (db_acls w1)\<rparr>))"

text \<open>
  Modelled from the spec: the package function UsedBy (the store's enumerateUsage with a
  visitor that may request an early stop), not in the source files. The visitor is
  called on every entity that references the ACL, until it returns an error, which the
  enumeration returns. The visitor of the driver appends to a captured slice, here its
  second argument and result.
\<close>

fun visitUsages ::
  "(usageType \<Rightarrow> string list \<Rightarrow> error option \<times> string list) \<Rightarrow> usageType list \<Rightarrow> string list
     \<Rightarrow> error option \<times> string list" where
  "visitUsages usageFunc [] acc = (None, acc)"
| "visitUsages usageFunc (u # us) acc =
     (case usageFunc u acc of
        (Some err, acc1) \<Rightarrow> (Some err, acc1)
      | (None, acc1) \<Rightarrow> visitUsages usageFunc us acc1)"

definition acl_UsedBy ::
  "world \<Rightarrow> string \<Rightarrow> (usageType \<Rightarrow> string list \<Rightarrow> error option \<times> string list) \<Rightarrow> string list \<Rightarrow> string
     \<Rightarrow> (error option \<times> string list) \<times> world" where
  "acl_UsedBy w project usageFunc acc aclName =
     (case collab (Call_UsedBy project aclName) w of
        (Some err, w1) \<Rightarrow> ((Some err, acc), w1)
      | (None, w1) \<Rightarrow>
          (visitUsages usageFunc
             (map (\<lambda>(p, n, u). u) (filter (\<lambda>(p, n, u). p = project \<and> n = aclName) (db_usage w1))) acc,
           w1))"

text \<open>
  Modelled from the spec: the package function NetworkUsage, not in the source files: the
  networks the named ACLs apply to, keyed by network name, each with its kind.
\<close>

definition NetworkUsage ::
  "world \<Rightarrow> string \<Rightarrow> string list \<Rightarrow> (error + (string \<times> NetworkACLUsage) list) \<times> world" where
  "NetworkUsage w project aclNames =
     (case collab (Call_NetworkUsage project aclNames) w of
        (Some err, w1) \<Rightarrow> (Inl err, w1)
      | (None, w1) \<Rightarrow>
          (Inr (map (\<lambda>(p, n, u). (NetName u, u))
                  (filter (\<lambda>(p, n, u). p = project \<and> n \<in> set aclNames) (db_networks w1))), w1))"

text \<open>
  Modelled from the spec: the SDN control-plane client (openvswitch.NewOVN, OVNEnsureACLs,
  OVNPortGroupDeleteIfUnused), not in the source files: calls with a success or failure
  outcome. Ensuring the ACLs hands back a reverter on success; running it is recorded
  in the journal as \<open>Call_OVNRevert\<close>.
\<close>

definition NewOVN :: "world \<Rightarrow> error option \<times> world" where
  "NewOVN w = collab Call_NewOVN w"

definition OVNRevert :: "world \<Rightarrow> world" where
  "OVNRevert w = w\<lparr>journal := journal w @ [Call_OVNRevert]\<rparr>"

definition OVNEnsureACLs ::
  "world \<Rightarrow> string \<Rightarrow> (string \<times> int) list \<Rightarrow> (string \<times> NetworkACLUsage) list \<Rightarrow> string list \<Rightarrow> bool
     \<Rightarrow> (error + (world \<Rightarrow> world)) \<times> world" where
  "OVNEnsureACLs w project aclNameIDs aclNets aclNames reapplyRules =
     (case collab (Call_OVNEnsureACLs project aclNameIDs aclNets aclNames reapplyRules) w of
        (Some err, w1) \<Rightarrow> (Inl err, w1)
      | (None, w1) \<Rightarrow> (Inr OVNRevert, w1))"

definition OVNPortGroupDeleteIfUnused :: "world \<Rightarrow> string \<Rightarrow> string \<Rightarrow> error option \<times> world" where
  "OVNPortGroupDeleteIfUnused w project aclName =
     collab (Call_OVNPortGroupDeleteIfUnused project aclName) w"

text \<open>
  Modelled from the spec: the revert package is not in the source files. A reversal plan
  is the sequence of reversal actions added so far; on failure they run in reverse
  order, on success the plan is discarded.
\<close>

type_synonym 's reverter = "('s \<Rightarrow> 's) list"

definition revert_New :: "'s reverter" where
  "revert_New = []"

definition revert_Add :: "'s reverter \<Rightarrow> ('s \<Rightarrow> 's) \<Rightarrow> 's reverter" where
  "revert_Add r f = r @ [f]"

definition revert_Fail :: "'s reverter \<Rightarrow> 's \<Rightarrow> 's" where
  "revert_Fail r s = fold (\<lambda>f s. f s) (rev r) s"

definition revert_Success :: "'s reverter \<Rightarrow> 's reverter" where
  "revert_Success r = []"

subsection \<open>The handle: init, Info, Etag, usage\<close>

definition emptyNetworkACL :: NetworkACL where
  "emptyNetworkACL =
     \<lparr>Name = [], Put = \<lparr>Description = [], Ingress = None, Egress = None, Config = None\<rparr>,
      UsedBy = None\<rparr>"

text \<open>
  init: a nil info is replaced by an empty one, a nil rule sequence by an empty
  sequence, every rule is normalised in place, a nil config map is replaced by an empty
  map.
\<close>

definition init :: "lib \<Rightarrow> common \<Rightarrow> int \<Rightarrow> string \<Rightarrow> NetworkACL option \<Rightarrow> common" where
  "init L d i project info0 =
     (let info1 = (case info0 of None \<Rightarrow> emptyNetworkACL | Some x \<Rightarrow> x);
          ingress = map (Normalise L) (case Ingress (Put info1) of None \<Rightarrow> [] | Some rs \<Rightarrow> rs);
          egress = map (Normalise L) (case Egress (Put info1) of None \<Rightarrow> [] | Some rs \<Rightarrow> rs);
          config = (case Config (Put info1) of None \<Rightarrow> [] | Some c \<Rightarrow> c)
      in d\<lparr>id_acl := i, projectName := project,
            info := info1\<lparr>Put := (Put info1)\<lparr>Ingress := Some ingress, Egress := Some egress,
                                              Config := Some config\<rparr>\<rparr>\<rparr>)"

definition ID :: "common \<Rightarrow> int" where
  "ID d = id_acl d"

definition Project :: "common \<Rightarrow> string" where
  "Project d = projectName d"

text \<open>
  Info: a copy of the internal info. The copies of the rule sequences and of the config
  map (util.CopyConfig) are fresh, so never nil; UsedBy is nil.
\<close>

definition Info :: "common \<Rightarrow> NetworkACL" where
  "Info d =
     \<lparr>Name = Name (info d),
      Put = \<lparr>Description = Description (Put (info d)),
             Ingress = Some (case Ingress (Put (info d)) of None \<Rightarrow> [] | Some rs \<Rightarrow> rs),
             Egress = Some (case Egress (Put (info d)) of None \<Rightarrow> [] | Some rs \<Rightarrow> rs),
             Config = Some (case Config (Put (info d)) of None \<Rightarrow> [] | Some c \<Rightarrow> c)\<rparr>,
      UsedBy = None\<rparr>"

definition Etag ::
  "common \<Rightarrow> string \<times> string \<times> NetworkACLRule list option \<times> NetworkACLRule list option
     \<times> (string \<times> string) list option" where
  "Etag d =
     (Name (info d), Description (Put (info d)), Ingress (Put (info d)), Egress (Put (info d)),
      Config (Put (info d)))"

text \<open>
  The visitor of usedBy: the endpoint of the referencing entity is appended to the
  captured slice; with firstOnly the enumeration is stopped after the first one.
\<close>

definition usageURI :: "lib \<Rightarrow> common \<Rightarrow> usageType \<Rightarrow> error + string" where
  "usageURI L d u =
     (case u of
        Instance name project \<Rightarrow>
          Inr ((''/'' @ APIVersion L @ ''/instances/'' @ name)
               @ (if project \<noteq> Default L then ''?project='' @ project else []))
      | Network name \<Rightarrow>
          Inr ((''/'' @ APIVersion L @ ''/networks/'' @ name)
               @ (if projectName d \<noteq> Default L then ''?project='' @ projectName d else []))
      | Profile name project \<Rightarrow>
          Inr ((''/'' @ APIVersion L @ ''/profiles/'' @ name)
               @ (if project \<noteq> Default L then ''?project='' @ project else []))
      | ACL name \<Rightarrow>
          Inr ((''/'' @ APIVersion L @ ''/network-acls/'' @ name)
               @ (if projectName d \<noteq> Default L then ''?project='' @ projectName d else []))
      | Unrecognised typeName \<Rightarrow> Inl (Errorf ''Unrecognised usage type %T'' [S typeName]))"

definition usageFunc :: "lib \<Rightarrow> common \<Rightarrow> bool \<Rightarrow> usageType \<Rightarrow> string list \<Rightarrow> error option \<times> string list" where
  "usageFunc L d firstOnly u usedBy =
     (case usageURI L d u of
        Inl err \<Rightarrow> (Some err, usedBy)
      | Inr uri \<Rightarrow> (if firstOnly then Some ErrInstanceListStop else None, usedBy @ [uri]))"

definition usedBy :: "lib \<Rightarrow> world \<Rightarrow> common \<Rightarrow> bool \<Rightarrow> (error + string list) \<times> world" where
  "usedBy L w d firstOnly =
     (case acl_UsedBy w (projectName d) (usageFunc L d firstOnly) [] (Name (Info d)) of
        ((Some err, uris), w1) \<Rightarrow>
          if err = ErrInstanceListStop then (Inr uris, w1)
          else (Inl (Wrapf err ''Failed getting ACL usage'' []), w1)
      | ((None, uris), w1) \<Rightarrow> (Inr uris, w1))"

definition common_UsedBy :: "lib \<Rightarrow> world \<Rightarrow> common \<Rightarrow> (error + string list) \<times> world" where
  "common_UsedBy L w d = usedBy L w d False"

definition isUsed :: "lib \<Rightarrow> world \<Rightarrow> common \<Rightarrow> (error + bool) \<times> world" where
  "isUsed L w d =
     (case usedBy L w d True of
        (Inl err, w1) \<Rightarrow> (Inl err, w1)
      | (Inr uris, w1) \<Rightarrow> (Inr (length uris > 0), w1))"

text \<open>
  Modelled from the spec: LoadByName is not in the source files. It reads the ACL of
  that name from the store (an error when there is none) and initialises a handle.
\<close>

definition LoadByName :: "lib \<Rightarrow> world \<Rightarrow> string \<Rightarrow> string \<Rightarrow> (error + common) \<times> world" where
  "LoadByName L w project aclName =
     (case collab (Call_LoadByName project aclName) w of
        (Some err, w1) \<Rightarrow> (Inl err, w1)
      | (None, w1) \<Rightarrow>
          (case find (\<lambda>(i, r). rowProject r = project \<and> rowName r = aclName) (db_acls w1) of
             None \<Rightarrow> (Inl (Errorf ''Network ACL not found'' []), w1)
           | Some (i, r) \<Rightarrow>
               (Inr (init L \<lparr>id_acl = 0, projectName = [], info = emptyNetworkACL\<rparr> i project
                       (Some \<lparr>Name = rowName r, Put = rowPut r, UsedBy = None\<rparr>)), w1)))"

subsection \<open>Validation\<close>

definition validateName :: "lib \<Rightarrow> string \<Rightarrow> error option" where
  "validateName L name =
     (if name = [] then Some (Errorf ''Name is required'' [])
      else if StringHasPrefix name [''@'', ''%'', ''#'']
      then Some (Errorf ''Name cannot start with reserved character %q'' [C (hd name)])
      else ValidHostname L name)"

text \<open>
  validateConfigMap. First loop: every validator of the table is run on the value of its
  key (the empty string when the key is absent) and the key is marked as checked. Second
  loop: a key that is neither checked nor a user key is an error.
\<close>

fun runValidators ::
  "(string \<times> (string \<Rightarrow> error option)) list \<Rightarrow> (string \<times> string) list \<Rightarrow> string list
     \<Rightarrow> error + string list" where
  "runValidators [] config checkedFields = Inr checkedFields"
| "runValidators ((k, validator) # rules) config checkedFields =
     (case validator (case map_of config k of None \<Rightarrow> [] | Some v \<Rightarrow> v) of
        Some err \<Rightarrow> Inl (Wrapf err ''Invalid value for config option %q'' [S k])
      | None \<Rightarrow> runValidators rules config (k # checkedFields))"

fun uncheckedFields :: "lib \<Rightarrow> string list \<Rightarrow> string list \<Rightarrow> error option" where
  "uncheckedFields L [] checkedFields = None"
| "uncheckedFields L (k # ks) checkedFields =
     (if k \<in> set checkedFields then uncheckedFields L ks checkedFields
      else if IsUserConfig L k then uncheckedFields L ks checkedFields
      else Some (Errorf ''Invalid config option %q'' [S k]))"

definition validateConfigMap ::
  "lib \<Rightarrow> (string \<times> string) list option \<Rightarrow> (string \<times> (string \<Rightarrow> error option)) list option
     \<Rightarrow> error option" where
  "validateConfigMap L config rules =
     (let cfg = (case config of None \<Rightarrow> [] | Some c \<Rightarrow> c) in
      case runValidators (case rules of None \<Rightarrow> [] | Some r \<Rightarrow> r) cfg [] of
        Inl err \<Rightarrow> Some err
      | Inr checkedFields \<Rightarrow> uncheckedFields L (map fst cfg) checkedFields)"

text \<open>
  validateRuleSubjects. The three address checks give the IP version of a subject; a
  subject that passes none of them is looked up among the valid names, where version 0
  stands for a name.
\<close>

definition ipVersionOf :: "IP \<Rightarrow> nat" where
  "ipVersionOf ip = (if To4 ip = None then 6 else 4)"

definition isNetworkAddress :: "lib \<Rightarrow> string \<Rightarrow> error + nat" where
  "isNetworkAddress L v =
     (case ParseIP L v of
        None \<Rightarrow> Inl (Errorf ''Not an IP address %q'' [S v])
      | Some ip \<Rightarrow> Inr (ipVersionOf ip))"

definition isNetworkAddressCIDR :: "lib \<Rightarrow> string \<Rightarrow> error + nat" where
  "isNetworkAddressCIDR L v =
     (case ParseCIDR L v of
        Inl err \<Rightarrow> Inl err
      | Inr ip \<Rightarrow> Inr (ipVersionOf ip))"

definition isNetworkRange :: "lib \<Rightarrow> string \<Rightarrow> error + nat" where
  "isNetworkRange L v =
     (case IsNetworkRange L v of
        Some err \<Rightarrow> Inl err
      | None \<Rightarrow>
          (let ips = SplitN v ''-'' 2 in
           if length ips \<noteq> 2
           then Inl (Errorf ''IP range must contain start and end IP addresses'' [])
           else Inr (ipVersionOf (case ParseIP L (ips ! 0) of None \<Rightarrow> [] | Some ip \<Rightarrow> ip))))"

fun runChecks :: "(string \<Rightarrow> error + nat) list \<Rightarrow> string \<Rightarrow> nat option" where
  "runChecks [] subject = None"
| "runChecks (c # cs) subject =
     (case c subject of Inr ipVersion \<Rightarrow> Some ipVersion | Inl err \<Rightarrow> runChecks cs subject)"

definition allowSubjectNames :: "string \<Rightarrow> ruleDirection \<Rightarrow> bool" where
  "allowSubjectNames fieldName direction =
     ((fieldName = ''Source'' \<and> direction = ruleDirectionIngress)
      \<or> (fieldName = ''Destination'' \<and> direction = ruleDirectionEgress))"

definition validSubject :: "lib \<Rightarrow> string \<Rightarrow> ruleDirection \<Rightarrow> string list \<Rightarrow> string \<Rightarrow> error + nat" where
  "validSubject L fieldName direction validSubjectNames subject =
     (case runChecks [isNetworkAddress L, isNetworkAddressCIDR L, isNetworkRange L] subject of
        Some ipVersion \<Rightarrow> Inr ipVersion
      | None \<Rightarrow>
          if subject \<in> set validSubjectNames
          then (if allowSubjectNames fieldName direction then Inr 0
                else Inl (Errorf ''Named subjects not allowed in %q for %q rules''
                            [S fieldName, S (directionString direction)]))
          else Inl (Errorf ''Invalid subject %q'' [S subject]))"

fun subjectsLoop ::
  "lib \<Rightarrow> string \<Rightarrow> ruleDirection \<Rightarrow> string list \<Rightarrow> string list \<Rightarrow> bool \<times> bool \<times> bool
     \<Rightarrow> error + bool \<times> bool \<times> bool" where
  "subjectsLoop L fieldName direction validSubjectNames [] (hasName, hasIPv4, hasIPv6) =
     Inr (hasName, hasIPv4, hasIPv6)"
| "subjectsLoop L fieldName direction validSubjectNames (s # ss) (hasName, hasIPv4, hasIPv6) =
     (case validSubject L fieldName direction validSubjectNames s of
        Inl err \<Rightarrow> Inl err
      | Inr ipVersion \<Rightarrow>
          subjectsLoop L fieldName direction validSubjectNames ss
            (if ipVersion = 0 then (True, hasIPv4, hasIPv6)
             else if ipVersion = 4 then (hasName, True, hasIPv6)
             else if ipVersion = 6 then (hasName, hasIPv4, True)
             else (hasName, hasIPv4, hasIPv6)))"

definition validateRuleSubjects ::
  "lib \<Rightarrow> string \<Rightarrow> ruleDirection \<Rightarrow> string list \<Rightarrow> string list \<Rightarrow> error + bool \<times> bool \<times> bool" where
  "validateRuleSubjects L fieldName direction subjects validSubjectNames =
     subjectsLoop L fieldName direction validSubjectNames subjects (False, False, False)"

text \<open>validatePorts: every port is a port number or a port range.\<close>

definition validPort :: "lib \<Rightarrow> string \<Rightarrow> error option" where
  "validPort L port =
     (if IsNetworkPort L port = None then None
      else if IsNetworkPortRange L port = None then None
      else Some (Errorf ''Invalid port %q'' [S port]))"

fun validatePorts :: "lib \<Rightarrow> string list \<Rightarrow> error option" where
  "validatePorts L [] = None"
| "validatePorts L (port # ports) =
     (case validPort L port of Some err \<Rightarrow> Some err | None \<Rightarrow> validatePorts L ports)"

text \<open>
  validateRule, in two parts. \<open>validateRuleFields\<close> is the part after the lookup of
  the ACL names (from the Source field on), which calls no collaborator: the subjects
  of both fields, the combination of their IP families, the protocol and the fields
  that depend on it.
\<close>

definition validStates :: "string list" where
  "validStates = [''enabled'', ''disabled'', ''logged'']"

definition validProtocols :: "string list" where
  "validProtocols = [''icmp4'', ''icmp6'', ''tcp'', ''udp'']"

definition familyConflict :: "bool \<times> bool \<times> bool \<Rightarrow> bool \<times> bool \<times> bool \<Rightarrow> bool" where
  "familyConflict src dst =
     (case (src, dst) of
        ((srcHasName, srcHasIPv4, srcHasIPv6), (dstHasName, dstHasIPv4, dstHasIPv6)) \<Rightarrow>
          (srcHasIPv4 \<and> \<not> dstHasIPv4 \<and> \<not> dstHasName)
          \<or> (dstHasIPv4 \<and> \<not> srcHasIPv4 \<and> \<not> srcHasName)
          \<or> (srcHasIPv6 \<and> \<not> dstHasIPv6 \<and> \<not> dstHasName)
          \<or> (dstHasIPv6 \<and> \<not> srcHasIPv6 \<and> \<not> srcHasName))"

definition validateProtocolFields ::
  "lib \<Rightarrow> NetworkACLRule \<Rightarrow> bool \<times> bool \<times> bool \<Rightarrow> bool \<times> bool \<times> bool \<Rightarrow> error option" where
  "validateProtocolFields L rule src dst =
     (case (src, dst) of
        ((srcHasName, srcHasIPv4, srcHasIPv6), (dstHasName, dstHasIPv4, dstHasIPv6)) \<Rightarrow>
     if StringInSlice (Protocol rule) [''tcp'', ''udp''] then
       (if ICMPType rule \<noteq> [] then Some (Errorf ''ICMP type cannot be used with non-ICMP protocol'' [])
        else if ICMPCode rule \<noteq> [] then Some (Errorf ''ICMP code cannot be used with non-ICMP protocol'' [])
        else
          (case (if SourcePort rule \<noteq> []
                 then validatePorts L (SplitNTrimSpace L (SourcePort rule) '','' (- 1) False)
                 else None) of
             Some err \<Rightarrow> Some (Wrapf err ''Invalid Source port'' [])
           | None \<Rightarrow>
               (case (if DestinationPort rule \<noteq> []
                      then validatePorts L (SplitNTrimSpace L (DestinationPort rule) '','' (- 1) False)
                      else None) of
                  Some err \<Rightarrow> Some (Wrapf err ''Invalid Destination port'' [])
                | None \<Rightarrow> None)))
     else if StringInSlice (Protocol rule) [''icmp4'', ''icmp6''] then
       (if SourcePort rule \<noteq> []
        then Some (Errorf ''Source port cannot be used with %q protocol'' [S (Protocol rule)])
        else if DestinationPort rule \<noteq> []
        then Some (Errorf ''Destination port cannot be used with %q protocol'' [S (Protocol rule)])
        else
          (case (if Protocol rule = ''icmp4'' then
                   (if srcHasIPv6
                    then Some (Errorf ''Cannot use IPv6 source addresses with %q protocol'' [S (Protocol rule)])
                    else if dstHasIPv6
                    then Some (Errorf ''Cannot use IPv6 destination addresses with %q protocol'' [S (Protocol rule)])
                    else None)
                 else if Protocol rule = ''icmp6'' then
                   (if srcHasIPv4
                    then Some (Errorf ''Cannot use IPv4 source addresses with %q protocol'' [S (Protocol rule)])
                    else if dstHasIPv4
                    then Some (Errorf ''Cannot use IPv4 destination addresses with %q protocol'' [S (Protocol rule)])
                    else None)
                 else None) of
             Some err \<Rightarrow> Some err
           | None \<Rightarrow>
               (case (if ICMPType rule \<noteq> [] then IsUint8 L (ICMPType rule) else None) of
                  Some err \<Rightarrow> Some (Wrapf err ''Invalid ICMP type'' [])
                | None \<Rightarrow>
                    (case (if ICMPCode rule \<noteq> [] then IsUint8 L (ICMPCode rule) else None) of
                       Some err \<Rightarrow> Some (Wrapf err ''Invalid ICMP code'' [])
                     | None \<Rightarrow> None))))
     else
       (if ICMPType rule \<noteq> [] then Some (Errorf ''ICMP type cannot be used without specifying protocol'' [])
        else if ICMPCode rule \<noteq> [] then Some (Errorf ''ICMP code cannot be used without specifying protocol'' [])
        else if SourcePort rule \<noteq> [] then Some (Errorf ''Source port cannot be used without specifying protocol'' [])
        else if DestinationPort rule \<noteq> []
        then Some (Errorf ''Destination port cannot be used without specifying protocol'' [])
        else None))"

definition validateRuleFields :: "lib \<Rightarrow> ruleDirection \<Rightarrow> NetworkACLRule \<Rightarrow> string list \<Rightarrow> error option" where
  "validateRuleFields L direction rule validSubjectNames =
     (case (if Source rule \<noteq> []
            then validateRuleSubjects L ''Source'' direction
                   (SplitNTrimSpace L (Source rule) '','' (- 1) False) validSubjectNames
            else Inr (False, False, False)) of
        Inl err \<Rightarrow> Some (Wrapf err ''Invalid Source'' [])
      | Inr src \<Rightarrow>
          (case (if Destination rule \<noteq> []
                 then validateRuleSubjects L ''Destination'' direction
                        (SplitNTrimSpace L (Destination rule) '','' (- 1) False) validSubjectNames
                 else Inr (False, False, False)) of
             Inl err \<Rightarrow> Some (Wrapf err ''Invalid Destination'' [])
           | Inr dst \<Rightarrow>
               if Source rule \<noteq> [] \<and> Destination rule \<noteq> [] \<and> familyConflict src dst
               then Some (Errorf ''Conflicting IP family types used for Source and Destination'' [])
               else if Protocol rule \<noteq> [] \<and> \<not> StringInSlice (Protocol rule) validProtocols
               then Some (Errorf ''Protocol must be one of: %s'' [S (Join validProtocols '', '')])
               else validateProtocolFields L rule src dst))"

definition validateRule ::
  "lib \<Rightarrow> world \<Rightarrow> common \<Rightarrow> ruleDirection \<Rightarrow> NetworkACLRule \<Rightarrow> error option \<times> world" where
  "validateRule L w d direction rule =
     (if \<not> StringInSlice (Action rule) ValidActions
      then (Some (Errorf ''Action must be one of: %s'' [S (Join ValidActions '', '')]), w)
      else if \<not> StringInSlice (State rule) validStates
      then (Some (Errorf ''State must be one of: %s'' [S (Join validStates '', '')]), w)
      else
        (case GetNetworkACLIDsByNames w (Project d) of
           (Inl err, w1) \<Rightarrow>
             (Some (Wrapf err ''Failed getting network ACLs for security ACL subject validation'' []), w1)
         | (Inr acls, w1) \<Rightarrow>
             (validateRuleFields L direction rule
                (ruleSubjectInternalAliases @ ruleSubjectExternalAliases @ map fst acls), w1)))"

text \<open>
  validateConfig. The config map is validated with a nil table of validators; then
  every rule is normalised in place; then, for each rule in turn (first the ingress,
  then the egress sequence), the rule is validated and compared with every other rule
  of its sequence. The two loops of the source differ in the direction only. The
  proposed configuration is returned as the call leaves it.
\<close>

definition isDuplicate :: "NetworkACLRule list \<Rightarrow> nat \<Rightarrow> NetworkACLRule \<Rightarrow> bool" where
  "isDuplicate rules i rule = (\<exists>ri \<in> set [0..<length rules]. ri \<noteq> i \<and> rules ! ri = rule)"

fun invalidRuleFormat :: "ruleDirection \<Rightarrow> string" where
  "invalidRuleFormat ruleDirectionIngress = ''Invalid ingress rule %d''"
| "invalidRuleFormat ruleDirectionEgress = ''Invalid egress rule %d''"

fun duplicateRuleFormat :: "ruleDirection \<Rightarrow> string" where
  "duplicateRuleFormat ruleDirectionIngress = ''Duplicate of ingress rule %d''"
| "duplicateRuleFormat ruleDirectionEgress = ''Duplicate of egress rule %d''"

fun validateRules ::
  "lib \<Rightarrow> common \<Rightarrow> ruleDirection \<Rightarrow> NetworkACLRule list \<Rightarrow> nat \<Rightarrow> NetworkACLRule list \<Rightarrow> world
     \<Rightarrow> error option \<times> world" where
  "validateRules L d direction rules i [] w = (None, w)"
| "validateRules L d direction rules i (rule # rest) w =
     (case validateRule L w d direction rule of
        (Some err, w1) \<Rightarrow> (Some (Wrapf err (invalidRuleFormat direction) [N i]), w1)
      | (None, w1) \<Rightarrow>
          if isDuplicate rules i rule
          then (Some (Errorf (duplicateRuleFormat direction) [N i]), w1)
          else validateRules L d direction rules (Suc i) rest w1)"

definition rulesOf :: "NetworkACLRule list option \<Rightarrow> NetworkACLRule list" where
  "rulesOf rs = (case rs of None \<Rightarrow> [] | Some xs \<Rightarrow> xs)"

definition normaliseRules :: "lib \<Rightarrow> NetworkACLPut \<Rightarrow> NetworkACLPut" where
  "normaliseRules L config =
     config\<lparr>Ingress := map_option (map (Normalise L)) (Ingress config),
            Egress := map_option (map (Normalise L)) (Egress config)\<rparr>"

definition validateConfig ::
  "lib \<Rightarrow> world \<Rightarrow> common \<Rightarrow> NetworkACLPut \<Rightarrow> error option \<times> NetworkACLPut \<times> world" where
  "validateConfig L w d config =
     (case validateConfigMap L (Config config) None of
        Some err \<Rightarrow> (Some err, config, w)
      | None \<Rightarrow>
          (let config1 = normaliseRules L config in
           case validateRules L d ruleDirectionIngress (rulesOf (Ingress config1)) 0
                  (rulesOf (Ingress config1)) w of
             (Some err, w1) \<Rightarrow> (Some err, config1, w1)
           | (None, w1) \<Rightarrow>
               (case validateRules L d ruleDirectionEgress (rulesOf (Egress config1)) 0
                       (rulesOf (Egress config1)) w1 of
                  (err, w2) \<Rightarrow> (err, config1, w2))))"

subsection \<open>Update, Rename, Delete\<close>

text \<open>
  Update. \<open>restoreConfig\<close> is the reversal action added after the store write: it
  writes the old configuration to the store (the outcome of that write is not looked
  at), puts it back into the handle and reinitialises the handle. \<open>Update_steps\<close> is
  the body after the reversal plan is created; it returns the error, the plan as it
  stands on return, the world and the handle. \<open>Update\<close> validates, runs the steps,
  and then runs the deferred revert.Fail on the plan.
\<close>

definition restoreConfig :: "lib \<Rightarrow> NetworkACLPut \<Rightarrow> world \<times> common \<Rightarrow> world \<times> common" where
  "restoreConfig L oldConfig s =
     (case s of (w, d) \<Rightarrow>
        (case UpdateNetworkACL w (id_acl d) oldConfig of
           (err, w1) \<Rightarrow>
             (w1, init L d (id_acl d) (projectName d) (Some ((info d)\<lparr>Put := oldConfig\<rparr>)))))"

definition onWorld :: "(world \<Rightarrow> world) \<Rightarrow> world \<times> common \<Rightarrow> world \<times> common" where
  "onWorld f s = (case s of (w, d) \<Rightarrow> (f w, d))"

definition Update_steps ::
  "lib \<Rightarrow> world \<Rightarrow> common \<Rightarrow> NetworkACLPut
     \<Rightarrow> error option \<times> (world \<times> common) reverter \<times> world \<times> common" where
  "Update_steps L w d config =
     (let revert = revert_New;
          oldConfig = Put (info d)
      in case UpdateNetworkACL w (id_acl d) config of
           (Some err, w1) \<Rightarrow> (Some err, revert, w1, d)
         | (None, w1) \<Rightarrow>
             (let d1 = init L d (id_acl d) (projectName d) (Some ((info d)\<lparr>Put := config\<rparr>));
                  revert1 = revert_Add revert (restoreConfig L oldConfig)
              in case NetworkUsage w1 (projectName d1) [Name (info d1)] of
                   (Inl err, w2) \<Rightarrow>
                     (Some (Wrapf err ''Failed getting ACL network usage'' []), revert1, w2, d1)
                 | (Inr usage, w2) \<Rightarrow>
                     (let aclNets = filter (\<lambda>(k, v). Type v = ''ovn'') usage in
                      if length aclNets > 0 then
                        (case NewOVN w2 of
                           (Some err, w3) \<Rightarrow>
                             (Some (Wrapf err ''Failed to get OVN client'' []), revert1, w3, d1)
                         | (None, w3) \<Rightarrow>
                             (case GetNetworkACLIDsByNames w3 (Project d1) of
                                (Inl err, w4) \<Rightarrow>
                                  (Some (Wrapf err ''Failed getting network ACL IDs for security ACL update'' []),
                                   revert1, w4, d1)
                              | (Inr aclNameIDs, w4) \<Rightarrow>
                                  (case OVNEnsureACLs w4 (projectName d1) aclNameIDs aclNets
                                          [Name (info d1)] True of
                                     (Inl err, w5) \<Rightarrow>
                                       (Some (Wrapf err ''Failed ensuring ACL is configured in OVN'' []),
                                        revert1, w5, d1)
                                   | (Inr r, w5) \<Rightarrow>
                                       (let revert2 = revert_Add revert1 (onWorld r) in
                                        case OVNPortGroupDeleteIfUnused w5 (projectName d1)
                                               (Name (info d1)) of
                                          (Some err, w6) \<Rightarrow>
                                            (Some (Wrapf err ''Failed removing unused OVN port groups'' []),
                                             revert2, w6, d1)
                                        | (None, w6) \<Rightarrow> (None, revert_Success revert2, w6, d1)))))
                      else (None, revert_Success revert1, w2, d1))))"

definition Update :: "lib \<Rightarrow> world \<Rightarrow> common \<Rightarrow> NetworkACLPut \<Rightarrow> error option \<times> world \<times> common" where
  "Update L w d config =
     (case validateConfig L w d config of
        (Some err, config1, w1) \<Rightarrow> (Some err, w1, d)
      | (None, config1, w1) \<Rightarrow>
          (case Update_steps L w1 d config1 of
             (err, revert, w2, d2) \<Rightarrow>
               (case revert_Fail revert (w2, d2) of (w3, d3) \<Rightarrow> (err, w3, d3))))"

definition Rename :: "lib \<Rightarrow> world \<Rightarrow> common \<Rightarrow> string \<Rightarrow> error option \<times> world \<times> common" where
  "Rename L w d newName =
     (case LoadByName L w (projectName d) newName of
        (Inr existing, w1) \<Rightarrow> (Some (Errorf ''An ACL by that name exists already'' []), w1, d)
      | (Inl notFound, w1) \<Rightarrow>
          (case isUsed L w1 d of
             (Inl err, w2) \<Rightarrow> (Some err, w2, d)
           | (Inr used, w2) \<Rightarrow>
               if used then (Some (Errorf ''Cannot rename an ACL that is in use'' []), w2, d)
               else
                 (case validateName L newName of
                    Some err \<Rightarrow> (Some err, w2, d)
                  | None \<Rightarrow>
                      (case RenameNetworkACL w2 (id_acl d) newName of
                         (Some err, w3) \<Rightarrow> (Some err, w3, d)
                       | (None, w3) \<Rightarrow> (None, w3, d\<lparr>info := (info d)\<lparr>Name := newName\<rparr>\<rparr>)))))"

definition Delete :: "lib \<Rightarrow> world \<Rightarrow> common \<Rightarrow> error option \<times> world" where
  "Delete L w d =
     (case isUsed L w d of
        (Inl err, w1) \<Rightarrow> (Some err, w1)
      | (Inr used, w1) \<Rightarrow>
          if used then (Some (Errorf ''Cannot delete an ACL that is in use'' []), w1)
          else DeleteNetworkACL w1 (id_acl d))"

subsection \<open>An instance of the library\<close>

text \<open>
  \<open>go_lib\<close> is an instance of the library the driver calls, for running the model on
  concrete inputs. None of the general theorems depends on it. The functions of Go's
  standard library (strings.TrimSpace, net.ParseIP, net.ParseCIDR) follow the standard
  library on ASCII input; the functions of the repository follow the spec where it
  describes them.
\<close>

text \<open>strings.TrimSpace, on ASCII white space.\<close>

definition isSpace :: "char \<Rightarrow> bool" where
  "isSpace c = (c \<in> set [CHR 0x09, CHR 0x0A, CHR 0x0B, CHR 0x0C, CHR 0x0D, CHR '' ''])"

definition TrimSpace :: "string \<Rightarrow> string" where
  "TrimSpace s = rev (dropWhile isSpace (rev (dropWhile isSpace s)))"

text \<open>
  Modelled from the spec: util.SplitNTrimSpace is not in the source files. The string
  is split at the separator and every piece is trimmed.
\<close>

definition go_SplitNTrimSpace :: "string \<Rightarrow> string \<Rightarrow> int \<Rightarrow> bool \<Rightarrow> string list" where
  "go_SplitNTrimSpace s sep n nilIfEmpty =
     (if nilIfEmpty \<and> s = [] then [] else map TrimSpace (SplitN s sep n))"

text \<open>
  Modelled from the spec: the method Normalise of a rule is not in the source files. The
  subject lists and the port lists are split at the commas, every piece is trimmed,
  and the pieces are joined with commas again.
\<close>

definition normaliseList :: "string \<Rightarrow> string" where
  "normaliseList s = Join (go_SplitNTrimSpace s '','' (- 1) False) '',''"

definition go_Normalise :: "NetworkACLRule \<Rightarrow> NetworkACLRule" where
  "go_Normalise r =
     r\<lparr>Source := normaliseList (Source r), Destination := normaliseList (Destination r),
       SourcePort := normaliseList (SourcePort r),
       DestinationPort := normaliseList (DestinationPort r)\<rparr>"

text \<open>
  The number parsers of Go's net package: the decimal (hexadecimal) digits at the start
  of the string, the number of digits read, and whether a number was read. A number
  from \<open>0xFFFFFF\<close> on is refused.
\<close>

definition digitVal :: "char \<Rightarrow> nat option" where
  "digitVal c =
     (let k = (of_char c :: nat) in if 48 \<le> k \<and> k \<le> 57 then Some (k - 48) else None)"

definition hexVal :: "char \<Rightarrow> nat option" where
  "hexVal c =
     (let k = (of_char c :: nat) in
      if 48 \<le> k \<and> k \<le> 57 then Some (k - 48)
      else if 97 \<le> k \<and> k \<le> 102 then Some (k - 97 + 10)
      else if 65 \<le> k \<and> k \<le> 70 then Some (k - 65 + 10)
      else None)"

definition big :: nat where
  "big = 0xFFFFFF"

fun numLoop :: "(char \<Rightarrow> nat option) \<Rightarrow> nat \<Rightarrow> nat \<Rightarrow> nat \<Rightarrow> string \<Rightarrow> nat \<times> nat \<times> bool" where
  "numLoop digit base n i [] = (n, i, True)"
| "numLoop digit base n i (c # cs) =
     (case digit c of
        None \<Rightarrow> (n, i, True)
      | Some v \<Rightarrow>
          (let n1 = n * base + v in
           if n1 \<ge> big then (big, i, False) else numLoop digit base n1 (Suc i) cs))"

definition dtoi :: "string \<Rightarrow> nat \<times> nat \<times> bool" where
  "dtoi s =
     (case numLoop digitVal 10 0 0 s of
        (n, i, ok) \<Rightarrow> if \<not> ok then (n, i, False) else if i = 0 then (0, 0, False) else (n, i, True))"

definition xtoi :: "string \<Rightarrow> nat \<times> nat \<times> bool" where
  "xtoi s =
     (case numLoop hexVal 16 0 0 s of
        (n, i, ok) \<Rightarrow> if \<not> ok then (n, i, False) else if i = 0 then (0, 0, False) else (n, i, True))"

text \<open>
  The IPv4 parser of net: four decimal fields up to 255, separated by dots, no field
  with a leading zero. The address is returned in its 16-byte form.
\<close>

definition parseOctet :: "string \<Rightarrow> 8 word option" where
  "parseOctet p =
     (case dtoi p of
        (n, c, ok) \<Rightarrow>
          if \<not> ok \<or> c \<noteq> length p \<or> n > 0xFF then None
          else if c > 1 \<and> hd p = CHR ''0'' then None
          else Some (of_nat n))"

definition v4InV6Prefix :: IP where
  "v4InV6Prefix = [0, 0, 0, 0, 0, 0, 0, 0, 0, 0, 0xff, 0xff]"

definition parseIPv4 :: "string \<Rightarrow> IP option" where
  "parseIPv4 s =
     (case map parseOctet (SplitN s ''.'' (- 1)) of
        [Some a, Some b, Some c, Some d] \<Rightarrow> Some (v4InV6Prefix @ [a, b, c, d])
      | other \<Rightarrow> None)"

text \<open>
  The IPv6 parser of net: groups of hexadecimal digits up to \<open>0xFFFF\<close> separated by
  colons; one \<open>::\<close> may stand for one or more groups of zeros; the last group may be
  an IPv4 address in dotted form.
\<close>

definition parseHexGroup :: "string \<Rightarrow> IP option" where
  "parseHexGroup s =
     (case xtoi s of
        (n, i, ok) \<Rightarrow>
          if ok \<and> i = length s \<and> n \<le> 0xFFFF then Some [of_nat (n div 256), of_nat (n mod 256)]
          else None)"

fun parseGroups :: "bool \<Rightarrow> string list \<Rightarrow> IP option" where
  "parseGroups allowV4 [] = Some []"
| "parseGroups allowV4 [p] =
     (if allowV4 \<and> CHR ''.'' \<in> set p then map_option (drop 12) (parseIPv4 p) else parseHexGroup p)"
| "parseGroups allowV4 (p # q # ps) =
     (case parseHexGroup p of
        None \<Rightarrow> None
      | Some bs \<Rightarrow> map_option (\<lambda>rest. bs @ rest) (parseGroups allowV4 (q # ps)))"

fun findEllipsis :: "string \<Rightarrow> string \<Rightarrow> (string \<times> string) option" where
  "findEllipsis pre (a # b # cs) =
     (if a = CHR '':'' \<and> b = CHR '':'' then Some (pre, cs) else findEllipsis (pre @ [a]) (b # cs))"
| "findEllipsis pre cs = None"

definition colonPieces :: "string \<Rightarrow> string list" where
  "colonPieces s = (if s = [] then [] else SplitN s '':'' (- 1))"

definition parseIPv6 :: "string \<Rightarrow> IP option" where
  "parseIPv6 s =
     (case findEllipsis [] s of
        None \<Rightarrow>
          (case parseGroups True (colonPieces s) of
             None \<Rightarrow> None
           | Some bs \<Rightarrow> if length bs = 16 then Some bs else None)
      | Some (left, right) \<Rightarrow>
          (case (parseGroups False (colonPieces left), parseGroups True (colonPieces right)) of
             (Some l, Some r) \<Rightarrow>
               if length l + length r \<le> 14
               then Some (l @ replicate (16 - length l - length r) 0 @ r)
               else None
           | other \<Rightarrow> None))"

text \<open>net.ParseIP: the first dot or colon of the string decides the form.\<close>

definition go_ParseIP :: "string \<Rightarrow> IP option" where
  "go_ParseIP s =
     (case find (\<lambda>c. c = CHR ''.'' \<or> c = CHR '':'') s of
        None \<Rightarrow> None
      | Some c \<Rightarrow> if c = CHR ''.'' then parseIPv4 s else parseIPv6 s)"

text \<open>net.ParseCIDR: an address, a slash and a prefix length that fits the address.\<close>

definition go_ParseCIDR :: "string \<Rightarrow> error + IP" where
  "go_ParseCIDR s =
     (if CHR ''/'' \<notin> set s then Inl (Failure ''invalid CIDR address'')
      else
        (let addr = takeWhile (\<lambda>c. c \<noteq> CHR ''/'') s;
             mask = tl (dropWhile (\<lambda>c. c \<noteq> CHR ''/'') s);
             ip4 = parseIPv4 addr;
             iplen = (if ip4 = None then 16 else 4);
             ip = (if ip4 = None then parseIPv6 addr else ip4)
         in case dtoi mask of
              (n, i, ok) \<Rightarrow>
                (case ip of
                   None \<Rightarrow> Inl (Failure ''invalid CIDR address'')
                 | Some a \<Rightarrow>
                     if \<not> ok \<or> i \<noteq> length mask \<or> n > 8 * iplen
                     then Inl (Failure ''invalid CIDR address'')
                     else Inr a)))"

text \<open>
  Modelled from the spec: validate.IsNetworkRange is not in the source files. An address
  range has one separator \<open>-\<close> with a valid address of the same form on each side.
\<close>

definition go_IsNetworkRange :: "string \<Rightarrow> error option" where
  "go_IsNetworkRange v =
     (let ips = SplitN v ''-'' 2 in
      if length ips \<noteq> 2 then Some (Failure ''IP range must contain start and end IP addresses'')
      else
        (case (go_ParseIP (ips ! 0), go_ParseIP (ips ! 1)) of
           (Some a, Some b) \<Rightarrow>
             if (To4 a = None) = (To4 b = None) then None
             else Some (Failure ''Start and end IP addresses are not in same family'')
         | other \<Rightarrow> Some (Failure ''Not an IP address'')))"

text \<open>
  Modelled from the spec: validate.IsNetworkPort, validate.IsNetworkPortRange and
  validate.IsUint8 are not in the source files. A port is a decimal number in the
  16-bit range; a port range is \<open>start-end\<close>, both in the 16-bit range, start no
  greater than end; an ICMP type or code is a decimal number that fits a byte.
\<close>

definition parseUint :: "string \<Rightarrow> nat option" where
  "parseUint s =
     (if s \<noteq> [] \<and> (\<forall>c \<in> set s. digitVal c \<noteq> None)
      then Some (foldl (\<lambda>n c. n * 10 + (case digitVal c of None \<Rightarrow> 0 | Some v \<Rightarrow> v)) 0 s)
      else None)"

definition go_IsNetworkPort :: "string \<Rightarrow> error option" where
  "go_IsNetworkPort v =
     (case parseUint v of
        None \<Rightarrow> Some (Failure ''Invalid value for an integer'')
      | Some n \<Rightarrow> if n > 65535 then Some (Failure ''Out of port range'') else None)"

definition go_IsNetworkPortRange :: "string \<Rightarrow> error option" where
  "go_IsNetworkPortRange v =
     (let ports = SplitN v ''-'' 2 in
      if length ports \<noteq> 2 then Some (Failure ''Port range must contain start and end port numbers'')
      else
        (case (parseUint (ports ! 0), parseUint (ports ! 1)) of
           (Some a, Some b) \<Rightarrow>
             if a > 65535 \<or> b > 65535 then Some (Failure ''Out of port range'')
             else if a > b then Some (Failure ''Start port must not be greater than end port'')
             else None
         | other \<Rightarrow> Some (Failure ''Invalid port number'')))"

definition go_IsUint8 :: "string \<Rightarrow> error option" where
  "go_IsUint8 v =
     (case parseUint v of
        None \<Rightarrow> Some (Failure ''Invalid value for an integer'')
      | Some n \<Rightarrow> if n > 255 then Some (Failure ''Out of range'') else None)"

text \<open>
  Modelled from the spec: shared.IsUserConfig and shared.ValidHostname are not in the
  source files, and the spec names neither the naming convention of user keys nor the
  rules of a host name. The instance takes the keys that start with \<open>user.\<close> as user
  keys, and as host names the strings of 1 to 63 letters, digits and hyphens that
  neither start with a hyphen or a digit nor end with a hyphen.
\<close>

definition go_IsUserConfig :: "string \<Rightarrow> bool" where
  "go_IsUserConfig k = (take 5 k = ''user.'')"

definition hostnameChar :: "char \<Rightarrow> bool" where
  "hostnameChar c =
     (let k = (of_char c :: nat) in
      (48 \<le> k \<and> k \<le> 57) \<or> (97 \<le> k \<and> k \<le> 122) \<or> (65 \<le> k \<and> k \<le> 90) \<or> k = 45)"

definition go_ValidHostname :: "string \<Rightarrow> error option" where
  "go_ValidHostname name =
     (if length name < 1 \<or> length name > 63 then Some (Failure ''Name must be 1-63 characters long'')
      else if hd name = CHR ''-'' then Some (Failure ''Name must not start with \"-\" character'')
      else if digitVal (hd name) \<noteq> None then Some (Failure ''Name must not be a number'')
      else if last name = CHR ''-'' then Some (Failure ''Name must not end with \"-\" character'')
      else if \<not> list_all hostnameChar name
      then Some (Failure ''Name can only contain alphanumeric and hyphen characters'')
      else None)"

definition go_lib :: lib where
  "go_lib =
     \<lparr>Normalise = go_Normalise, SplitNTrimSpace = go_SplitNTrimSpace, ParseIP = go_ParseIP,
      ParseCIDR = go_ParseCIDR, IsNetworkRange = go_IsNetworkRange,
      IsNetworkPort = go_IsNetworkPort, IsNetworkPortRange = go_IsNetworkPortRange,
      IsUint8 = go_IsUint8, IsUserConfig = go_IsUserConfig, ValidHostname = go_ValidHostname,
      APIVersion = ''1.0'', Default = ''default''\<rparr>"

subsection \<open>Notions the statements use, and concrete inputs\<close>

text \<open>The keys of the config map of a proposed configuration.\<close>

definition configKeys :: "NetworkACLPut \<Rightarrow> string set" where
  "configKeys config = fst ` set (case Config config of None \<Rightarrow> [] | Some c \<Rightarrow> c)"

text \<open>
  A subject that passes none of the three address checks; the error for a named subject
  in a field where names are not allowed; the error for conflicting IP families.
\<close>

definition notAddress :: "lib \<Rightarrow> string \<Rightarrow> bool" where
  "notAddress L s = (runChecks [isNetworkAddress L, isNetworkAddressCIDR L, isNetworkRange L] s = None)"

definition namedNotAllowed :: "string \<Rightarrow> ruleDirection \<Rightarrow> error" where
  "namedNotAllowed fieldName direction =
     Errorf ''Named subjects not allowed in %q for %q rules'' [S fieldName, S (directionString direction)]"

definition familyConflictError :: error where
  "familyConflictError = Errorf ''Conflicting IP family types used for Source and Destination'' []"

text \<open>
  The valid subject names validateRule builds in a world where the lookup succeeds: the
  reserved classifiers with their aliases, and the names of the ACLs of the project.
\<close>

definition storeSubjectNames :: "world \<Rightarrow> string \<Rightarrow> string list" where
  "storeSubjectNames w project =
     ruleSubjectInternalAliases @ ruleSubjectExternalAliases
     @ map (\<lambda>(i, r). rowName r) (filter (\<lambda>(i, r). rowProject r = project) (db_acls w))"

text \<open>
  The family condition in the words of the spec, over the three flags of a side (has
  a name, has an IPv4 address, has an IPv6 address): a side is IPv4-only when it has
  IPv4 addresses and nothing else, and name-only when it has names and nothing else.
  \<open>specFamilyConflict\<close> reads "the other side is neither IPv4 nor name-only" as: it
  has no IPv4 address and is not name-only; \<open>specFamilyConflictOnly\<close> reads it as: it
  is neither IPv4-only nor name-only.
\<close>

definition ipv4Only :: "bool \<times> bool \<times> bool \<Rightarrow> bool" where
  "ipv4Only side = (case side of (hasName, v4, v6) \<Rightarrow> v4 \<and> \<not> v6 \<and> \<not> hasName)"

definition ipv6Only :: "bool \<times> bool \<times> bool \<Rightarrow> bool" where
  "ipv6Only side = (case side of (hasName, v4, v6) \<Rightarrow> v6 \<and> \<not> v4 \<and> \<not> hasName)"

definition nameOnly :: "bool \<times> bool \<times> bool \<Rightarrow> bool" where
  "nameOnly side = (case side of (hasName, v4, v6) \<Rightarrow> hasName \<and> \<not> v4 \<and> \<not> v6)"

definition hasIPv4 :: "bool \<times> bool \<times> bool \<Rightarrow> bool" where
  "hasIPv4 side = (case side of (hasName, v4, v6) \<Rightarrow> v4)"

definition hasIPv6 :: "bool \<times> bool \<times> bool \<Rightarrow> bool" where
  "hasIPv6 side = (case side of (hasName, v4, v6) \<Rightarrow> v6)"

definition specFamilyConflict :: "bool \<times> bool \<times> bool \<Rightarrow> bool \<times> bool \<times> bool \<Rightarrow> bool" where
  "specFamilyConflict src dst =
     ((ipv4Only src \<and> \<not> hasIPv4 dst \<and> \<not> nameOnly dst)
      \<or> (ipv4Only dst \<and> \<not> hasIPv4 src \<and> \<not> nameOnly src)
      \<or> (ipv6Only src \<and> \<not> hasIPv6 dst \<and> \<not> nameOnly dst)
      \<or> (ipv6Only dst \<and> \<not> hasIPv6 src \<and> \<not> nameOnly src))"

definition specFamilyConflictOnly :: "bool \<times> bool \<times> bool \<Rightarrow> bool \<times> bool \<times> bool \<Rightarrow> bool" where
  "specFamilyConflictOnly src dst =
     ((ipv4Only src \<and> \<not> ipv4Only dst \<and> \<not> nameOnly dst)
      \<or> (ipv4Only dst \<and> \<not> ipv4Only src \<and> \<not> nameOnly src)
      \<or> (ipv6Only src \<and> \<not> ipv6Only dst \<and> \<not> nameOnly dst)
      \<or> (ipv6Only dst \<and> \<not> ipv6Only src \<and> \<not> nameOnly src))"

text \<open>
  The rules validateConfig works on: the ingress and the egress rules of the proposed
  configuration, normalised. \<open>firstDuplicate rules k\<close>: the rule at index \<open>k\<close> is
  equal to a rule at another index, and no rule before it is. \<open>uniqueBefore rules k\<close>:
  no rule before index \<open>k\<close> is equal to a rule at another index.
\<close>

definition ingressRules :: "lib \<Rightarrow> NetworkACLPut \<Rightarrow> NetworkACLRule list" where
  "ingressRules L config = map (Normalise L) (rulesOf (Ingress config))"

definition egressRules :: "lib \<Rightarrow> NetworkACLPut \<Rightarrow> NetworkACLRule list" where
  "egressRules L config = map (Normalise L) (rulesOf (Egress config))"

definition firstDuplicate :: "NetworkACLRule list \<Rightarrow> nat \<Rightarrow> bool" where
  "firstDuplicate rules k =
     (k < length rules
      \<and> (\<exists>j < length rules. j \<noteq> k \<and> rules ! j = rules ! k)
      \<and> (\<forall>i < k. \<forall>j < length rules. j \<noteq> i \<longrightarrow> rules ! j \<noteq> rules ! i))"

definition uniqueBefore :: "NetworkACLRule list \<Rightarrow> nat \<Rightarrow> bool" where
  "uniqueBefore rules k = (\<forall>i < k. \<forall>j < length rules. j \<noteq> i \<longrightarrow> rules ! j \<noteq> rules ! i)"

text \<open>
  \<open>lookupsOnly w w'\<close>: from \<open>w\<close> to \<open>w'\<close> the store is unchanged and the only calls
  made to a collaborator are lookups of the ACL names; so no store write and no call to
  the SDN client was made.
\<close>

definition isLookup :: "call \<Rightarrow> bool" where
  "isLookup c = (case c of Call_GetNetworkACLIDsByNames p \<Rightarrow> True | other \<Rightarrow> False)"

definition lookupsOnly :: "world \<Rightarrow> world \<Rightarrow> bool" where
  "lookupsOnly w w' =
     (db_acls w' = db_acls w \<and> db_usage w' = db_usage w \<and> db_networks w' = db_networks w
      \<and> (\<exists>js. journal w' = journal w @ js \<and> list_all isLookup js))"

text \<open>
  The three collections of a handle are there (not nil); the handle is as init leaves
  it; the row of the handle's ACL in the store holds the configuration of the handle.
\<close>

definition collectionsNotNil :: "common \<Rightarrow> bool" where
  "collectionsNotNil d =
     (Ingress (Put (info d)) \<noteq> None \<and> Egress (Put (info d)) \<noteq> None \<and> Config (Put (info d)) \<noteq> None)"

definition initialised :: "lib \<Rightarrow> common \<Rightarrow> bool" where
  "initialised L d = (init L d (id_acl d) (projectName d) (Some (info d)) = d)"

definition inSync :: "world \<Rightarrow> common \<Rightarrow> bool" where
  "inSync w d = list_all (\<lambda>(j, r). j \<noteq> id_acl d \<or> rowPut r = Put (info d)) (db_acls w)"

text \<open>
  A store with the ACL \<open>web\<close> of project \<open>default\<close> under id 1, no references to it
  and no scripted failure; and a handle for it.
\<close>

definition ex_put :: NetworkACLPut where
  "ex_put = \<lparr>Description = ''old'', Ingress = Some [], Egress = Some [], Config = Some []\<rparr>"

definition ex_world :: world where
  "ex_world =
     \<lparr>db_acls = [(1, \<lparr>rowProject = ''default'', rowName = ''web'', rowPut = ex_put\<rparr>)],
      db_usage = [], db_networks = [], journal = [], faults = []\<rparr>"

definition ex_handle :: common where
  "ex_handle =
     \<lparr>id_acl = 1, projectName = ''default'', info = \<lparr>Name = ''web'', Put = ex_put, UsedBy = None\<rparr>\<rparr>"

definition ex_config_user :: NetworkACLPut where
  "ex_config_user =
     \<lparr>Description = ''new'', Ingress = None, Egress = None,
      Config = Some [(''user.owner'', ''alice'')]\<rparr>"

definition ex_config_mtu :: NetworkACLPut where
  "ex_config_mtu =
     \<lparr>Description = ''new'', Ingress = None, Egress = None,
      Config = Some [(''user.owner'', ''alice''), (''mtu'', ''1500'')]\<rparr>"

text \<open>Rules: an allow rule with no other field set, and variations of it.\<close>

definition ex_rule :: NetworkACLRule where
  "ex_rule =
     \<lparr>Action = ''allow'', Source = [], Destination = [], Protocol = [], SourcePort = [],
      DestinationPort = [], ICMPType = [], ICMPCode = [], State = ''enabled''\<rparr>"

definition ex_rule_mixed :: NetworkACLRule where
  "ex_rule_mixed = ex_rule\<lparr>Source := ''10.0.0.1,2001:db8::1'', Destination := ''10.0.0.2''\<rparr>"

definition ex_rule_v4_named :: NetworkACLRule where
  "ex_rule_v4_named = ex_rule\<lparr>Source := ''10.0.0.1'', Destination := ''10.0.0.2,@external''\<rparr>"

definition ex_rule_v4_v6 :: NetworkACLRule where
  "ex_rule_v4_v6 = ex_rule\<lparr>Source := ''192.0.2.0/24'', Destination := ''2001:db8::/32''\<rparr>"

definition ex_rule_v4_external :: NetworkACLRule where
  "ex_rule_v4_external = ex_rule\<lparr>Source := ''192.0.2.0/24'', Destination := ''@external''\<rparr>"

definition ex_rule_web :: NetworkACLRule where
  "ex_rule_web =
     ex_rule\<lparr>Source := ''10.0.0.0/24'', Destination := ''@internal'', Protocol := ''tcp'',
             DestinationPort := ''80,443''\<rparr>"

definition ex_rule_web_icmp :: NetworkACLRule where
  "ex_rule_web_icmp = ex_rule_web\<lparr>Protocol := ''icmp4'', DestinationPort := ''80''\<rparr>"

text \<open>
  Rules with the name \<open>@internal\<close> in the Source field: after a valid address, and
  after a subject that is neither an address nor a valid name. A rule with a port and
  no protocol.
\<close>

definition ex_rule_named_source :: NetworkACLRule where
  "ex_rule_named_source = ex_rule\<lparr>Source := ''10.0.0.1,@internal''\<rparr>"

definition ex_rule_bogus_named :: NetworkACLRule where
  "ex_rule_bogus_named = ex_rule\<lparr>Source := ''bogus,@internal''\<rparr>"

definition ex_rule_port :: NetworkACLRule where
  "ex_rule_port = ex_rule\<lparr>DestinationPort := ''80''\<rparr>"

text \<open>
  Proposed configurations: one whose second and third ingress rules differ in white
  space only; one with the same rule as ingress and as egress rule; one with two equal
  egress rules; one with the web rule as ingress rule; two with two equal ingress rules
  and the rule with a port and no protocol, before them and between them.
\<close>

definition ex_rule_pair :: NetworkACLRule where
  "ex_rule_pair = ex_rule\<lparr>Source := ''10.0.0.1,10.0.0.2''\<rparr>"

definition ex_rule_pair_spaced :: NetworkACLRule where
  "ex_rule_pair_spaced = ex_rule\<lparr>Source := ''10.0.0.1, 10.0.0.2''\<rparr>"

definition ex_config_dup :: NetworkACLPut where
  "ex_config_dup =
     \<lparr>Description = ''new'', Ingress = Some [ex_rule, ex_rule_pair, ex_rule_pair_spaced],
      Egress = None, Config = None\<rparr>"

definition ex_config_cross :: NetworkACLPut where
  "ex_config_cross =
     \<lparr>Description = ''new'', Ingress = Some [ex_rule], Egress = Some [ex_rule], Config = None\<rparr>"

definition ex_config_egress_dup :: NetworkACLPut where
  "ex_config_egress_dup =
     \<lparr>Description = ''new'', Ingress = Some [ex_rule], Egress = Some [ex_rule, ex_rule],
      Config = None\<rparr>"

definition ex_config_web :: NetworkACLPut where
  "ex_config_web =
     \<lparr>Description = ''new'', Ingress = Some [ex_rule_web], Egress = None, Config = None\<rparr>"

definition ex_config_invalid_first :: NetworkACLPut where
  "ex_config_invalid_first =
     \<lparr>Description = ''new'', Ingress = Some [ex_rule_port, ex_rule, ex_rule], Egress = None,
      Config = None\<rparr>"

definition ex_config_invalid_between :: NetworkACLPut where
  "ex_config_invalid_between =
     \<lparr>Description = ''new'', Ingress = Some [ex_rule, ex_rule_port, ex_rule], Egress = None,
      Config = None\<rparr>"

text \<open>
  Worlds: one where a network references the ACL; one where the ACL applies to an OVN
  network and the sixth collaborator call from now (the removal of unused port groups,
  in an Update with no rules) fails; one where the second call (the network usage)
  and the third (the write that restores the store) fail.
\<close>

definition ex_world_used :: world where
  "ex_world_used = ex_world\<lparr>db_usage := [(''default'', ''web'', Network ''lxdbr0'')]\<rparr>"

definition ex_world_ovn :: world where
  "ex_world_ovn =
     ex_world\<lparr>db_networks := [(''default'', ''web'', \<lparr>NetName = ''ovn1'', Type = ''ovn''\<rparr>)],
              faults := [None, None, None, None, None, Some (Failure ''ovn unreachable'')]\<rparr>"

definition ex_world_faulty :: world where
  "ex_world_faulty =
     ex_world\<lparr>faults := [None, Some (Failure ''usage query failed''), Some (Failure ''store down'')]\<rparr>"

section \<open>Properties\<close>

subsection \<open>The config map\<close>

lemma uncheckedFields_None:
  "(uncheckedFields L ks [] = None) = (\<forall>k \<in> set ks. IsUserConfig L k)"
  by (induction ks) auto

lemma uncheckedFields_Some:
  "uncheckedFields L ks [] = Some e \<Longrightarrow>
     \<exists>k \<in> set ks. \<not> IsUserConfig L k \<and> e = Errorf ''Invalid config option %q'' [S k]"
  by (induction ks) (auto split: if_splits)

lemma validateConfigMap_nil:
  "validateConfigMap L c None = uncheckedFields L (map fst (case c of None \<Rightarrow> [] | Some x \<Rightarrow> x)) []"
  by (simp add: validateConfigMap_def)

text \<open>
  C10. validateConfig, and so Update, runs the config-map validator with a nil table of
  validators. The config map is then valid exactly when every key is a user key; with
  any other key the validator returns the invalid-option error for such a key, and
  Update returns that error from validation, with the world and the handle as they
  were.
\<close>

theorem C10_nil_table_user_keys_only:
  "((validateConfigMap L (Config config) None = None) = (\<forall>k \<in> configKeys config. IsUserConfig L k))
   \<and> (validateConfigMap L (Config config) None = Some e \<longrightarrow>
        (\<exists>k \<in> configKeys config. \<not> IsUserConfig L k \<and> e = Errorf ''Invalid config option %q'' [S k])
        \<and> fst (validateConfig L w d config) = Some e
        \<and> Update L w d config = (Some e, w, d))"
proof -
  have a: "(validateConfigMap L (Config config) None = None) = (\<forall>k \<in> configKeys config. IsUserConfig L k)"
    by (simp add: validateConfigMap_nil uncheckedFields_None configKeys_def)
  have b: "\<exists>k \<in> configKeys config. \<not> IsUserConfig L k \<and> e = Errorf ''Invalid config option %q'' [S k]"
    if "validateConfigMap L (Config config) None = Some e"
  proof -
    from that
    have "uncheckedFields L (map fst (case Config config of None \<Rightarrow> [] | Some x \<Rightarrow> x)) [] = Some e"
      by (simp add: validateConfigMap_nil)
    from uncheckedFields_Some [OF this] show ?thesis
      by (simp add: configKeys_def)
  qed
  have c: "fst (validateConfig L w d config) = Some e \<and> Update L w d config = (Some e, w, d)"
    if "validateConfigMap L (Config config) None = Some e"
    using that by (simp add: Update_def validateConfig_def)
  from a b c show ?thesis by blast
qed

theorem C10_witness:
  "validateConfigMap go_lib (Config ex_config_user) None = None
   \<and> validateConfigMap go_lib (Config ex_config_mtu) None
       = Some (Errorf ''Invalid config option %q'' [S ''mtu''])
   \<and> Update go_lib ex_world ex_handle ex_config_mtu
       = (Some (Errorf ''Invalid config option %q'' [S ''mtu'']), ex_world, ex_handle)"
proof -
  have user: "\<forall>k \<in> configKeys ex_config_user. IsUserConfig go_lib k"
    by (simp add: configKeys_def ex_config_user_def go_lib_def go_IsUserConfig_def)
  have mtu: "validateConfigMap go_lib (Config ex_config_mtu) None
               = Some (Errorf ''Invalid config option %q'' [S ''mtu''])"
    by (simp add: validateConfigMap_nil ex_config_mtu_def go_lib_def go_IsUserConfig_def)
  from user mtu
    C10_nil_table_user_keys_only [of go_lib ex_config_user]
    C10_nil_table_user_keys_only [of go_lib ex_config_mtu
      "Errorf ''Invalid config option %q'' [S ''mtu'']" ex_world ex_handle]
  show ?thesis by blast
qed

subsection \<open>Evaluating the library instance\<close>

lemma replicate_numeral_unfold: "replicate (numeral k) x = x # replicate (pred_numeral k) x"
  by (simp add: numeral_eq_Suc)

lemmas split_eval = go_lib_def go_SplitNTrimSpace_def SplitN_def TrimSpace_def isSpace_def

lemmas go_eval =
  split_eval go_ParseIP_def go_ParseCIDR_def go_IsNetworkRange_def parseIPv4_def parseOctet_def
  v4InV6Prefix_def dtoi_def xtoi_def digitVal_def hexVal_def big_def
  parseIPv6_def colonPieces_def parseHexGroup_def
  isNetworkAddress_def isNetworkAddressCIDR_def isNetworkRange_def ipVersionOf_def To4_def
  validSubject_def allowSubjectNames_def

lemma ex_names:
  "storeSubjectNames ex_world (Project ex_handle)
     = [''@internal'', ''#internal'', ''@external'', ''#external'', ''web'']"
  by (simp add: storeSubjectNames_def ex_world_def ex_handle_def Project_def
      ruleSubjectInternalAliases_def ruleSubjectExternalAliases_def ruleSubjectInternal_def
      ruleSubjectExternal_def)

lemma ex_world_next: "nextOutcome ex_world = None"
  by (simp add: nextOutcome_def ex_world_def)

lemma ex_v4: "validSubject go_lib f dir names ''10.0.0.1'' = Inr 4"
  by (simp add: go_eval)

lemma ex_v4b: "validSubject go_lib f dir names ''10.0.0.2'' = Inr 4"
  by (simp add: go_eval)

lemma ex_v6: "validSubject go_lib f dir names ''2001:db8::1'' = Inr 6"
  by (simp add: go_eval replicate_numeral_unfold)

lemma ex_cidr4: "validSubject go_lib f dir names ''192.0.2.0/24'' = Inr 4"
  by (simp add: go_eval)

lemma ex_cidr4b: "validSubject go_lib f dir names ''10.0.0.0/24'' = Inr 4"
  by (simp add: go_eval)

lemma ex_cidr6: "validSubject go_lib f dir names ''2001:db8::/32'' = Inr 6"
  by (simp add: go_eval replicate_numeral_unfold)

lemma ex_internal_notAddress: "notAddress go_lib ''@internal''"
  by (simp add: notAddress_def go_eval)

lemma ex_external_notAddress: "notAddress go_lib ''@external''"
  by (simp add: notAddress_def go_eval)

subsection \<open>Subjects\<close>

lemma validSubject_named:
  "notAddress L s \<Longrightarrow> s \<in> set names \<Longrightarrow>
   validSubject L f dir names s = (if allowSubjectNames f dir then Inr 0 else Inl (namedNotAllowed f dir))"
  by (simp add: validSubject_def notAddress_def namedNotAllowed_def)

lemma subjectsLoop_member_error:
  "s \<in> set ss \<Longrightarrow> validSubject L f dir names s = Inl e \<Longrightarrow>
   \<exists>e'. subjectsLoop L f dir names ss acc = Inl e'"
proof (induction ss arbitrary: acc)
  case Nil
  then show ?case by simp
next
  case (Cons t ts)
  obtain n a b where acc: "acc = (n, a, b)" by (cases acc)
  show ?case
  proof (cases "validSubject L f dir names t")
    case (Inl e1)
    then show ?thesis by (simp add: acc)
  next
    case (Inr v)
    with Cons.prems have "s \<in> set ts" by auto
    from Cons.IH [OF this Cons.prems(2)] Inr show ?thesis by (simp add: acc)
  qed
qed

lemma subjectsLoop_first_error:
  "\<forall>t \<in> set pre. \<exists>v. validSubject L f dir names t = Inr v \<Longrightarrow>
   validSubject L f dir names s = Inl e \<Longrightarrow>
   subjectsLoop L f dir names (pre @ s # post) acc = Inl e"
proof (induction pre arbitrary: acc)
  case Nil
  obtain n a b where acc: "acc = (n, a, b)" by (cases acc)
  from Nil show ?case by (simp add: acc)
next
  case (Cons t ts)
  obtain n a b where acc: "acc = (n, a, b)" by (cases acc)
  from Cons.prems obtain v where v: "validSubject L f dir names t = Inr v" by auto
  from Cons.prems have "\<forall>t \<in> set ts. \<exists>v. validSubject L f dir names t = Inr v" by simp
  from Cons.IH [OF this Cons.prems(2)] v show ?case by (simp add: acc)
qed

lemma subjectsLoop_flags:
  "subjectsLoop L f dir names ss (n, a, b) = Inr (n', a', b') \<Longrightarrow>
     n' = (n \<or> (\<exists>s \<in> set ss. validSubject L f dir names s = Inr 0))
     \<and> a' = (a \<or> (\<exists>s \<in> set ss. validSubject L f dir names s = Inr 4))
     \<and> b' = (b \<or> (\<exists>s \<in> set ss. validSubject L f dir names s = Inr 6))"
proof (induction ss arbitrary: n a b)
  case Nil
  then show ?case by simp
next
  case (Cons t ts)
  from Cons.prems obtain v where v: "validSubject L f dir names t = Inr v"
    by (cases "validSubject L f dir names t") auto
  show ?case
  proof (cases "v = 0")
    case True
    with Cons.prems v have "subjectsLoop L f dir names ts (True, a, b) = Inr (n', a', b')" by simp
    from Cons.IH [OF this] v True show ?thesis by auto
  next
    case v0: False
    show ?thesis
    proof (cases "v = 4")
      case True
      with Cons.prems v have "subjectsLoop L f dir names ts (n, True, b) = Inr (n', a', b')" by simp
      from Cons.IH [OF this] v True show ?thesis by auto
    next
      case v4: False
      show ?thesis
      proof (cases "v = 6")
        case True
        with Cons.prems v have "subjectsLoop L f dir names ts (n, a, True) = Inr (n', a', b')" by simp
        from Cons.IH [OF this] v True show ?thesis by auto
      next
        case False
        with Cons.prems v v0 v4 have "subjectsLoop L f dir names ts (n, a, b) = Inr (n', a', b')" by simp
        from Cons.IH [OF this] v v0 v4 False show ?thesis by auto
      qed
    qed
  qed
qed

subsection \<open>One rule\<close>

lemma advance_fields [simp]:
  "db_acls (advance c w) = db_acls w"
  "db_usage (advance c w) = db_usage w"
  "db_networks (advance c w) = db_networks w"
  "journal (advance c w) = journal w @ [c]"
  "faults (advance c w) = tl (faults w)"
  by (simp_all add: advance_def)

lemma fst_names: "(fst \<circ> (\<lambda>(i, r). (rowName r, i))) = (\<lambda>(i, r). rowName r)"
  by (auto simp: fun_eq_iff)

lemma GetNetworkACLIDsByNames_eq:
  "GetNetworkACLIDsByNames w p =
     (case nextOutcome w of
        Some err \<Rightarrow> Inl err
      | None \<Rightarrow> Inr (map (\<lambda>(i, r). (rowName r, i)) (filter (\<lambda>(i, r). rowProject r = p) (db_acls w))),
      advance (Call_GetNetworkACLIDsByNames p) w)"
  by (simp add: GetNetworkACLIDsByNames_def collab_def split: option.splits)

lemma validateRule_ok:
  "StringInSlice (Action rule) ValidActions \<Longrightarrow> StringInSlice (State rule) validStates \<Longrightarrow>
   nextOutcome w = None \<Longrightarrow>
   validateRule L w d direction rule =
     (validateRuleFields L direction rule (storeSubjectNames w (Project d)),
      advance (Call_GetNetworkACLIDsByNames (Project d)) w)"
  by (simp add: validateRule_def GetNetworkACLIDsByNames_eq storeSubjectNames_def fst_names)

lemma validateRule_None:
  assumes "fst (validateRule L w d direction rule) = None"
  shows "StringInSlice (Action rule) ValidActions \<and> StringInSlice (State rule) validStates
         \<and> nextOutcome w = None
         \<and> validateRuleFields L direction rule (storeSubjectNames w (Project d)) = None"
proof -
  from assms have a: "StringInSlice (Action rule) ValidActions"
    and s: "StringInSlice (State rule) validStates"
    by (auto simp: validateRule_def split: if_splits)
  from assms a s have n: "nextOutcome w = None"
    by (cases "nextOutcome w") (auto simp: validateRule_def GetNetworkACLIDsByNames_eq)
  from validateRule_ok [OF a s n, of L d direction] assms a s n show ?thesis by simp
qed

lemma validateRuleFields_Source_error:
  "Source rule \<noteq> [] \<Longrightarrow>
   validateRuleSubjects L ''Source'' direction (SplitNTrimSpace L (Source rule) '','' (- 1) False) names = Inl e \<Longrightarrow>
   validateRuleFields L direction rule names = Some (Wrapf e ''Invalid Source'' [])"
  by (simp add: validateRuleFields_def)

lemma validateRuleFields_Destination_error:
  "Destination rule \<noteq> [] \<Longrightarrow>
   validateRuleSubjects L ''Destination'' direction (SplitNTrimSpace L (Destination rule) '','' (- 1) False) names = Inl e \<Longrightarrow>
   validateRuleFields L direction rule names \<noteq> None"
  by (simp add: validateRuleFields_def split: sum.splits)

lemma validateProtocolFields_not_conflict:
  "validateProtocolFields L rule src dst \<noteq> Some familyConflictError"
  by (cases src; cases dst)
     (simp add: validateProtocolFields_def familyConflictError_def split: option.splits)

lemma validateRuleFields_conflict_iff:
  assumes "Source rule \<noteq> []" "Destination rule \<noteq> []"
    and "validateRuleSubjects L ''Source'' direction (SplitNTrimSpace L (Source rule) '','' (- 1) False) names = Inr src"
    and "validateRuleSubjects L ''Destination'' direction (SplitNTrimSpace L (Destination rule) '','' (- 1) False) names = Inr dst"
  shows "(validateRuleFields L direction rule names = Some familyConflictError) = familyConflict src dst"
  using assms validateProtocolFields_not_conflict [of L rule src dst]
  by (simp add: validateRuleFields_def familyConflictError_def)

lemma validateRuleFields_None:
  assumes "validateRuleFields L direction rule names = None"
  shows "\<exists>src dst. validateProtocolFields L rule src dst = None
           \<and> (Protocol rule = [] \<or> StringInSlice (Protocol rule) validProtocols)"
proof -
  define srcR where "srcR = (if Source rule \<noteq> []
            then validateRuleSubjects L ''Source'' direction
                   (SplitNTrimSpace L (Source rule) '','' (- 1) False) names
            else Inr (False, False, False))"
  define dstR where "dstR = (if Destination rule \<noteq> []
                 then validateRuleSubjects L ''Destination'' direction
                        (SplitNTrimSpace L (Destination rule) '','' (- 1) False) names
                 else Inr (False, False, False))"
  from assms obtain src where src: "srcR = Inr src"
    by (cases srcR) (auto simp: validateRuleFields_def srcR_def)
  from assms src obtain dst where dst: "dstR = Inr dst"
    by (cases dstR) (auto simp: validateRuleFields_def srcR_def dstR_def)
  from assms src dst
  have "validateProtocolFields L rule src dst = None
        \<and> (Protocol rule = [] \<or> StringInSlice (Protocol rule) validProtocols)"
    unfolding validateRuleFields_def srcR_def [symmetric] dstR_def [symmetric]
    by (simp split: if_splits)
  then show ?thesis by blast
qed

lemma validateProtocolFields_None:
  assumes "validateProtocolFields L rule src dst = None"
  shows "((Protocol rule = ''tcp'' \<or> Protocol rule = ''udp'') \<longrightarrow> ICMPType rule = [] \<and> ICMPCode rule = [])
       \<and> ((Protocol rule = ''icmp4'' \<or> Protocol rule = ''icmp6'') \<longrightarrow> SourcePort rule = [] \<and> DestinationPort rule = [])
       \<and> (Protocol rule = [] \<longrightarrow> ICMPType rule = [] \<and> ICMPCode rule = [] \<and> SourcePort rule = [] \<and> DestinationPort rule = [])"
proof -
  obtain sn s4 s6 dn d4 d6 where sd: "src = (sn, s4, s6)" "dst = (dn, d4, d6)"
    by (cases src; cases dst) auto
  have tcp: "ICMPType rule = [] \<and> ICMPCode rule = []" if "Protocol rule = ''tcp'' \<or> Protocol rule = ''udp''"
    using assms that by (auto simp: validateProtocolFields_def sd StringInSlice_def split: if_splits)
  have icmp: "SourcePort rule = [] \<and> DestinationPort rule = []" if "Protocol rule = ''icmp4'' \<or> Protocol rule = ''icmp6''"
    using assms that by (auto simp: validateProtocolFields_def sd StringInSlice_def split: if_splits)
  have none: "ICMPType rule = [] \<and> ICMPCode rule = [] \<and> SourcePort rule = [] \<and> DestinationPort rule = []"
    if "Protocol rule = []"
    using assms that by (auto simp: validateProtocolFields_def sd StringInSlice_def split: if_splits)
  from tcp icmp none show ?thesis by blast
qed

lemma validateRuleFields_Destination_first:
  "Destination rule \<noteq> [] \<Longrightarrow>
   Source rule = []
     \<or> (\<exists>r. validateRuleSubjects L ''Source'' direction (SplitNTrimSpace L (Source rule) '','' (- 1) False) names = Inr r) \<Longrightarrow>
   validateRuleSubjects L ''Destination'' direction (SplitNTrimSpace L (Destination rule) '','' (- 1) False) names = Inl e \<Longrightarrow>
   validateRuleFields L direction rule names = Some (Wrapf e ''Invalid Destination'' [])"
  by (auto simp: validateRuleFields_def)

lemma ex_web_required:
  "StringInSlice (Action ex_rule_web) ValidActions" "StringInSlice (State ex_rule_web) validStates"
  "StringInSlice (Action ex_rule_web_icmp) ValidActions"
  "StringInSlice (State ex_rule_web_icmp) validStates"
  by (simp_all add: ex_rule_web_icmp_def ex_rule_web_def ex_rule_def StringInSlice_def
      ValidActions_def validStates_def)

lemma ex_web_fields:
  "Source ex_rule_web = ''10.0.0.0/24''" "Destination ex_rule_web = ''@internal''"
  "Protocol ex_rule_web = ''tcp''" "DestinationPort ex_rule_web = ''80,443''"
  "SourcePort ex_rule_web = []" "ICMPType ex_rule_web = []" "ICMPCode ex_rule_web = []"
  "Source ex_rule_web_icmp = ''10.0.0.0/24''" "Destination ex_rule_web_icmp = ''@internal''"
  "Protocol ex_rule_web_icmp = ''icmp4''" "DestinationPort ex_rule_web_icmp = ''80''"
  "SourcePort ex_rule_web_icmp = []" "ICMPType ex_rule_web_icmp = []" "ICMPCode ex_rule_web_icmp = []"
  by (simp_all add: ex_rule_web_icmp_def ex_rule_web_def ex_rule_def)

lemma ex_web_src:
  "validateRuleSubjects go_lib ''Source'' direction
     (SplitNTrimSpace go_lib ''10.0.0.0/24'' '','' (- 1) False) names = Inr (False, True, False)"
proof -
  have "SplitNTrimSpace go_lib ''10.0.0.0/24'' '','' (- 1) False = [''10.0.0.0/24'']"
    by (simp add: split_eval)
  then show ?thesis by (simp add: validateRuleSubjects_def ex_cidr4b)
qed

lemma ex_source_required:
  "StringInSlice (Action (ex_rule\<lparr>Source := a\<rparr>)) ValidActions"
  "StringInSlice (State (ex_rule\<lparr>Source := a\<rparr>)) validStates"
  by (simp_all add: ex_rule_def StringInSlice_def ValidActions_def validStates_def)

lemma ex_bogus:
  "validSubject go_lib f dir [''@internal'', ''#internal'', ''@external'', ''#external'', ''web''] ''bogus''
     = Inl (Errorf ''Invalid subject %q'' [S ''bogus''])"
  by (simp add: go_eval)

lemma ex_bogus_split:
  "SplitNTrimSpace go_lib (Source ex_rule_bogus_named) '','' (- 1) False = [''bogus'', ''@internal'']"
  by (simp add: ex_rule_bogus_named_def ex_rule_def split_eval)

lemma ex_named_source_split:
  "SplitNTrimSpace go_lib (Source ex_rule_named_source) '','' (- 1) False = [''10.0.0.1'', ''@internal'']"
  by (simp add: ex_rule_named_source_def ex_rule_def split_eval)

lemma ex_bogus_rule:
  "fst (validateRule go_lib ex_world ex_handle ruleDirectionEgress ex_rule_bogus_named)
     = Some (Wrapf (Errorf ''Invalid subject %q'' [S ''bogus'']) ''Invalid Source'' [])"
proof -
  have ne: "Source ex_rule_bogus_named \<noteq> []"
    by (simp add: ex_rule_bogus_named_def ex_rule_def)
  have "validateRuleSubjects go_lib ''Source'' ruleDirectionEgress
          (SplitNTrimSpace go_lib (Source ex_rule_bogus_named) '','' (- 1) False)
          (storeSubjectNames ex_world (Project ex_handle))
        = Inl (Errorf ''Invalid subject %q'' [S ''bogus''])"
    by (simp add: ex_bogus_split ex_names validateRuleSubjects_def ex_bogus)
  from validateRuleFields_Source_error [OF ne this]
  have "validateRuleFields go_lib ruleDirectionEgress ex_rule_bogus_named
          (storeSubjectNames ex_world (Project ex_handle))
        = Some (Wrapf (Errorf ''Invalid subject %q'' [S ''bogus'']) ''Invalid Source'' [])" .
  moreover have "validateRule go_lib ex_world ex_handle ruleDirectionEgress ex_rule_bogus_named =
     (validateRuleFields go_lib ruleDirectionEgress ex_rule_bogus_named (storeSubjectNames ex_world (Project ex_handle)),
      advance (Call_GetNetworkACLIDsByNames (Project ex_handle)) ex_world)"
    unfolding ex_rule_bogus_named_def by (rule validateRule_ok [OF ex_source_required ex_world_next])
  ultimately show ?thesis by simp
qed

text \<open>
  C3, as stated: the claim fails. The egress rule with Source \<open>bogus,@internal\<close> holds
  the reserved classifier \<open>@internal\<close> in its Source field, where an egress rule allows
  no name. Its validation fails, but with the error for the subject \<open>bogus\<close> that
  stands before the name, not with the named-subjects-not-allowed error: the loop over
  the subjects returns the error of the first subject that fails.
\<close>

theorem C3_counterexample:
  "notAddress go_lib ''@internal''
   \<and> ''@internal'' \<in> set (storeSubjectNames ex_world (Project ex_handle))
   \<and> ''@internal'' \<in> set (SplitNTrimSpace go_lib (Source ex_rule_bogus_named) '','' (- 1) False)
   \<and> fst (validateRule go_lib ex_world ex_handle ruleDirectionEgress ex_rule_bogus_named)
       = Some (Wrapf (Errorf ''Invalid subject %q'' [S ''bogus'']) ''Invalid Source'' [])
   \<and> fst (validateRule go_lib ex_world ex_handle ruleDirectionEgress ex_rule_bogus_named)
       \<noteq> Some (Wrapf (namedNotAllowed ''Source'' ruleDirectionEgress) ''Invalid Source'' [])"
  using ex_internal_notAddress ex_bogus_rule
  by (simp add: ex_names ex_bogus_split namedNotAllowed_def)

text \<open>
  C3, amended. A subject that is no address and is one of the valid names is accepted
  in the Source field exactly for ingress rules and in the Destination field exactly
  for egress rules; elsewhere its check returns the named-subjects-not-allowed error. A
  subject list that holds such a name is accepted only in an allowed combination of
  field and direction, and a rule with such a name in a field that does not allow it
  always fails validation. The error is the named-subjects-not-allowed error of that
  field when nothing that is checked before the name fails: for a subject list, when
  every subject before the name is valid; for a rule, when moreover Action and State
  are valid, the lookup of the ACL names succeeds and, for a name in the Destination
  field, the Source field is empty or valid.
\<close>

theorem C3_named_subjects_by_field_and_direction:
  assumes na: "notAddress L s" and nm: "s \<in> set validSubjectNames"
  shows
    "validSubject L ''Source'' direction validSubjectNames s
       = (if direction = ruleDirectionIngress then Inr 0 else Inl (namedNotAllowed ''Source'' direction))
     \<and> validSubject L ''Destination'' direction validSubjectNames s
       = (if direction = ruleDirectionEgress then Inr 0 else Inl (namedNotAllowed ''Destination'' direction))
     \<and> (s \<in> set subjects
          \<and> (\<exists>r. validateRuleSubjects L fieldName direction subjects validSubjectNames = Inr r)
        \<longrightarrow> (fieldName = ''Source'' \<and> direction = ruleDirectionIngress)
            \<or> (fieldName = ''Destination'' \<and> direction = ruleDirectionEgress))
     \<and> (\<not> ((fieldName = ''Source'' \<and> direction = ruleDirectionIngress)
             \<or> (fieldName = ''Destination'' \<and> direction = ruleDirectionEgress))
          \<and> (\<forall>t \<in> set pre. \<exists>v. validSubject L fieldName direction validSubjectNames t = Inr v)
        \<longrightarrow> validateRuleSubjects L fieldName direction (pre @ s # post) validSubjectNames
              = Inl (namedNotAllowed fieldName direction))
     \<and> (validSubjectNames = storeSubjectNames w (Project d) \<and> Source rule \<noteq> []
          \<and> s \<in> set (SplitNTrimSpace L (Source rule) '','' (- 1) False)
          \<and> direction \<noteq> ruleDirectionIngress
        \<longrightarrow> fst (validateRule L w d direction rule) \<noteq> None)
     \<and> (validSubjectNames = storeSubjectNames w (Project d) \<and> Destination rule \<noteq> []
          \<and> s \<in> set (SplitNTrimSpace L (Destination rule) '','' (- 1) False)
          \<and> direction \<noteq> ruleDirectionEgress
        \<longrightarrow> fst (validateRule L w d direction rule) \<noteq> None)
     \<and> (validSubjectNames = storeSubjectNames w (Project d)
          \<and> StringInSlice (Action rule) ValidActions \<and> StringInSlice (State rule) validStates
          \<and> nextOutcome w = None \<and> Source rule \<noteq> []
          \<and> SplitNTrimSpace L (Source rule) '','' (- 1) False = spre @ s # spost
          \<and> (\<forall>t \<in> set spre. \<exists>v. validSubject L ''Source'' direction validSubjectNames t = Inr v)
          \<and> direction \<noteq> ruleDirectionIngress
        \<longrightarrow> fst (validateRule L w d direction rule)
              = Some (Wrapf (namedNotAllowed ''Source'' direction) ''Invalid Source'' []))
     \<and> (validSubjectNames = storeSubjectNames w (Project d)
          \<and> StringInSlice (Action rule) ValidActions \<and> StringInSlice (State rule) validStates
          \<and> nextOutcome w = None
          \<and> (Source rule = []
              \<or> (\<exists>r. validateRuleSubjects L ''Source'' direction
                         (SplitNTrimSpace L (Source rule) '','' (- 1) False) validSubjectNames = Inr r))
          \<and> Destination rule \<noteq> []
          \<and> SplitNTrimSpace L (Destination rule) '','' (- 1) False = dpre @ s # dpost
          \<and> (\<forall>t \<in> set dpre. \<exists>v. validSubject L ''Destination'' direction validSubjectNames t = Inr v)
          \<and> direction \<noteq> ruleDirectionEgress
        \<longrightarrow> fst (validateRule L w d direction rule)
              = Some (Wrapf (namedNotAllowed ''Destination'' direction) ''Invalid Destination'' []))"
proof -
  note vs = validSubject_named [OF na nm]
  have src: "validSubject L ''Source'' direction validSubjectNames s
       = (if direction = ruleDirectionIngress then Inr 0 else Inl (namedNotAllowed ''Source'' direction))"
    by (simp add: vs allowSubjectNames_def)
  have dst: "validSubject L ''Destination'' direction validSubjectNames s
       = (if direction = ruleDirectionEgress then Inr 0 else Inl (namedNotAllowed ''Destination'' direction))"
    by (simp add: vs allowSubjectNames_def)
  have only: "(fieldName = ''Source'' \<and> direction = ruleDirectionIngress)
            \<or> (fieldName = ''Destination'' \<and> direction = ruleDirectionEgress)"
    if mem: "s \<in> set subjects"
      and ok: "\<exists>r. validateRuleSubjects L fieldName direction subjects validSubjectNames = Inr r"
  proof (rule ccontr)
    assume "\<not> ?thesis"
    then have "validSubject L fieldName direction validSubjectNames s
                 = Inl (namedNotAllowed fieldName direction)"
      by (simp add: vs allowSubjectNames_def)
    from subjectsLoop_member_error [OF mem this, of "(False, False, False)"] ok show False
      by (auto simp: validateRuleSubjects_def)
  qed
  have first_at: "validateRuleSubjects L f direction (p @ s # q) validSubjectNames
              = Inl (namedNotAllowed f direction)"
    if no: "\<not> allowSubjectNames f direction"
      and pre: "\<forall>t \<in> set p. \<exists>v. validSubject L f direction validSubjectNames t = Inr v"
    for f p q
  proof -
    from no have "validSubject L f direction validSubjectNames s = Inl (namedNotAllowed f direction)"
      by (simp add: vs)
    from subjectsLoop_first_error [OF pre this] show ?thesis
      by (simp add: validateRuleSubjects_def)
  qed
  have first: "validateRuleSubjects L fieldName direction (pre @ s # post) validSubjectNames
              = Inl (namedNotAllowed fieldName direction)"
    if no: "\<not> ((fieldName = ''Source'' \<and> direction = ruleDirectionIngress)
             \<or> (fieldName = ''Destination'' \<and> direction = ruleDirectionEgress))"
      and pre: "\<forall>t \<in> set pre. \<exists>v. validSubject L fieldName direction validSubjectNames t = Inr v"
  proof -
    from no have "\<not> allowSubjectNames fieldName direction" by (simp add: allowSubjectNames_def)
    from first_at [OF this pre] show ?thesis .
  qed
  have rsrc: "fst (validateRule L w d direction rule) \<noteq> None"
    if eq: "validSubjectNames = storeSubjectNames w (Project d)"
      and ne: "Source rule \<noteq> []"
      and mem: "s \<in> set (SplitNTrimSpace L (Source rule) '','' (- 1) False)"
      and dir: "direction \<noteq> ruleDirectionIngress"
  proof
    assume "fst (validateRule L w d direction rule) = None"
    from validateRule_None [OF this] eq
    have none: "validateRuleFields L direction rule validSubjectNames = None" by simp
    from dir have "validSubject L ''Source'' direction validSubjectNames s
                 = Inl (namedNotAllowed ''Source'' direction)"
      by (simp add: src)
    from subjectsLoop_member_error [OF mem this, of "(False, False, False)"]
    obtain e' where "validateRuleSubjects L ''Source'' direction
        (SplitNTrimSpace L (Source rule) '','' (- 1) False) validSubjectNames = Inl e'"
      by (auto simp: validateRuleSubjects_def)
    from validateRuleFields_Source_error [OF ne this] none show False by simp
  qed
  have rdst: "fst (validateRule L w d direction rule) \<noteq> None"
    if eq: "validSubjectNames = storeSubjectNames w (Project d)"
      and ne: "Destination rule \<noteq> []"
      and mem: "s \<in> set (SplitNTrimSpace L (Destination rule) '','' (- 1) False)"
      and dir: "direction \<noteq> ruleDirectionEgress"
  proof
    assume "fst (validateRule L w d direction rule) = None"
    from validateRule_None [OF this] eq
    have none: "validateRuleFields L direction rule validSubjectNames = None" by simp
    from dir have "validSubject L ''Destination'' direction validSubjectNames s
                 = Inl (namedNotAllowed ''Destination'' direction)"
      by (simp add: dst)
    from subjectsLoop_member_error [OF mem this, of "(False, False, False)"]
    obtain e' where "validateRuleSubjects L ''Destination'' direction
        (SplitNTrimSpace L (Destination rule) '','' (- 1) False) validSubjectNames = Inl e'"
      by (auto simp: validateRuleSubjects_def)
    from validateRuleFields_Destination_error [OF ne this] none show False by simp
  qed
  have esrc: "fst (validateRule L w d direction rule)
              = Some (Wrapf (namedNotAllowed ''Source'' direction) ''Invalid Source'' [])"
    if eq: "validSubjectNames = storeSubjectNames w (Project d)"
      and act: "StringInSlice (Action rule) ValidActions"
      and st: "StringInSlice (State rule) validStates"
      and nx: "nextOutcome w = None"
      and ne: "Source rule \<noteq> []"
      and sp: "SplitNTrimSpace L (Source rule) '','' (- 1) False = spre @ s # spost"
      and pre: "\<forall>t \<in> set spre. \<exists>v. validSubject L ''Source'' direction validSubjectNames t = Inr v"
      and dir: "direction \<noteq> ruleDirectionIngress"
  proof -
    from dir have "\<not> allowSubjectNames ''Source'' direction" by (simp add: allowSubjectNames_def)
    from first_at [OF this pre, of spost] sp
    have "validateRuleSubjects L ''Source'' direction
            (SplitNTrimSpace L (Source rule) '','' (- 1) False) validSubjectNames
          = Inl (namedNotAllowed ''Source'' direction)" by simp
    from validateRuleFields_Source_error [OF ne this]
      validateRule_ok [OF act st nx, of L d direction] eq
    show ?thesis by simp
  qed
  have edst: "fst (validateRule L w d direction rule)
              = Some (Wrapf (namedNotAllowed ''Destination'' direction) ''Invalid Destination'' [])"
    if eq: "validSubjectNames = storeSubjectNames w (Project d)"
      and act: "StringInSlice (Action rule) ValidActions"
      and st: "StringInSlice (State rule) validStates"
      and nx: "nextOutcome w = None"
      and so: "Source rule = []
              \<or> (\<exists>r. validateRuleSubjects L ''Source'' direction
                         (SplitNTrimSpace L (Source rule) '','' (- 1) False) validSubjectNames = Inr r)"
      and ne: "Destination rule \<noteq> []"
      and sp: "SplitNTrimSpace L (Destination rule) '','' (- 1) False = dpre @ s # dpost"
      and pre: "\<forall>t \<in> set dpre. \<exists>v. validSubject L ''Destination'' direction validSubjectNames t = Inr v"
      and dir: "direction \<noteq> ruleDirectionEgress"
  proof -
    from dir have "\<not> allowSubjectNames ''Destination'' direction" by (simp add: allowSubjectNames_def)
    from first_at [OF this pre, of dpost] sp
    have "validateRuleSubjects L ''Destination'' direction
            (SplitNTrimSpace L (Destination rule) '','' (- 1) False) validSubjectNames
          = Inl (namedNotAllowed ''Destination'' direction)" by simp
    from validateRuleFields_Destination_first [OF ne so this]
      validateRule_ok [OF act st nx, of L d direction] eq
    show ?thesis by simp
  qed
  from src dst only first rsrc rdst esrc edst show ?thesis by blast
qed

theorem C3_witness:
  "validSubject go_lib ''Source'' ruleDirectionIngress (storeSubjectNames ex_world (Project ex_handle))
       ''@internal'' = Inr 0
   \<and> validSubject go_lib ''Destination'' ruleDirectionIngress
       (storeSubjectNames ex_world (Project ex_handle)) ''@internal''
       = Inl (namedNotAllowed ''Destination'' ruleDirectionIngress)
   \<and> validateRuleSubjects go_lib ''Destination'' ruleDirectionIngress
       ([''10.0.0.1''] @ ''@internal'' # [''10.0.0.2'']) (storeSubjectNames ex_world (Project ex_handle))
       = Inl (namedNotAllowed ''Destination'' ruleDirectionIngress)
   \<and> fst (validateRule go_lib ex_world ex_handle ruleDirectionIngress ex_rule_web)
       = Some (Wrapf (namedNotAllowed ''Destination'' ruleDirectionIngress) ''Invalid Destination'' [])
   \<and> fst (validateRule go_lib ex_world ex_handle ruleDirectionEgress ex_rule_named_source)
       = Some (Wrapf (namedNotAllowed ''Source'' ruleDirectionEgress) ''Invalid Source'' [])"
proof -
  let ?names = "storeSubjectNames ex_world (Project ex_handle)"
  have na: "notAddress go_lib ''@internal''" by (rule ex_internal_notAddress)
  have nm: "''@internal'' \<in> set ?names" by (simp add: ex_names)
  note ing = C3_named_subjects_by_field_and_direction
    [OF na nm, where direction = ruleDirectionIngress and fieldName = "''Destination''"
       and subjects = "[]" and pre = "[''10.0.0.1'']" and post = "[''10.0.0.2'']"
       and w = ex_world and d = ex_handle and rule = ex_rule_web
       and spre = "[]" and spost = "[]" and dpre = "[]" and dpost = "[]"]
  note egr = C3_named_subjects_by_field_and_direction
    [OF na nm, where direction = ruleDirectionEgress and fieldName = "''Source''"
       and subjects = "[]" and pre = "[]" and post = "[]"
       and w = ex_world and d = ex_handle and rule = ex_rule_named_source
       and spre = "[''10.0.0.1'']" and spost = "[]" and dpre = "[]" and dpost = "[]"]
  have one: "validSubject go_lib ''Source'' ruleDirectionIngress ?names ''@internal'' = Inr 0"
    using ing [THEN conjunct1] by simp
  have two: "validSubject go_lib ''Destination'' ruleDirectionIngress ?names ''@internal''
       = Inl (namedNotAllowed ''Destination'' ruleDirectionIngress)"
    using ing [THEN conjunct2, THEN conjunct1] by simp
  have pre: "\<forall>t \<in> set [''10.0.0.1'']. \<exists>v. validSubject go_lib ''Destination'' ruleDirectionIngress ?names t = Inr v"
    by (simp add: ex_v4)
  have three: "validateRuleSubjects go_lib ''Destination'' ruleDirectionIngress
       ([''10.0.0.1''] @ ''@internal'' # [''10.0.0.2'']) ?names
       = Inl (namedNotAllowed ''Destination'' ruleDirectionIngress)"
    using ing [THEN conjunct2, THEN conjunct2, THEN conjunct2, THEN conjunct1] pre by simp
  have "validateRuleSubjects go_lib ''Source'' ruleDirectionIngress
          (SplitNTrimSpace go_lib (Source ex_rule_web) '','' (- 1) False) ?names = Inr (False, True, False)"
    by (simp add: ex_web_fields ex_web_src)
  then have web_src: "\<exists>r. validateRuleSubjects go_lib ''Source'' ruleDirectionIngress
                   (SplitNTrimSpace go_lib (Source ex_rule_web) '','' (- 1) False) ?names = Inr r" ..
  have web_ne: "Destination ex_rule_web \<noteq> []"
    by (simp add: ex_web_fields)
  have web_split: "SplitNTrimSpace go_lib (Destination ex_rule_web) '','' (- 1) False = [] @ ''@internal'' # []"
    by (simp add: ex_web_fields split_eval)
  have four: "fst (validateRule go_lib ex_world ex_handle ruleDirectionIngress ex_rule_web)
       = Some (Wrapf (namedNotAllowed ''Destination'' ruleDirectionIngress) ''Invalid Destination'' [])"
    using ing [THEN conjunct2, THEN conjunct2, THEN conjunct2, THEN conjunct2, THEN conjunct2,
               THEN conjunct2, THEN conjunct2]
      ex_web_required(1,2) ex_world_next web_src web_ne web_split
    by simp
  have src_ne: "Source ex_rule_named_source \<noteq> []"
    by (simp add: ex_rule_named_source_def ex_rule_def)
  have src_split: "SplitNTrimSpace go_lib (Source ex_rule_named_source) '','' (- 1) False
                     = [''10.0.0.1''] @ ''@internal'' # []"
    by (simp add: ex_named_source_split)
  have src_pre: "\<forall>t \<in> set [''10.0.0.1'']. \<exists>v. validSubject go_lib ''Source'' ruleDirectionEgress ?names t = Inr v"
    by (simp add: ex_v4)
  have src_req: "StringInSlice (Action ex_rule_named_source) ValidActions"
    "StringInSlice (State ex_rule_named_source) validStates"
    unfolding ex_rule_named_source_def by (rule ex_source_required)+
  have five: "fst (validateRule go_lib ex_world ex_handle ruleDirectionEgress ex_rule_named_source)
       = Some (Wrapf (namedNotAllowed ''Source'' ruleDirectionEgress) ''Invalid Source'' [])"
    using egr [THEN conjunct2, THEN conjunct2, THEN conjunct2, THEN conjunct2, THEN conjunct2,
               THEN conjunct2, THEN conjunct1]
      src_req ex_world_next src_ne src_split src_pre
    by simp
  from one two three four five show ?thesis by simp
qed

lemma ex_mixed_src:
  "validateRuleSubjects go_lib ''Source'' ruleDirectionIngress
     (SplitNTrimSpace go_lib (Source ex_rule_mixed) '','' (- 1) False)
     (storeSubjectNames ex_world (Project ex_handle)) = Inr (False, True, True)"
proof -
  have "SplitNTrimSpace go_lib (Source ex_rule_mixed) '','' (- 1) False = [''10.0.0.1'', ''2001:db8::1'']"
    by (simp add: ex_rule_mixed_def ex_rule_def split_eval)
  then show ?thesis by (simp add: validateRuleSubjects_def ex_v4 ex_v6)
qed

lemma ex_mixed_dst:
  "validateRuleSubjects go_lib ''Destination'' ruleDirectionIngress
     (SplitNTrimSpace go_lib (Destination ex_rule_mixed) '','' (- 1) False)
     (storeSubjectNames ex_world (Project ex_handle)) = Inr (False, True, False)"
proof -
  have "SplitNTrimSpace go_lib (Destination ex_rule_mixed) '','' (- 1) False = [''10.0.0.2'']"
    by (simp add: ex_rule_mixed_def ex_rule_def split_eval)
  then show ?thesis by (simp add: validateRuleSubjects_def ex_v4b)
qed

lemma ex_named_src:
  "validateRuleSubjects go_lib ''Source'' ruleDirectionEgress
     (SplitNTrimSpace go_lib (Source ex_rule_v4_named) '','' (- 1) False)
     (storeSubjectNames ex_world (Project ex_handle)) = Inr (False, True, False)"
proof -
  have "SplitNTrimSpace go_lib (Source ex_rule_v4_named) '','' (- 1) False = [''10.0.0.1'']"
    by (simp add: ex_rule_v4_named_def ex_rule_def split_eval)
  then show ?thesis by (simp add: validateRuleSubjects_def ex_v4)
qed

lemma ex_external_egress:
  "validSubject go_lib ''Destination'' ruleDirectionEgress (storeSubjectNames ex_world (Project ex_handle))
     ''@external'' = Inr 0"
  using validSubject_named [OF ex_external_notAddress, of "storeSubjectNames ex_world (Project ex_handle)"
      "''Destination''" ruleDirectionEgress]
  by (simp add: ex_names allowSubjectNames_def)

lemma ex_named_dst:
  "validateRuleSubjects go_lib ''Destination'' ruleDirectionEgress
     (SplitNTrimSpace go_lib (Destination ex_rule_v4_named) '','' (- 1) False)
     (storeSubjectNames ex_world (Project ex_handle)) = Inr (True, True, False)"
proof -
  have "SplitNTrimSpace go_lib (Destination ex_rule_v4_named) '','' (- 1) False = [''10.0.0.2'', ''@external'']"
    by (simp add: ex_rule_v4_named_def ex_rule_def split_eval)
  then show ?thesis by (simp add: validateRuleSubjects_def ex_v4b ex_external_egress)
qed

lemma ex_rule_required:
  "StringInSlice (Action (ex_rule\<lparr>Source := a, Destination := b\<rparr>)) ValidActions"
  "StringInSlice (State (ex_rule\<lparr>Source := a, Destination := b\<rparr>)) validStates"
  by (simp_all add: ex_rule_def StringInSlice_def ValidActions_def validStates_def)

lemma ex_mixed_rule:
  "fst (validateRule go_lib ex_world ex_handle ruleDirectionIngress ex_rule_mixed) = Some familyConflictError"
proof -
  have ne: "Source ex_rule_mixed \<noteq> []" "Destination ex_rule_mixed \<noteq> []"
    by (simp_all add: ex_rule_mixed_def ex_rule_def)
  have "validateRule go_lib ex_world ex_handle ruleDirectionIngress ex_rule_mixed
         = (validateRuleFields go_lib ruleDirectionIngress ex_rule_mixed
              (storeSubjectNames ex_world (Project ex_handle)),
            advance (Call_GetNetworkACLIDsByNames (Project ex_handle)) ex_world)"
    unfolding ex_rule_mixed_def by (rule validateRule_ok [OF ex_rule_required ex_world_next])
  with validateRuleFields_conflict_iff [OF ne ex_mixed_src ex_mixed_dst]
  show ?thesis by (simp add: familyConflict_def)
qed

lemma ex_named_rule:
  "fst (validateRule go_lib ex_world ex_handle ruleDirectionEgress ex_rule_v4_named) = None"
proof -
  have "validateRule go_lib ex_world ex_handle ruleDirectionEgress ex_rule_v4_named
         = (validateRuleFields go_lib ruleDirectionEgress ex_rule_v4_named
              (storeSubjectNames ex_world (Project ex_handle)),
            advance (Call_GetNetworkACLIDsByNames (Project ex_handle)) ex_world)"
    unfolding ex_rule_v4_named_def by (rule validateRule_ok [OF ex_rule_required ex_world_next])
  moreover have "validateRuleFields go_lib ruleDirectionEgress ex_rule_v4_named
              (storeSubjectNames ex_world (Project ex_handle)) = None"
    using ex_named_src ex_named_dst
    by (simp add: validateRuleFields_def familyConflict_def)
       (simp add: ex_rule_v4_named_def ex_rule_def validateProtocolFields_def StringInSlice_def)
  ultimately show ?thesis by simp
qed

text \<open>
  C4, as stated: the claim fails. The ingress rule with Source
  \<open>10.0.0.1,2001:db8::1\<close> and Destination \<open>10.0.0.2\<close> fails with the family-conflict
  error; yet its only single-family side, the IPv4-only Destination, faces a Source that
  contains an IPv4 address (\<open>specFamilyConflict\<close> is false). And if "neither IPv4 nor
  name-only" is read as "neither IPv4-only nor name-only", the egress rule with Source
  \<open>10.0.0.1\<close> and Destination \<open>10.0.0.2,@external\<close> would conflict
  (\<open>specFamilyConflictOnly\<close> is true), and it passes validation.
\<close>

theorem C4_counterexample:
  "validateRuleSubjects go_lib ''Source'' ruleDirectionIngress
     (SplitNTrimSpace go_lib (Source ex_rule_mixed) '','' (- 1) False)
     (storeSubjectNames ex_world (Project ex_handle)) = Inr (False, True, True)
   \<and> validateRuleSubjects go_lib ''Destination'' ruleDirectionIngress
     (SplitNTrimSpace go_lib (Destination ex_rule_mixed) '','' (- 1) False)
     (storeSubjectNames ex_world (Project ex_handle)) = Inr (False, True, False)
   \<and> fst (validateRule go_lib ex_world ex_handle ruleDirectionIngress ex_rule_mixed)
       = Some familyConflictError
   \<and> \<not> specFamilyConflict (False, True, True) (False, True, False)
   \<and> validateRuleSubjects go_lib ''Source'' ruleDirectionEgress
     (SplitNTrimSpace go_lib (Source ex_rule_v4_named) '','' (- 1) False)
     (storeSubjectNames ex_world (Project ex_handle)) = Inr (False, True, False)
   \<and> validateRuleSubjects go_lib ''Destination'' ruleDirectionEgress
     (SplitNTrimSpace go_lib (Destination ex_rule_v4_named) '','' (- 1) False)
     (storeSubjectNames ex_world (Project ex_handle)) = Inr (True, True, False)
   \<and> fst (validateRule go_lib ex_world ex_handle ruleDirectionEgress ex_rule_v4_named) = None
   \<and> specFamilyConflictOnly (False, True, False) (True, True, False)"
  using ex_mixed_src ex_mixed_dst ex_mixed_rule ex_named_src ex_named_dst ex_named_rule
  by (simp add: specFamilyConflict_def specFamilyConflictOnly_def ipv4Only_def ipv6Only_def
      nameOnly_def hasIPv4_def hasIPv6_def)

text \<open>
  C4, amended. For a rule with both fields set, valid Action and State, a successful
  lookup of the ACL names and two valid subject lists, validation returns the
  family-conflict error exactly when one side contains an IPv4 address and the other
  side contains neither an IPv4 address nor a name, or the same with IPv6. The flags of
  a side say which kinds of subject its list contains. So two sides without names that
  do not contain the same families always conflict, and a side that contains only
  names never does.
\<close>

theorem C4_family_conflict_by_contained_families:
  assumes act: "StringInSlice (Action rule) ValidActions"
    and st: "StringInSlice (State rule) validStates"
    and ok: "nextOutcome w = None"
    and ne: "Source rule \<noteq> []" "Destination rule \<noteq> []"
    and src: "validateRuleSubjects L ''Source'' direction
           (SplitNTrimSpace L (Source rule) '','' (- 1) False) (storeSubjectNames w (Project d))
             = Inr (srcHasName, srcHasIPv4, srcHasIPv6)"
    and dst: "validateRuleSubjects L ''Destination'' direction
           (SplitNTrimSpace L (Destination rule) '','' (- 1) False) (storeSubjectNames w (Project d))
             = Inr (dstHasName, dstHasIPv4, dstHasIPv6)"
  shows
    "((fst (validateRule L w d direction rule) = Some familyConflictError)
       = ((srcHasIPv4 \<and> \<not> dstHasIPv4 \<and> \<not> dstHasName)
          \<or> (dstHasIPv4 \<and> \<not> srcHasIPv4 \<and> \<not> srcHasName)
          \<or> (srcHasIPv6 \<and> \<not> dstHasIPv6 \<and> \<not> dstHasName)
          \<or> (dstHasIPv6 \<and> \<not> srcHasIPv6 \<and> \<not> srcHasName)))
     \<and> srcHasIPv4 = (\<exists>s \<in> set (SplitNTrimSpace L (Source rule) '','' (- 1) False).
                       validSubject L ''Source'' direction (storeSubjectNames w (Project d)) s = Inr 4)
     \<and> srcHasIPv6 = (\<exists>s \<in> set (SplitNTrimSpace L (Source rule) '','' (- 1) False).
                       validSubject L ''Source'' direction (storeSubjectNames w (Project d)) s = Inr 6)
     \<and> srcHasName = (\<exists>s \<in> set (SplitNTrimSpace L (Source rule) '','' (- 1) False).
                       validSubject L ''Source'' direction (storeSubjectNames w (Project d)) s = Inr 0)
     \<and> dstHasIPv4 = (\<exists>s \<in> set (SplitNTrimSpace L (Destination rule) '','' (- 1) False).
                       validSubject L ''Destination'' direction (storeSubjectNames w (Project d)) s = Inr 4)
     \<and> dstHasIPv6 = (\<exists>s \<in> set (SplitNTrimSpace L (Destination rule) '','' (- 1) False).
                       validSubject L ''Destination'' direction (storeSubjectNames w (Project d)) s = Inr 6)
     \<and> dstHasName = (\<exists>s \<in> set (SplitNTrimSpace L (Destination rule) '','' (- 1) False).
                       validSubject L ''Destination'' direction (storeSubjectNames w (Project d)) s = Inr 0)
     \<and> (\<not> srcHasName \<and> \<not> dstHasName \<and> (srcHasIPv4 \<noteq> dstHasIPv4 \<or> srcHasIPv6 \<noteq> dstHasIPv6)
        \<longrightarrow> fst (validateRule L w d direction rule) = Some familyConflictError)
     \<and> ((dstHasName \<and> \<not> dstHasIPv4 \<and> \<not> dstHasIPv6) \<or> (srcHasName \<and> \<not> srcHasIPv4 \<and> \<not> srcHasIPv6)
        \<longrightarrow> fst (validateRule L w d direction rule) \<noteq> Some familyConflictError)"
proof -
  let ?names = "storeSubjectNames w (Project d)"
  have run: "fst (validateRule L w d direction rule) = validateRuleFields L direction rule ?names"
    by (simp add: validateRule_ok [OF act st ok])
  have iff: "(fst (validateRule L w d direction rule) = Some familyConflictError)
       = ((srcHasIPv4 \<and> \<not> dstHasIPv4 \<and> \<not> dstHasName)
          \<or> (dstHasIPv4 \<and> \<not> srcHasIPv4 \<and> \<not> srcHasName)
          \<or> (srcHasIPv6 \<and> \<not> dstHasIPv6 \<and> \<not> dstHasName)
          \<or> (dstHasIPv6 \<and> \<not> srcHasIPv6 \<and> \<not> srcHasName))"
    using validateRuleFields_conflict_iff [OF ne src dst] by (simp add: run familyConflict_def)
  from src have sf: "srcHasName = (\<exists>s \<in> set (SplitNTrimSpace L (Source rule) '','' (- 1) False).
                       validSubject L ''Source'' direction ?names s = Inr 0)
     \<and> srcHasIPv4 = (\<exists>s \<in> set (SplitNTrimSpace L (Source rule) '','' (- 1) False).
                       validSubject L ''Source'' direction ?names s = Inr 4)
     \<and> srcHasIPv6 = (\<exists>s \<in> set (SplitNTrimSpace L (Source rule) '','' (- 1) False).
                       validSubject L ''Source'' direction ?names s = Inr 6)"
    using subjectsLoop_flags [of L "''Source''" direction ?names _ False False False
        srcHasName srcHasIPv4 srcHasIPv6]
    by (simp add: validateRuleSubjects_def)
  from dst have df: "dstHasName = (\<exists>s \<in> set (SplitNTrimSpace L (Destination rule) '','' (- 1) False).
                       validSubject L ''Destination'' direction ?names s = Inr 0)
     \<and> dstHasIPv4 = (\<exists>s \<in> set (SplitNTrimSpace L (Destination rule) '','' (- 1) False).
                       validSubject L ''Destination'' direction ?names s = Inr 4)
     \<and> dstHasIPv6 = (\<exists>s \<in> set (SplitNTrimSpace L (Destination rule) '','' (- 1) False).
                       validSubject L ''Destination'' direction ?names s = Inr 6)"
    using subjectsLoop_flags [of L "''Destination''" direction ?names _ False False False
        dstHasName dstHasIPv4 dstHasIPv6]
    by (simp add: validateRuleSubjects_def)
  have diff: "fst (validateRule L w d direction rule) = Some familyConflictError"
    if "\<not> srcHasName \<and> \<not> dstHasName \<and> (srcHasIPv4 \<noteq> dstHasIPv4 \<or> srcHasIPv6 \<noteq> dstHasIPv6)"
    using that iff by blast
  have named: "fst (validateRule L w d direction rule) \<noteq> Some familyConflictError"
    if "(dstHasName \<and> \<not> dstHasIPv4 \<and> \<not> dstHasIPv6) \<or> (srcHasName \<and> \<not> srcHasIPv4 \<and> \<not> srcHasIPv6)"
    using that iff by blast
  from iff sf df diff named show ?thesis by blast
qed

lemma ex_v4_v6_src:
  "validateRuleSubjects go_lib ''Source'' dir
     (SplitNTrimSpace go_lib (Source (ex_rule\<lparr>Source := ''192.0.2.0/24'', Destination := b\<rparr>)) '','' (- 1) False)
     names = Inr (False, True, False)"
proof -
  have "SplitNTrimSpace go_lib (Source (ex_rule\<lparr>Source := ''192.0.2.0/24'', Destination := b\<rparr>)) '','' (- 1) False
          = [''192.0.2.0/24'']"
    by (simp add: ex_rule_def split_eval)
  then show ?thesis by (simp add: validateRuleSubjects_def ex_cidr4)
qed

lemma ex_v4_v6_dst:
  "validateRuleSubjects go_lib ''Destination'' dir
     (SplitNTrimSpace go_lib (Destination ex_rule_v4_v6) '','' (- 1) False) names = Inr (False, False, True)"
proof -
  have "SplitNTrimSpace go_lib (Destination ex_rule_v4_v6) '','' (- 1) False = [''2001:db8::/32'']"
    by (simp add: ex_rule_v4_v6_def ex_rule_def split_eval)
  then show ?thesis by (simp add: validateRuleSubjects_def ex_cidr6)
qed

lemma ex_v4_external_dst:
  "validateRuleSubjects go_lib ''Destination'' ruleDirectionEgress
     (SplitNTrimSpace go_lib (Destination ex_rule_v4_external) '','' (- 1) False)
     (storeSubjectNames ex_world (Project ex_handle)) = Inr (True, False, False)"
proof -
  have "SplitNTrimSpace go_lib (Destination ex_rule_v4_external) '','' (- 1) False = [''@external'']"
    by (simp add: ex_rule_v4_external_def ex_rule_def split_eval)
  then show ?thesis by (simp add: validateRuleSubjects_def ex_external_egress)
qed

theorem C4_witness:
  "fst (validateRule go_lib ex_world ex_handle ruleDirectionIngress ex_rule_v4_v6)
     = Some familyConflictError
   \<and> fst (validateRule go_lib ex_world ex_handle ruleDirectionEgress ex_rule_v4_external)
     \<noteq> Some familyConflictError"
proof -
  have ne1: "Source ex_rule_v4_v6 \<noteq> []" "Destination ex_rule_v4_v6 \<noteq> []"
    and ne2: "Source ex_rule_v4_external \<noteq> []" "Destination ex_rule_v4_external \<noteq> []"
    by (simp_all add: ex_rule_v4_v6_def ex_rule_v4_external_def ex_rule_def)
  have req1: "StringInSlice (Action ex_rule_v4_v6) ValidActions"
      "StringInSlice (State ex_rule_v4_v6) validStates"
    and req2: "StringInSlice (Action ex_rule_v4_external) ValidActions"
      "StringInSlice (State ex_rule_v4_external) validStates"
    unfolding ex_rule_v4_v6_def ex_rule_v4_external_def by (rule ex_rule_required)+
  have s1: "validateRuleSubjects go_lib ''Source'' ruleDirectionIngress
     (SplitNTrimSpace go_lib (Source ex_rule_v4_v6) '','' (- 1) False)
     (storeSubjectNames ex_world (Project ex_handle)) = Inr (False, True, False)"
    unfolding ex_rule_v4_v6_def by (rule ex_v4_v6_src)
  have s2: "validateRuleSubjects go_lib ''Source'' ruleDirectionEgress
     (SplitNTrimSpace go_lib (Source ex_rule_v4_external) '','' (- 1) False)
     (storeSubjectNames ex_world (Project ex_handle)) = Inr (False, True, False)"
    unfolding ex_rule_v4_external_def by (rule ex_v4_v6_src)
  from C4_family_conflict_by_contained_families [OF req1 ex_world_next ne1 s1 ex_v4_v6_dst]
    C4_family_conflict_by_contained_families [OF req2 ex_world_next ne2 s2 ex_v4_external_dst]
  show ?thesis by simp
qed

text \<open>
  C5. With protocol tcp or udp a rule with an ICMP type or code fails validation; with
  protocol icmp4 or icmp6 a rule with a source or destination port fails; with no
  protocol a rule with any of the four fields fails. No other protocol passes, so the
  three cases are all there are.
\<close>

theorem C5_protocol_dependent_fields:
  "((Protocol rule = ''tcp'' \<or> Protocol rule = ''udp'') \<and> (ICMPType rule \<noteq> [] \<or> ICMPCode rule \<noteq> [])
      \<longrightarrow> fst (validateRule L w d direction rule) \<noteq> None)
   \<and> ((Protocol rule = ''icmp4'' \<or> Protocol rule = ''icmp6'')
        \<and> (SourcePort rule \<noteq> [] \<or> DestinationPort rule \<noteq> [])
      \<longrightarrow> fst (validateRule L w d direction rule) \<noteq> None)
   \<and> (Protocol rule = []
        \<and> (ICMPType rule \<noteq> [] \<or> ICMPCode rule \<noteq> [] \<or> SourcePort rule \<noteq> [] \<or> DestinationPort rule \<noteq> [])
      \<longrightarrow> fst (validateRule L w d direction rule) \<noteq> None)
   \<and> (fst (validateRule L w d direction rule) = None
      \<longrightarrow> Protocol rule \<in> {[], ''tcp'', ''udp'', ''icmp4'', ''icmp6''})"
proof (cases "fst (validateRule L w d direction rule) = None")
  case True
  from validateRule_None [OF True]
  have "validateRuleFields L direction rule (storeSubjectNames w (Project d)) = None" by simp
  from validateRuleFields_None [OF this] obtain src dst
    where p: "validateProtocolFields L rule src dst = None"
      and v: "Protocol rule = [] \<or> StringInSlice (Protocol rule) validProtocols" by blast
  from v have "Protocol rule \<in> {[], ''tcp'', ''udp'', ''icmp4'', ''icmp6''}"
    by (auto simp: StringInSlice_def validProtocols_def)
  with validateProtocolFields_None [OF p] True show ?thesis by blast
next
  case False
  then show ?thesis by blast
qed

theorem C5_witness:
  "fst (validateRule go_lib ex_world ex_handle ruleDirectionIngress
          (ex_rule\<lparr>Protocol := ''tcp'', ICMPType := ''8''\<rparr>)) \<noteq> None
   \<and> fst (validateRule go_lib ex_world ex_handle ruleDirectionIngress
          (ex_rule\<lparr>Protocol := ''icmp6'', SourcePort := ''80''\<rparr>)) \<noteq> None
   \<and> fst (validateRule go_lib ex_world ex_handle ruleDirectionIngress
          (ex_rule\<lparr>DestinationPort := ''80''\<rparr>)) \<noteq> None
   \<and> fst (validateRule go_lib ex_world ex_handle ruleDirectionEgress ex_rule_v4_named) = None
   \<and> Protocol ex_rule_v4_named \<in> {[], ''tcp'', ''udp'', ''icmp4'', ''icmp6''}"
  using
    C5_protocol_dependent_fields [of "ex_rule\<lparr>Protocol := ''tcp'', ICMPType := ''8''\<rparr>"
      go_lib ex_world ex_handle ruleDirectionIngress]
    C5_protocol_dependent_fields [of "ex_rule\<lparr>Protocol := ''icmp6'', SourcePort := ''80''\<rparr>"
      go_lib ex_world ex_handle ruleDirectionIngress]
    C5_protocol_dependent_fields [of "ex_rule\<lparr>DestinationPort := ''80''\<rparr>"
      go_lib ex_world ex_handle ruleDirectionIngress]
    C5_protocol_dependent_fields [of ex_rule_v4_named go_lib ex_world ex_handle ruleDirectionEgress]
    ex_named_rule
  by (simp add: ex_rule_def)

subsection \<open>The web rule\<close>

lemma ex_web_run:
  "fst (validateRule go_lib ex_world ex_handle direction ex_rule_web)
     = validateRuleFields go_lib direction ex_rule_web (storeSubjectNames ex_world (Project ex_handle))"
  "fst (validateRule go_lib ex_world ex_handle direction ex_rule_web_icmp)
     = validateRuleFields go_lib direction ex_rule_web_icmp (storeSubjectNames ex_world (Project ex_handle))"
  by (simp_all add: validateRule_ok [OF ex_web_required(1,2) ex_world_next]
      validateRule_ok [OF ex_web_required(3,4) ex_world_next])

lemma ex_web_dst:
  "validateRuleSubjects go_lib ''Destination'' direction
     (SplitNTrimSpace go_lib ''@internal'' '','' (- 1) False)
     (storeSubjectNames ex_world (Project ex_handle))
   = (if direction = ruleDirectionEgress then Inr (True, False, False)
      else Inl (namedNotAllowed ''Destination'' direction))"
proof -
  have "SplitNTrimSpace go_lib ''@internal'' '','' (- 1) False = [''@internal'']"
    by (simp add: split_eval)
  moreover have "validSubject go_lib ''Destination'' direction
      (storeSubjectNames ex_world (Project ex_handle)) ''@internal''
      = (if direction = ruleDirectionEgress then Inr 0 else Inl (namedNotAllowed ''Destination'' direction))"
    using validSubject_named [OF ex_internal_notAddress,
        of "storeSubjectNames ex_world (Project ex_handle)" "''Destination''" direction]
    by (simp add: ex_names allowSubjectNames_def)
  ultimately show ?thesis by (simp add: validateRuleSubjects_def)
qed

lemma ex_web_ports:
  "validatePorts go_lib (SplitNTrimSpace go_lib ''80,443'' '','' (- 1) False) = None"
proof -
  have "SplitNTrimSpace go_lib ''80,443'' '','' (- 1) False = [''80'', ''443'']"
    by (simp add: split_eval)
  moreover have "IsNetworkPort go_lib ''80'' = None" "IsNetworkPort go_lib ''443'' = None"
    by (simp_all add: go_lib_def go_IsNetworkPort_def parseUint_def digitVal_def)
  ultimately show ?thesis by (simp add: validPort_def)
qed

lemma ex_web_ingress:
  "fst (validateRule go_lib ex_world ex_handle ruleDirectionIngress ex_rule_web)
     = Some (Wrapf (namedNotAllowed ''Destination'' ruleDirectionIngress) ''Invalid Destination'' [])"
  by (simp add: ex_web_run validateRuleFields_def ex_web_fields ex_web_src ex_web_dst)

lemma ex_web_icmp_ingress:
  "fst (validateRule go_lib ex_world ex_handle ruleDirectionIngress ex_rule_web_icmp)
     = Some (Wrapf (namedNotAllowed ''Destination'' ruleDirectionIngress) ''Invalid Destination'' [])"
  by (simp add: ex_web_run validateRuleFields_def ex_web_fields ex_web_src ex_web_dst)

lemma ex_web_egress:
  "fst (validateRule go_lib ex_world ex_handle ruleDirectionEgress ex_rule_web) = None"
  by (simp add: ex_web_run validateRuleFields_def validateProtocolFields_def ex_web_fields
      ex_web_src ex_web_dst ex_web_ports familyConflict_def StringInSlice_def validProtocols_def)

lemma ex_web_icmp_egress:
  "fst (validateRule go_lib ex_world ex_handle ruleDirectionEgress ex_rule_web_icmp)
     = Some (Errorf ''Destination port cannot be used with %q protocol'' [S ''icmp4''])"
  by (simp add: ex_web_run validateRuleFields_def validateProtocolFields_def ex_web_fields
      ex_web_src ex_web_dst familyConflict_def StringInSlice_def validProtocols_def)

text \<open>
  C8, as stated: the claim fails. The ingress rule with Source \<open>10.0.0.0/24\<close>,
  Destination \<open>@internal\<close>, protocol tcp and destination port \<open>80,443\<close> does not pass
  rule validation: a named subject is not allowed in the Destination of an ingress
  rule.
\<close>

theorem C8_counterexample:
  "fst (validateRule go_lib ex_world ex_handle ruleDirectionIngress ex_rule_web)
     = Some (Wrapf (Errorf ''Named subjects not allowed in %q for %q rules''
                      [S ''Destination'', S ''ingress''])
               ''Invalid Destination'' [])"
  using ex_web_ingress by (simp add: namedNotAllowed_def)

text \<open>
  C8, amended. As an ingress rule, the rule fails with the named-subjects-not-allowed
  error for its Destination, with protocol tcp as with protocol icmp4 and destination
  port \<open>80\<close> (the Destination is checked before the protocol). As an egress rule it
  passes rule validation, and the same egress rule with protocol icmp4 and destination
  port \<open>80\<close> fails with the error for a destination port with an ICMP protocol.
\<close>

theorem C8_web_rule_by_direction:
  "fst (validateRule go_lib ex_world ex_handle ruleDirectionIngress ex_rule_web)
     = Some (Wrapf (namedNotAllowed ''Destination'' ruleDirectionIngress) ''Invalid Destination'' [])
   \<and> fst (validateRule go_lib ex_world ex_handle ruleDirectionIngress ex_rule_web_icmp)
     = Some (Wrapf (namedNotAllowed ''Destination'' ruleDirectionIngress) ''Invalid Destination'' [])
   \<and> fst (validateRule go_lib ex_world ex_handle ruleDirectionEgress ex_rule_web) = None
   \<and> fst (validateRule go_lib ex_world ex_handle ruleDirectionEgress ex_rule_web_icmp)
     = Some (Errorf ''Destination port cannot be used with %q protocol'' [S ''icmp4''])"
  using ex_web_ingress ex_web_icmp_ingress ex_web_egress ex_web_icmp_egress by simp

subsection \<open>The rule set\<close>

lemma nextOutcome_faultfree: "faults w = [] \<Longrightarrow> nextOutcome w = None"
  by (simp add: nextOutcome_def)

lemma validateRule_fst_cong:
  "nextOutcome w' = nextOutcome w \<Longrightarrow> db_acls w' = db_acls w \<Longrightarrow>
   fst (validateRule L w' d direction rule) = fst (validateRule L w d direction rule)"
  by (simp add: validateRule_def GetNetworkACLIDsByNames_eq split: option.splits)

lemma validateRule_snd:
  "snd (validateRule L w d direction rule) = w
   \<or> snd (validateRule L w d direction rule) = advance (Call_GetNetworkACLIDsByNames (Project d)) w"
  by (simp add: validateRule_def GetNetworkACLIDsByNames_eq split: option.splits)

lemma validateRule_snd_faultfree:
  "faults w = [] \<Longrightarrow>
   faults (snd (validateRule L w d direction rule)) = []
   \<and> db_acls (snd (validateRule L w d direction rule)) = db_acls w"
  using validateRule_snd [of L w d direction rule] by auto

lemma isDuplicate_iff:
  "isDuplicate rules i rule = (\<exists>j < length rules. j \<noteq> i \<and> rules ! j = rule)"
  by (auto simp: isDuplicate_def)

lemma validateRules_duplicate_fails:
  "\<exists>k < length rest. isDuplicate rules (i + k) (rest ! k) \<Longrightarrow>
   fst (validateRules L d direction rules i rest w) \<noteq> None"
proof (induction rest arbitrary: i w)
  case Nil
  then show ?case by simp
next
  case (Cons r rs)
  obtain v w1 where vr: "validateRule L w d direction r = (v, w1)"
    by (cases "validateRule L w d direction r")
  show ?case
  proof (cases v)
    case (Some e)
    with vr show ?thesis by simp
  next
    case None
    show ?thesis
    proof (cases "isDuplicate rules i r")
      case True
      with vr None show ?thesis by simp
    next
      case False
      from Cons.prems obtain k where k: "k < length (r # rs)"
        and dup: "isDuplicate rules (i + k) ((r # rs) ! k)" by blast
      from False dup have "k \<noteq> 0" by (cases k) auto
      then obtain k' where k': "k = Suc k'" by (cases k) auto
      with k dup have "\<exists>k < length rs. isDuplicate rules (Suc i + k) (rs ! k)" by auto
      from Cons.IH [OF this, of w1] vr None False show ?thesis by simp
    qed
  qed
qed

lemma validateRules_first_duplicate:
  assumes "faults w = []" and "k < length rest"
    and "\<forall>j < k. \<not> isDuplicate rules (i + j) (rest ! j)"
    and "\<forall>j \<le> k. fst (validateRule L w d direction (rest ! j)) = None"
    and "isDuplicate rules (i + k) (rest ! k)"
  shows "fst (validateRules L d direction rules i rest w)
           = Some (Errorf (duplicateRuleFormat direction) [N (i + k)])"
  using assms
proof (induction rest arbitrary: i k w)
  case Nil
  then show ?case by simp
next
  case (Cons r rs)
  obtain v w1 where vr: "validateRule L w d direction r = (v, w1)"
    by (cases "validateRule L w d direction r")
  from Cons.prems(4) have "fst (validateRule L w d direction r) = None" by fastforce
  with vr have v: "v = None" by simp
  show ?case
  proof (cases k)
    case 0
    with Cons.prems(5) vr v show ?thesis by simp
  next
    case (Suc k')
    from Cons.prems(3) Suc have nd: "\<not> isDuplicate rules i r" by fastforce
    from validateRule_snd_faultfree [OF Cons.prems(1), of L d direction r] vr
    have w1: "faults w1 = []" "db_acls w1 = db_acls w" by simp_all
    have same: "fst (validateRule L w1 d direction x) = fst (validateRule L w d direction x)" for x
      by (rule validateRule_fst_cong)
         (simp_all add: w1 nextOutcome_faultfree Cons.prems(1))
    have a: "k' < length rs" using Cons.prems(2) Suc by simp
    have b: "\<forall>j < k'. \<not> isDuplicate rules (Suc i + j) (rs ! j)"
      using Cons.prems(3) Suc by fastforce
    have c: "\<forall>j \<le> k'. fst (validateRule L w1 d direction (rs ! j)) = None"
      using Cons.prems(4) Suc same by fastforce
    have e: "isDuplicate rules (Suc i + k') (rs ! k')"
      using Cons.prems(5) Suc by simp
    from Cons.IH [OF w1(1) a b c e] vr v nd Suc show ?thesis by simp
  qed
qed

lemma validateRules_first_invalid:
  assumes "faults w = []" and "k < length rest"
    and "\<forall>j < k. fst (validateRule L w d direction (rest ! j)) = None
            \<and> \<not> isDuplicate rules (i + j) (rest ! j)"
    and "fst (validateRule L w d direction (rest ! k)) = Some e"
  shows "fst (validateRules L d direction rules i rest w)
           = Some (Wrapf e (invalidRuleFormat direction) [N (i + k)])"
  using assms
proof (induction rest arbitrary: i k w)
  case Nil
  then show ?case by simp
next
  case (Cons r rs)
  obtain v w1 where vr: "validateRule L w d direction r = (v, w1)"
    by (cases "validateRule L w d direction r")
  show ?case
  proof (cases k)
    case 0
    with Cons.prems(4) vr show ?thesis by simp
  next
    case (Suc k')
    from Cons.prems(3) Suc have "fst (validateRule L w d direction r) = None"
      and nd: "\<not> isDuplicate rules i r" by fastforce+
    with vr have v: "v = None" by simp
    from validateRule_snd_faultfree [OF Cons.prems(1), of L d direction r] vr
    have w1: "faults w1 = []" "db_acls w1 = db_acls w" by simp_all
    have same: "fst (validateRule L w1 d direction x) = fst (validateRule L w d direction x)" for x
      by (rule validateRule_fst_cong)
         (simp_all add: w1 nextOutcome_faultfree Cons.prems(1))
    have a: "k' < length rs" using Cons.prems(2) Suc by simp
    have b: "\<forall>j < k'. fst (validateRule L w1 d direction (rs ! j)) = None
               \<and> \<not> isDuplicate rules (Suc i + j) (rs ! j)"
      using Cons.prems(3) Suc same by fastforce
    have c: "fst (validateRule L w1 d direction (rs ! k')) = Some e"
      using Cons.prems(4) Suc same by simp
    from Cons.IH [OF w1(1) a b c] vr v nd Suc show ?thesis by simp
  qed
qed

lemma validateRules_all_pass:
  assumes "faults w = []"
    and "\<forall>j < length rest. fst (validateRule L w d direction (rest ! j)) = None
            \<and> \<not> isDuplicate rules (i + j) (rest ! j)"
  shows "fst (validateRules L d direction rules i rest w) = None
         \<and> faults (snd (validateRules L d direction rules i rest w)) = []
         \<and> db_acls (snd (validateRules L d direction rules i rest w)) = db_acls w"
  using assms
proof (induction rest arbitrary: i w)
  case Nil
  then show ?case by simp
next
  case (Cons r rs)
  obtain v w1 where vr: "validateRule L w d direction r = (v, w1)"
    by (cases "validateRule L w d direction r")
  from Cons.prems(2) have "fst (validateRule L w d direction r) = None"
    and nd: "\<not> isDuplicate rules i r" by fastforce+
  with vr have v: "v = None" by simp
  from validateRule_snd_faultfree [OF Cons.prems(1), of L d direction r] vr
  have w1: "faults w1 = []" "db_acls w1 = db_acls w" by simp_all
  have same: "fst (validateRule L w1 d direction x) = fst (validateRule L w d direction x)" for x
    by (rule validateRule_fst_cong)
       (simp_all add: w1 nextOutcome_faultfree Cons.prems(1))
  have "\<forall>j < length rs. fst (validateRule L w1 d direction (rs ! j)) = None
            \<and> \<not> isDuplicate rules (Suc i + j) (rs ! j)"
    using Cons.prems(2) same by fastforce
  from Cons.IH [OF w1(1) this] vr v nd w1 show ?case by simp
qed

lemma lookupsOnly_refl: "lookupsOnly w w"
  by (simp add: lookupsOnly_def)

lemma lookupsOnly_trans: "lookupsOnly w w1 \<Longrightarrow> lookupsOnly w1 w2 \<Longrightarrow> lookupsOnly w w2"
  by (fastforce simp: lookupsOnly_def)

lemma lookupsOnly_advance: "lookupsOnly w (advance (Call_GetNetworkACLIDsByNames p) w)"
  by (simp add: lookupsOnly_def isLookup_def)

lemma validateRule_lookupsOnly: "lookupsOnly w (snd (validateRule L w d direction rule))"
  using validateRule_snd [of L w d direction rule]
  by (auto simp: lookupsOnly_refl lookupsOnly_advance)

lemma validateRules_lookupsOnly:
  "lookupsOnly w (snd (validateRules L d direction rules i rest w))"
proof (induction rest arbitrary: i w)
  case Nil
  then show ?case by (simp add: lookupsOnly_refl)
next
  case (Cons r rs)
  obtain v w1 where vr: "validateRule L w d direction r = (v, w1)"
    by (cases "validateRule L w d direction r")
  from validateRule_lookupsOnly [of w L d direction r] vr have l1: "lookupsOnly w w1" by simp
  from lookupsOnly_trans [OF l1 Cons.IH [of w1 "Suc i"]] l1 vr
  show ?case by (simp split: option.splits)
qed

lemma rulesOf_normalised:
  "rulesOf (Ingress (normaliseRules L config)) = ingressRules L config"
  "rulesOf (Egress (normaliseRules L config)) = egressRules L config"
  by (simp_all add: normaliseRules_def rulesOf_def ingressRules_def egressRules_def split: option.splits)

lemma validateConfig_eq:
  "validateConfigMap L (Config config) None = None \<Longrightarrow>
   validateConfig L w d config =
     (case validateRules L d ruleDirectionIngress (ingressRules L config) 0 (ingressRules L config) w of
        (Some err, w1) \<Rightarrow> (Some err, normaliseRules L config, w1)
      | (None, w1) \<Rightarrow>
          (case validateRules L d ruleDirectionEgress (egressRules L config) 0 (egressRules L config) w1 of
             (err, w2) \<Rightarrow> (err, normaliseRules L config, w2)))"
  unfolding validateConfig_def Let_def rulesOf_normalised by simp

lemma validateConfig_lookupsOnly:
  "lookupsOnly w (snd (snd (validateConfig L w d config)))"
proof (cases "validateConfigMap L (Config config) None")
  case (Some e)
  then show ?thesis by (simp add: validateConfig_def lookupsOnly_refl)
next
  case None
  let ?ing = "validateRules L d ruleDirectionIngress (ingressRules L config) 0 (ingressRules L config) w"
  obtain v w1 where i: "?ing = (v, w1)" by (cases ?ing)
  from validateRules_lookupsOnly [of w L d ruleDirectionIngress "ingressRules L config" 0 "ingressRules L config"] i
  have l1: "lookupsOnly w w1" by simp
  let ?egr = "validateRules L d ruleDirectionEgress (egressRules L config) 0 (egressRules L config) w1"
  obtain v2 w2 where e: "?egr = (v2, w2)" by (cases ?egr)
  from validateRules_lookupsOnly [of w1 L d ruleDirectionEgress "egressRules L config" 0 "egressRules L config"] e
  have "lookupsOnly w1 w2" by simp
  from lookupsOnly_trans [OF l1 this] l1 i e None show ?thesis
    by (cases v) (simp_all add: validateConfig_eq)
qed

lemma duplicate_pair:
  "i < length rules \<Longrightarrow> j < length rules \<Longrightarrow> i \<noteq> j \<Longrightarrow> rules ! i = rules ! j \<Longrightarrow>
   \<exists>k < length rules. isDuplicate rules (0 + k) (rules ! k)"
  by (auto simp: isDuplicate_iff)

lemma firstDuplicate_loop:
  "firstDuplicate rules k \<Longrightarrow>
   k < length rules \<and> (\<forall>j < k. \<not> isDuplicate rules (0 + j) (rules ! j))
   \<and> isDuplicate rules (0 + k) (rules ! k)"
  by (auto simp: firstDuplicate_def isDuplicate_iff)

lemma distinct_no_duplicate:
  "distinct rules \<Longrightarrow> j < length rules \<Longrightarrow> \<not> isDuplicate rules (0 + j) (rules ! j)"
  by (auto simp: isDuplicate_iff nth_eq_iff_index_eq)

lemma uniqueBefore_loop:
  "uniqueBefore rules k \<Longrightarrow> \<forall>j < k. \<not> isDuplicate rules (0 + j) (rules ! j)"
  by (auto simp: uniqueBefore_def isDuplicate_iff)

lemma ex_normalise:
  "Normalise go_lib ex_rule = ex_rule" "Normalise go_lib ex_rule_pair = ex_rule_pair"
  "Normalise go_lib ex_rule_pair_spaced = ex_rule_pair" "Normalise go_lib ex_rule_web = ex_rule_web"
  "Normalise go_lib ex_rule_port = ex_rule_port"
  by (simp_all add: go_lib_def go_Normalise_def normaliseList_def go_SplitNTrimSpace_def SplitN_def
      TrimSpace_def isSpace_def ex_rule_def ex_rule_pair_def ex_rule_pair_spaced_def ex_rule_web_def
      ex_rule_port_def)

lemma ex_rule_run:
  "validateRule go_lib ex_world ex_handle direction ex_rule
     = (None, advance (Call_GetNetworkACLIDsByNames ''default'') ex_world)"
proof -
  have "StringInSlice (Action ex_rule) ValidActions" "StringInSlice (State ex_rule) validStates"
    by (simp_all add: ex_rule_def StringInSlice_def ValidActions_def validStates_def)
  from validateRule_ok [OF this ex_world_next, of go_lib ex_handle direction]
  show ?thesis
    by (simp add: validateRuleFields_def validateProtocolFields_def ex_rule_def StringInSlice_def
        Project_def ex_handle_def)
qed

lemma ex_rule_passes:
  "fst (validateRule go_lib ex_world ex_handle direction ex_rule) = None"
  by (simp add: ex_rule_run)

lemma ex_rule_port_run:
  "validateRule go_lib ex_world ex_handle direction ex_rule_port
     = (Some (Errorf ''Destination port cannot be used without specifying protocol'' []),
        advance (Call_GetNetworkACLIDsByNames ''default'') ex_world)"
proof -
  have "StringInSlice (Action ex_rule_port) ValidActions" "StringInSlice (State ex_rule_port) validStates"
    by (simp_all add: ex_rule_port_def ex_rule_def StringInSlice_def ValidActions_def validStates_def)
  from validateRule_ok [OF this ex_world_next, of go_lib ex_handle direction]
  show ?thesis
    by (simp add: validateRuleFields_def validateProtocolFields_def ex_rule_port_def ex_rule_def
        StringInSlice_def Project_def ex_handle_def)
qed

lemma ex_rule_pair_passes:
  "fst (validateRule go_lib ex_world ex_handle ruleDirectionIngress ex_rule_pair) = None"
proof -
  have "StringInSlice (Action ex_rule_pair) ValidActions" "StringInSlice (State ex_rule_pair) validStates"
    by (simp_all add: ex_rule_pair_def ex_rule_def StringInSlice_def ValidActions_def validStates_def)
  moreover have "SplitNTrimSpace go_lib ''10.0.0.1,10.0.0.2'' '','' (- 1) False = [''10.0.0.1'', ''10.0.0.2'']"
    by (simp add: split_eval)
  ultimately show ?thesis
    using validateRule_ok [OF _ _ ex_world_next, of ex_rule_pair go_lib ex_handle ruleDirectionIngress]
    by (simp add: validateRuleFields_def validateProtocolFields_def ex_rule_pair_def ex_rule_def
        StringInSlice_def validateRuleSubjects_def ex_v4 ex_v4b)
qed

lemma ex_world_faults: "faults ex_world = []"
  by (simp add: ex_world_def)

lemma ex_config_maps:
  "validateConfigMap go_lib (Config ex_config_dup) None = None"
  "validateConfigMap go_lib (Config ex_config_cross) None = None"
  "validateConfigMap go_lib (Config ex_config_egress_dup) None = None"
  "validateConfigMap go_lib (Config ex_config_web) None = None"
  "validateConfigMap go_lib (Config ex_config_invalid_first) None = None"
  "validateConfigMap go_lib (Config ex_config_invalid_between) None = None"
  by (simp_all add: validateConfigMap_nil ex_config_dup_def ex_config_cross_def
      ex_config_egress_dup_def ex_config_web_def ex_config_invalid_first_def
      ex_config_invalid_between_def)

lemma ex_config_rules:
  "ingressRules go_lib ex_config_dup = [ex_rule, ex_rule_pair, ex_rule_pair]"
  "ingressRules go_lib ex_config_cross = [ex_rule]"
  "egressRules go_lib ex_config_cross = [ex_rule]"
  "ingressRules go_lib ex_config_egress_dup = [ex_rule]"
  "egressRules go_lib ex_config_egress_dup = [ex_rule, ex_rule]"
  "ingressRules go_lib ex_config_web = [ex_rule_web]"
  "egressRules go_lib ex_config_web = []"
  "ingressRules go_lib ex_config_invalid_first = [ex_rule_port, ex_rule, ex_rule]"
  "egressRules go_lib ex_config_invalid_first = []"
  "ingressRules go_lib ex_config_invalid_between = [ex_rule, ex_rule_port, ex_rule]"
  "egressRules go_lib ex_config_invalid_between = []"
  by (simp_all add: ingressRules_def egressRules_def rulesOf_def ex_normalise ex_config_dup_def
      ex_config_cross_def ex_config_egress_dup_def ex_config_web_def ex_config_invalid_first_def
      ex_config_invalid_between_def)

lemma ex_rule_pair_differs: "ex_rule \<noteq> ex_rule_pair"
  by (simp add: ex_rule_pair_def ex_rule_def)

lemma ex_invalid_first:
  "validateConfig go_lib ex_world ex_handle ex_config_invalid_first
     = (Some (Wrapf (Errorf ''Destination port cannot be used without specifying protocol'' [])
                ''Invalid ingress rule %d'' [N 0]),
        normaliseRules go_lib ex_config_invalid_first,
        advance (Call_GetNetworkACLIDsByNames ''default'') ex_world)"
  by (simp add: validateConfig_eq ex_config_maps ex_config_rules ex_rule_port_run)

lemma ex_invalid_between:
  "validateConfig go_lib ex_world ex_handle ex_config_invalid_between
     = (Some (Errorf ''Duplicate of ingress rule %d'' [N 0]),
        normaliseRules go_lib ex_config_invalid_between,
        advance (Call_GetNetworkACLIDsByNames ''default'') ex_world)"
proof -
  have "isDuplicate [ex_rule, ex_rule_port, ex_rule] 0 ex_rule"
    unfolding isDuplicate_iff by (rule exI [of _ 2]) simp
  then show ?thesis
    by (simp add: validateConfig_eq ex_config_maps ex_config_rules ex_rule_run)
qed

text \<open>
  C6, as stated: the claim fails. The validator does not validate each rule and then
  look for duplicates: it takes the rules of a direction in order, and looks for a
  duplicate of a rule right after that rule has passed its validation. With the
  ingress rules \<open>[p, r, r]\<close>, where \<open>r\<close> is a valid rule and \<open>p\<close> has a port and no
  protocol, the rule set holds two equal normalised rules and fails with the error for
  the invalid rule 0, not with a duplicate error. With the ingress rules \<open>[r, p, r]\<close>
  the error is the duplicate error for rule 0, and the invalid rule 1 has not been
  validated: one lookup of the ACL names was made, the one for rule 0.
\<close>

theorem C6_counterexample:
  "ingressRules go_lib ex_config_invalid_first = [ex_rule_port, ex_rule, ex_rule]
   \<and> fst (validateConfig go_lib ex_world ex_handle ex_config_invalid_first)
       = Some (Wrapf (Errorf ''Destination port cannot be used without specifying protocol'' [])
                 ''Invalid ingress rule %d'' [N 0])
   \<and> ingressRules go_lib ex_config_invalid_between = [ex_rule, ex_rule_port, ex_rule]
   \<and> fst (validateRule go_lib ex_world ex_handle ruleDirectionIngress ex_rule_port)
       = Some (Errorf ''Destination port cannot be used without specifying protocol'' [])
   \<and> fst (validateConfig go_lib ex_world ex_handle ex_config_invalid_between)
       = Some (Errorf ''Duplicate of ingress rule %d'' [N 0])
   \<and> journal (snd (snd (validateConfig go_lib ex_world ex_handle ex_config_invalid_between)))
       = [Call_GetNetworkACLIDsByNames ''default'']"
  by (simp add: ex_config_rules ex_invalid_first ex_invalid_between ex_rule_port_run)
     (simp add: ex_world_def)

text \<open>
  C6, amended. validateConfig normalises every rule before it validates any (the rules
  it works on, and leaves in the configuration, are the normalised ones). It then takes
  the ingress rules in order, and after them the egress rules: each rule is validated
  and, once it has passed, compared with every other rule of its direction. So a rule
  set with two equal normalised rules in the same direction, at any two positions,
  always fails validation. When no collaborator call fails and the config map is
  valid, the first rule of a direction that is invalid or equal to another rule of
  that direction decides the error: if the rules up to the first duplicate are valid,
  it is the duplicate error with the index of the first duplicate; if a rule is
  invalid, the rules before it are valid and none of them is equal to another rule, it
  is the error of that rule, wrapped with its index. For the egress rules this holds
  when the ingress rules are valid and distinct. Valid rule sets with no duplicate
  within a direction pass, whatever rules the two directions share.
\<close>

theorem C6_duplicates_rejected:
  "((\<exists>i j. i < length (ingressRules L config) \<and> j < length (ingressRules L config) \<and> i \<noteq> j
            \<and> ingressRules L config ! i = ingressRules L config ! j)
      \<longrightarrow> fst (validateConfig L w d config) \<noteq> None)
   \<and> ((\<exists>i j. i < length (egressRules L config) \<and> j < length (egressRules L config) \<and> i \<noteq> j
            \<and> egressRules L config ! i = egressRules L config ! j)
      \<longrightarrow> fst (validateConfig L w d config) \<noteq> None)
   \<and> (faults w = [] \<and> validateConfigMap L (Config config) None = None
        \<and> firstDuplicate (ingressRules L config) k
        \<and> (\<forall>i \<le> k. fst (validateRule L w d ruleDirectionIngress (ingressRules L config ! i)) = None)
      \<longrightarrow> fst (validateConfig L w d config) = Some (Errorf ''Duplicate of ingress rule %d'' [N k]))
   \<and> (faults w = [] \<and> validateConfigMap L (Config config) None = None
        \<and> k < length (ingressRules L config) \<and> uniqueBefore (ingressRules L config) k
        \<and> (\<forall>i < k. fst (validateRule L w d ruleDirectionIngress (ingressRules L config ! i)) = None)
        \<and> fst (validateRule L w d ruleDirectionIngress (ingressRules L config ! k)) = Some e
      \<longrightarrow> fst (validateConfig L w d config) = Some (Wrapf e ''Invalid ingress rule %d'' [N k]))
   \<and> (faults w = [] \<and> validateConfigMap L (Config config) None = None
        \<and> distinct (ingressRules L config)
        \<and> (\<forall>r \<in> set (ingressRules L config). fst (validateRule L w d ruleDirectionIngress r) = None)
        \<and> firstDuplicate (egressRules L config) k
        \<and> (\<forall>i \<le> k. fst (validateRule L w d ruleDirectionEgress (egressRules L config ! i)) = None)
      \<longrightarrow> fst (validateConfig L w d config) = Some (Errorf ''Duplicate of egress rule %d'' [N k]))
   \<and> (faults w = [] \<and> validateConfigMap L (Config config) None = None
        \<and> distinct (ingressRules L config)
        \<and> (\<forall>r \<in> set (ingressRules L config). fst (validateRule L w d ruleDirectionIngress r) = None)
        \<and> k < length (egressRules L config) \<and> uniqueBefore (egressRules L config) k
        \<and> (\<forall>i < k. fst (validateRule L w d ruleDirectionEgress (egressRules L config ! i)) = None)
        \<and> fst (validateRule L w d ruleDirectionEgress (egressRules L config ! k)) = Some e
      \<longrightarrow> fst (validateConfig L w d config) = Some (Wrapf e ''Invalid egress rule %d'' [N k]))
   \<and> (faults w = [] \<and> validateConfigMap L (Config config) None = None
        \<and> distinct (ingressRules L config)
        \<and> (\<forall>r \<in> set (ingressRules L config). fst (validateRule L w d ruleDirectionIngress r) = None)
        \<and> distinct (egressRules L config)
        \<and> (\<forall>r \<in> set (egressRules L config). fst (validateRule L w d ruleDirectionEgress r) = None)
      \<longrightarrow> fst (validateConfig L w d config) = None)
   \<and> (validateConfigMap L (Config config) None = None
      \<longrightarrow> fst (snd (validateConfig L w d config)) = normaliseRules L config)"
proof -
  let ?ing = "ingressRules L config" and ?egr = "egressRules L config"
  let ?vi = "validateRules L d ruleDirectionIngress ?ing 0 ?ing w"
  obtain vi wi where vi: "?vi = (vi, wi)" by (cases ?vi)
  let ?ve = "validateRules L d ruleDirectionEgress ?egr 0 ?egr wi"
  obtain ve we where ve: "?ve = (ve, we)" by (cases ?ve)
  have run: "fst (validateConfig L w d config) = (case vi of Some e \<Rightarrow> Some e | None \<Rightarrow> ve)"
    if "validateConfigMap L (Config config) None = None"
    using that vi ve by (simp add: validateConfig_eq split: option.splits)
  have fail: "fst (validateConfig L w d config) \<noteq> None"
    if "validateConfigMap L (Config config) None \<noteq> None"
    using that by (auto simp: validateConfig_def)
  have ingress_pass: "vi = None \<and> faults wi = [] \<and> db_acls wi = db_acls w"
    if ff: "faults w = []" and di: "distinct ?ing"
      and ok: "\<forall>r \<in> set ?ing. fst (validateRule L w d ruleDirectionIngress r) = None"
  proof -
    have "\<forall>j < length ?ing. fst (validateRule L w d ruleDirectionIngress (?ing ! j)) = None
            \<and> \<not> isDuplicate ?ing (0 + j) (?ing ! j)"
      using ok distinct_no_duplicate [OF di] by simp
    from validateRules_all_pass [OF ff this] vi show ?thesis by simp
  qed
  have c1: "fst (validateConfig L w d config) \<noteq> None"
    if "\<exists>i j. i < length ?ing \<and> j < length ?ing \<and> i \<noteq> j \<and> ?ing ! i = ?ing ! j"
  proof (cases "validateConfigMap L (Config config) None")
    case (Some e)
    then show ?thesis by (simp add: fail)
  next
    case None
    from that obtain i j where "i < length ?ing" "j < length ?ing" "i \<noteq> j" "?ing ! i = ?ing ! j"
      by blast
    from validateRules_duplicate_fails [OF duplicate_pair [OF this], of L d ruleDirectionIngress w] vi
    have "vi \<noteq> None" by simp
    with run [OF None] show ?thesis by auto
  qed
  have c2: "fst (validateConfig L w d config) \<noteq> None"
    if "\<exists>i j. i < length ?egr \<and> j < length ?egr \<and> i \<noteq> j \<and> ?egr ! i = ?egr ! j"
  proof (cases "validateConfigMap L (Config config) None")
    case (Some e)
    then show ?thesis by (simp add: fail)
  next
    case None
    from that obtain i j where "i < length ?egr" "j < length ?egr" "i \<noteq> j" "?egr ! i = ?egr ! j"
      by blast
    from validateRules_duplicate_fails [OF duplicate_pair [OF this], of L d ruleDirectionEgress wi] ve
    have "ve \<noteq> None" by simp
    with run [OF None] show ?thesis by (cases vi) auto
  qed
  have c3: "fst (validateConfig L w d config) = Some (Errorf ''Duplicate of ingress rule %d'' [N k])"
    if ff: "faults w = []" and cm: "validateConfigMap L (Config config) None = None"
      and fd: "firstDuplicate ?ing k"
      and ok: "\<forall>i \<le> k. fst (validateRule L w d ruleDirectionIngress (?ing ! i)) = None"
  proof -
    from firstDuplicate_loop [OF fd]
    have "k < length ?ing" "\<forall>j < k. \<not> isDuplicate ?ing (0 + j) (?ing ! j)"
      "isDuplicate ?ing (0 + k) (?ing ! k)" by simp_all
    from validateRules_first_duplicate [OF ff this(1,2) ok this(3)] vi
    have "vi = Some (Errorf ''Duplicate of ingress rule %d'' [N k])" by simp
    with run [OF cm] show ?thesis by simp
  qed
  have c4: "fst (validateConfig L w d config) = Some (Wrapf e ''Invalid ingress rule %d'' [N k])"
    if ff: "faults w = []" and cm: "validateConfigMap L (Config config) None = None"
      and kl: "k < length ?ing" and ub: "uniqueBefore ?ing k"
      and ok: "\<forall>i < k. fst (validateRule L w d ruleDirectionIngress (?ing ! i)) = None"
      and bad: "fst (validateRule L w d ruleDirectionIngress (?ing ! k)) = Some e"
  proof -
    have "\<forall>j < k. fst (validateRule L w d ruleDirectionIngress (?ing ! j)) = None
            \<and> \<not> isDuplicate ?ing (0 + j) (?ing ! j)"
      using ok uniqueBefore_loop [OF ub] by simp
    from validateRules_first_invalid [OF ff kl this bad] vi
    have "vi = Some (Wrapf e ''Invalid ingress rule %d'' [N k])" by simp
    with run [OF cm] show ?thesis by simp
  qed
  have c5: "fst (validateConfig L w d config) = Some (Errorf ''Duplicate of egress rule %d'' [N k])"
    if ff: "faults w = []" and cm: "validateConfigMap L (Config config) None = None"
      and di: "distinct ?ing"
      and oki: "\<forall>r \<in> set ?ing. fst (validateRule L w d ruleDirectionIngress r) = None"
      and fd: "firstDuplicate ?egr k"
      and ok: "\<forall>i \<le> k. fst (validateRule L w d ruleDirectionEgress (?egr ! i)) = None"
  proof -
    from ingress_pass [OF ff di oki] have wi: "vi = None" "faults wi = []" "db_acls wi = db_acls w"
      by simp_all
    have same: "fst (validateRule L wi d direction x) = fst (validateRule L w d direction x)"
      for direction x
      by (rule validateRule_fst_cong) (simp_all add: wi nextOutcome_faultfree ff)
    from ok have ok': "\<forall>i \<le> k. fst (validateRule L wi d ruleDirectionEgress (?egr ! i)) = None"
      by (simp add: same)
    from firstDuplicate_loop [OF fd]
    have "k < length ?egr" "\<forall>j < k. \<not> isDuplicate ?egr (0 + j) (?egr ! j)"
      "isDuplicate ?egr (0 + k) (?egr ! k)" by simp_all
    from validateRules_first_duplicate [OF wi(2) this(1,2) ok' this(3)] ve
    have "ve = Some (Errorf ''Duplicate of egress rule %d'' [N k])" by simp
    with run [OF cm] wi show ?thesis by simp
  qed
  have c6: "fst (validateConfig L w d config) = Some (Wrapf e ''Invalid egress rule %d'' [N k])"
    if ff: "faults w = []" and cm: "validateConfigMap L (Config config) None = None"
      and di: "distinct ?ing"
      and oki: "\<forall>r \<in> set ?ing. fst (validateRule L w d ruleDirectionIngress r) = None"
      and kl: "k < length ?egr" and ub: "uniqueBefore ?egr k"
      and ok: "\<forall>i < k. fst (validateRule L w d ruleDirectionEgress (?egr ! i)) = None"
      and bad: "fst (validateRule L w d ruleDirectionEgress (?egr ! k)) = Some e"
  proof -
    from ingress_pass [OF ff di oki] have wi: "vi = None" "faults wi = []" "db_acls wi = db_acls w"
      by simp_all
    have same: "fst (validateRule L wi d direction x) = fst (validateRule L w d direction x)"
      for direction x
      by (rule validateRule_fst_cong) (simp_all add: wi nextOutcome_faultfree ff)
    have pre: "\<forall>j < k. fst (validateRule L wi d ruleDirectionEgress (?egr ! j)) = None
            \<and> \<not> isDuplicate ?egr (0 + j) (?egr ! j)"
      using ok uniqueBefore_loop [OF ub] by (simp add: same)
    from bad have bad': "fst (validateRule L wi d ruleDirectionEgress (?egr ! k)) = Some e"
      by (simp add: same)
    from validateRules_first_invalid [OF wi(2) kl pre bad'] ve
    have "ve = Some (Wrapf e ''Invalid egress rule %d'' [N k])" by simp
    with run [OF cm] wi show ?thesis by simp
  qed
  have c7: "fst (validateConfig L w d config) = None"
    if ff: "faults w = []" and cm: "validateConfigMap L (Config config) None = None"
      and di: "distinct ?ing"
      and oki: "\<forall>r \<in> set ?ing. fst (validateRule L w d ruleDirectionIngress r) = None"
      and de: "distinct ?egr"
      and oke: "\<forall>r \<in> set ?egr. fst (validateRule L w d ruleDirectionEgress r) = None"
  proof -
    from ingress_pass [OF ff di oki] have wi: "vi = None" "faults wi = []" "db_acls wi = db_acls w"
      by simp_all
    have same: "fst (validateRule L wi d direction x) = fst (validateRule L w d direction x)"
      for direction x
      by (rule validateRule_fst_cong) (simp_all add: wi nextOutcome_faultfree ff)
    have "\<forall>j < length ?egr. fst (validateRule L wi d ruleDirectionEgress (?egr ! j)) = None
            \<and> \<not> isDuplicate ?egr (0 + j) (?egr ! j)"
      using oke distinct_no_duplicate [OF de] by (simp add: same)
    from validateRules_all_pass [OF wi(2) this] ve have "ve = None" by simp
    with run [OF cm] wi show ?thesis by simp
  qed
  have c8: "fst (snd (validateConfig L w d config)) = normaliseRules L config"
    if "validateConfigMap L (Config config) None = None"
    using that vi ve by (simp add: validateConfig_eq split: option.splits)
  from c1 c2 c3 c4 c5 c6 c7 c8 show ?thesis by blast
qed

theorem C6_witness:
  "fst (validateConfig go_lib ex_world ex_handle ex_config_dup)
     = Some (Errorf ''Duplicate of ingress rule %d'' [N 1])
   \<and> fst (validateConfig go_lib ex_world ex_handle ex_config_invalid_first)
     = Some (Wrapf (Errorf ''Destination port cannot be used without specifying protocol'' [])
               ''Invalid ingress rule %d'' [N 0])
   \<and> fst (validateConfig go_lib ex_world ex_handle ex_config_egress_dup)
     = Some (Errorf ''Duplicate of egress rule %d'' [N 0])
   \<and> fst (validateConfig go_lib ex_world ex_handle ex_config_cross) = None
   \<and> fst (snd (validateConfig go_lib ex_world ex_handle ex_config_dup))
     = ex_config_dup\<lparr>Ingress := Some [ex_rule, ex_rule_pair, ex_rule_pair]\<rparr>"
proof -
  let ?port = "Errorf ''Destination port cannot be used without specifying protocol'' []"
  note dup = C6_duplicates_rejected
    [where L = go_lib and config = ex_config_dup and w = ex_world and d = ex_handle and k = 1
       and e = ?port]
  note inv = C6_duplicates_rejected
    [where L = go_lib and config = ex_config_invalid_first and w = ex_world and d = ex_handle
       and k = 0 and e = ?port]
  note egr = C6_duplicates_rejected
    [where L = go_lib and config = ex_config_egress_dup and w = ex_world and d = ex_handle
       and k = 0 and e = ?port]
  note cross = C6_duplicates_rejected
    [where L = go_lib and config = ex_config_cross and w = ex_world and d = ex_handle and k = 0
       and e = ?port]
  have fd1: "firstDuplicate (ingressRules go_lib ex_config_dup) 1"
    using ex_rule_pair_differs
    by (auto simp: firstDuplicate_def ex_config_rules nth_Cons split: nat.splits)
  have ok1: "\<forall>i \<le> 1. fst (validateRule go_lib ex_world ex_handle ruleDirectionIngress
                           (ingressRules go_lib ex_config_dup ! i)) = None"
    by (auto simp: ex_config_rules ex_rule_passes ex_rule_pair_passes le_Suc_eq)
  have one: "fst (validateConfig go_lib ex_world ex_handle ex_config_dup)
     = Some (Errorf ''Duplicate of ingress rule %d'' [N 1])"
    using dup [THEN conjunct2, THEN conjunct2, THEN conjunct1]
      ex_world_faults ex_config_maps(1) fd1 ok1 by simp
  have kl: "0 < length (ingressRules go_lib ex_config_invalid_first)"
    by (simp add: ex_config_rules)
  have ub: "uniqueBefore (ingressRules go_lib ex_config_invalid_first) 0"
    by (simp add: uniqueBefore_def)
  have bad: "fst (validateRule go_lib ex_world ex_handle ruleDirectionIngress
                    (ingressRules go_lib ex_config_invalid_first ! 0)) = Some ?port"
    by (simp add: ex_config_rules ex_rule_port_run)
  have two: "fst (validateConfig go_lib ex_world ex_handle ex_config_invalid_first)
     = Some (Wrapf ?port ''Invalid ingress rule %d'' [N 0])"
    using inv [THEN conjunct2, THEN conjunct2, THEN conjunct2, THEN conjunct1]
      ex_world_faults ex_config_maps(5) kl ub bad by simp
  have fd2: "firstDuplicate (egressRules go_lib ex_config_egress_dup) 0"
    by (auto simp: firstDuplicate_def ex_config_rules)
  have ok2: "\<forall>i \<le> 0. fst (validateRule go_lib ex_world ex_handle ruleDirectionEgress
                           (egressRules go_lib ex_config_egress_dup ! i)) = None"
    by (simp add: ex_config_rules ex_rule_passes)
  have di: "distinct (ingressRules go_lib ex_config_egress_dup)"
    "distinct (ingressRules go_lib ex_config_cross)" "distinct (egressRules go_lib ex_config_cross)"
    by (simp_all add: ex_config_rules)
  have oki: "\<forall>r \<in> set (ingressRules go_lib ex_config_egress_dup).
               fst (validateRule go_lib ex_world ex_handle ruleDirectionIngress r) = None"
    "\<forall>r \<in> set (ingressRules go_lib ex_config_cross).
               fst (validateRule go_lib ex_world ex_handle ruleDirectionIngress r) = None"
    "\<forall>r \<in> set (egressRules go_lib ex_config_cross).
               fst (validateRule go_lib ex_world ex_handle ruleDirectionEgress r) = None"
    by (simp_all add: ex_config_rules ex_rule_passes)
  have three: "fst (validateConfig go_lib ex_world ex_handle ex_config_egress_dup)
     = Some (Errorf ''Duplicate of egress rule %d'' [N 0])"
    using egr [THEN conjunct2, THEN conjunct2, THEN conjunct2, THEN conjunct2, THEN conjunct1]
      ex_world_faults ex_config_maps(3) di(1) oki(1) fd2 ok2 by simp
  have four: "fst (validateConfig go_lib ex_world ex_handle ex_config_cross) = None"
    using cross [THEN conjunct2, THEN conjunct2, THEN conjunct2, THEN conjunct2, THEN conjunct2,
                 THEN conjunct2, THEN conjunct1]
      ex_world_faults ex_config_maps(2) di(2,3) oki(2,3) by simp
  have n: "normaliseRules go_lib ex_config_dup
             = ex_config_dup\<lparr>Ingress := Some [ex_rule, ex_rule_pair, ex_rule_pair]\<rparr>"
    by (simp add: normaliseRules_def ex_config_dup_def ex_normalise)
  have five: "fst (snd (validateConfig go_lib ex_world ex_handle ex_config_dup))
     = ex_config_dup\<lparr>Ingress := Some [ex_rule, ex_rule_pair, ex_rule_pair]\<rparr>"
    using dup [THEN conjunct2, THEN conjunct2, THEN conjunct2, THEN conjunct2, THEN conjunct2,
               THEN conjunct2, THEN conjunct2]
      ex_config_maps(1) n by simp
  from one two three four five show ?thesis by simp
qed

text \<open>
  C2. When validation of the proposed configuration fails, Update returns the error of
  the validation, the handle is as it was, the store is as it was, and the only calls
  made to a collaborator are the lookups of ACL names that validating the rules makes:
  the store write and the SDN client are never called.
\<close>

theorem C2_validation_failure_no_side_effects:
  assumes "fst (validateConfig L w d config) = Some err"
  shows "fst (Update L w d config) = Some err
         \<and> snd (snd (Update L w d config)) = d
         \<and> lookupsOnly w (fst (snd (Update L w d config)))"
proof -
  obtain v c1 w1 where vc: "validateConfig L w d config = (v, c1, w1)"
    by (cases "validateConfig L w d config") auto
  with assms have v: "v = Some err" by simp
  from validateConfig_lookupsOnly [of w L d config] vc have "lookupsOnly w w1" by simp
  with vc v show ?thesis by (simp add: Update_def)
qed

theorem C2_witness:
  "fst (Update go_lib ex_world ex_handle ex_config_web)
     = Some (Wrapf (Wrapf (namedNotAllowed ''Destination'' ruleDirectionIngress) ''Invalid Destination'' [])
               ''Invalid ingress rule %d'' [N 0])
   \<and> snd (snd (Update go_lib ex_world ex_handle ex_config_web)) = ex_handle
   \<and> lookupsOnly ex_world (fst (snd (Update go_lib ex_world ex_handle ex_config_web)))"
proof -
  obtain v w1 where vr: "validateRule go_lib ex_world ex_handle ruleDirectionIngress ex_rule_web = (v, w1)"
    by (cases "validateRule go_lib ex_world ex_handle ruleDirectionIngress ex_rule_web")
  with ex_web_ingress
  have "v = Some (Wrapf (namedNotAllowed ''Destination'' ruleDirectionIngress) ''Invalid Destination'' [])"
    by simp
  with vr have "fst (validateConfig go_lib ex_world ex_handle ex_config_web)
     = Some (Wrapf (Wrapf (namedNotAllowed ''Destination'' ruleDirectionIngress) ''Invalid Destination'' [])
               ''Invalid ingress rule %d'' [N 0])"
    by (simp add: validateConfig_eq ex_config_maps ex_config_rules)
  from C2_validation_failure_no_side_effects [OF this] show ?thesis .
qed

subsection \<open>Rename and Delete\<close>

lemma acl_UsedBy_eq:
  "acl_UsedBy w p f acc n =
     (case nextOutcome w of
        Some err \<Rightarrow> (Some err, acc)
      | None \<Rightarrow> visitUsages f (map (\<lambda>(p, n, u). u) (filter (\<lambda>(p', n', u). p' = p \<and> n' = n) (db_usage w))) acc,
      advance (Call_UsedBy p n) w)"
  by (simp add: acl_UsedBy_def collab_def split: option.splits)

lemma usedBy_snd:
  "snd (usedBy L w d firstOnly) = advance (Call_UsedBy (projectName d) (Name (info d))) w"
  by (simp add: usedBy_def acl_UsedBy_eq Info_def split: option.splits prod.splits)

lemma isUsed_snd:
  "snd (isUsed L w d) = advance (Call_UsedBy (projectName d) (Name (info d))) w"
  using usedBy_snd [of L w d True]
  by (auto simp: isUsed_def split: prod.splits sum.splits)

lemma LoadByName_snd:
  "snd (LoadByName L w p n) = advance (Call_LoadByName p n) w"
  by (simp add: LoadByName_def collab_def split: option.splits prod.splits)

lemma visitUsages_first:
  assumes "visitUsages (usageFunc L d False) us [] = (None, uris)" and "uris \<noteq> []"
  shows "\<exists>u rest uri. us = u # rest \<and> usageURI L d u = Inr uri"
proof (cases us)
  case Nil
  with assms show ?thesis by simp
next
  case (Cons u rest)
  with assms show ?thesis
    by (cases "usageURI L d u") (auto simp: usageFunc_def)
qed

lemma usedBy_nonempty_isUsed:
  assumes "fst (common_UsedBy L w d) = Inr uris" and "uris \<noteq> []"
  shows "fst (isUsed L w d) = Inr True"
proof -
  let ?us = "map (\<lambda>(p, n, u). u)
      (filter (\<lambda>(p', n', u). p' = projectName d \<and> n' = Name (Info d)) (db_usage w))"
  show ?thesis
  proof (cases "nextOutcome w")
    case (Some e)
    with assms show ?thesis
      by (auto simp: common_UsedBy_def usedBy_def acl_UsedBy_eq split: if_splits)
  next
    case None
    obtain v acc where vis: "visitUsages (usageFunc L d False) ?us [] = (v, acc)"
      by (cases "visitUsages (usageFunc L d False) ?us []")
    have nostop: "v \<noteq> Some ErrInstanceListStop"
    proof
      assume stop: "v = Some ErrInstanceListStop"
      have "fst (visitUsages (usageFunc L d False) xs a) \<noteq> Some ErrInstanceListStop" for xs a
      proof (induction xs arbitrary: a)
        case Nil
        then show ?case by simp
      next
        case (Cons x xs)
        then show ?case
          by (cases "usageURI L d x") (auto simp: usageFunc_def usageURI_def split: usageType.splits)
      qed
      with vis stop show False by (metis fst_conv)
    qed
    from assms None vis nostop have "v = None" "acc = uris"
      by (auto simp: common_UsedBy_def usedBy_def acl_UsedBy_eq split: option.splits if_splits)
    with vis visitUsages_first [of L d ?us uris] assms(2)
    obtain u rest uri where "?us = u # rest" "usageURI L d u = Inr uri" by auto
    with None show ?thesis
      by (simp add: isUsed_def usedBy_def acl_UsedBy_eq usageFunc_def)
  qed
qed

text \<open>
  C7. When the usage check reports the ACL as in use, Delete fails with the in-use
  error, and so does Rename when no ACL of the target name was found. The store is as
  it was, the handle keeps its name, and the only calls made to a collaborator are the
  lookup of the target name (for Rename) and the usage enumeration: the store's rename
  and delete are never called. The usage check reports an ACL as in use whenever UsedBy
  would return a list of referrers that is not empty.
\<close>

theorem C7_in_use_blocks_rename_and_delete:
  "(LoadByName L w (projectName d) newName = (Inl notFound, w1) \<and> isUsed L w1 d = (Inr True, w2)
      \<longrightarrow> Rename L w d newName = (Some (Errorf ''Cannot rename an ACL that is in use'' []), w2, d)
          \<and> db_acls w2 = db_acls w
          \<and> journal w2 = journal w @ [Call_LoadByName (projectName d) newName,
                                       Call_UsedBy (projectName d) (Name (info d))])
   \<and> (isUsed L w d = (Inr True, w3)
      \<longrightarrow> Delete L w d = (Some (Errorf ''Cannot delete an ACL that is in use'' []), w3)
          \<and> db_acls w3 = db_acls w
          \<and> journal w3 = journal w @ [Call_UsedBy (projectName d) (Name (info d))])
   \<and> (fst (common_UsedBy L w d) = Inr uris \<and> uris \<noteq> [] \<longrightarrow> fst (isUsed L w d) = Inr True)"
proof -
  have r: "Rename L w d newName = (Some (Errorf ''Cannot rename an ACL that is in use'' []), w2, d)
          \<and> db_acls w2 = db_acls w
          \<and> journal w2 = journal w @ [Call_LoadByName (projectName d) newName,
                                       Call_UsedBy (projectName d) (Name (info d))]"
    if load: "LoadByName L w (projectName d) newName = (Inl notFound, w1)"
      and used: "isUsed L w1 d = (Inr True, w2)"
  proof -
    from LoadByName_snd [of L w "projectName d" newName] load
    have w1: "w1 = advance (Call_LoadByName (projectName d) newName) w" by simp
    from isUsed_snd [of L w1 d] used
    have w2: "w2 = advance (Call_UsedBy (projectName d) (Name (info d))) w1" by simp
    from load used have "Rename L w d newName
        = (Some (Errorf ''Cannot rename an ACL that is in use'' []), w2, d)"
      by (simp add: Rename_def)
    with w1 w2 show ?thesis by simp
  qed
  have dl: "Delete L w d = (Some (Errorf ''Cannot delete an ACL that is in use'' []), w3)
          \<and> db_acls w3 = db_acls w
          \<and> journal w3 = journal w @ [Call_UsedBy (projectName d) (Name (info d))]"
    if used: "isUsed L w d = (Inr True, w3)"
  proof -
    from isUsed_snd [of L w d] used
    have w3: "w3 = advance (Call_UsedBy (projectName d) (Name (info d))) w" by simp
    from used have "Delete L w d = (Some (Errorf ''Cannot delete an ACL that is in use'' []), w3)"
      by (simp add: Delete_def)
    with w3 show ?thesis by simp
  qed
  from r dl usedBy_nonempty_isUsed [of L w d uris] show ?thesis by blast
qed

lemma ex_used_isUsed:
  "nextOutcome w = None \<Longrightarrow> db_usage w = [(''default'', ''web'', Network ''lxdbr0'')] \<Longrightarrow>
   isUsed go_lib w ex_handle = (Inr True, advance (Call_UsedBy ''default'' ''web'') w)"
  by (simp add: isUsed_def usedBy_def acl_UsedBy_eq Info_def ex_handle_def usageFunc_def
      usageURI_def)

lemma ex_used_load:
  "LoadByName go_lib ex_world_used ''default'' ''web2''
     = (Inl (Errorf ''Network ACL not found'' []), advance (Call_LoadByName ''default'' ''web2'') ex_world_used)"
  by (simp add: LoadByName_def collab_def nextOutcome_def ex_world_used_def ex_world_def)

theorem C7_witness:
  "Rename go_lib ex_world_used ex_handle ''web2''
     = (Some (Errorf ''Cannot rename an ACL that is in use'' []),
        advance (Call_UsedBy ''default'' ''web'') (advance (Call_LoadByName ''default'' ''web2'') ex_world_used),
        ex_handle)
   \<and> Delete go_lib ex_world_used ex_handle
     = (Some (Errorf ''Cannot delete an ACL that is in use'' []),
        advance (Call_UsedBy ''default'' ''web'') ex_world_used)
   \<and> db_acls (advance (Call_UsedBy ''default'' ''web'') ex_world_used) = db_acls ex_world_used
   \<and> journal (advance (Call_UsedBy ''default'' ''web'')
        (advance (Call_LoadByName ''default'' ''web2'') ex_world_used))
     = [Call_LoadByName ''default'' ''web2'', Call_UsedBy ''default'' ''web'']
   \<and> fst (common_UsedBy go_lib ex_world_used ex_handle) = Inr [''/1.0/networks/lxdbr0'']
   \<and> fst (isUsed go_lib ex_world_used ex_handle) = Inr True"
proof -
  let ?w1 = "advance (Call_LoadByName ''default'' ''web2'') ex_world_used"
  have p: "projectName ex_handle = ''default''" "Name (info ex_handle) = ''web''"
    by (simp_all add: ex_handle_def)
  have load: "LoadByName go_lib ex_world_used (projectName ex_handle) ''web2''
     = (Inl (Errorf ''Network ACL not found'' []), ?w1)"
    by (simp add: p ex_used_load)
  have used1: "isUsed go_lib ?w1 ex_handle = (Inr True, advance (Call_UsedBy ''default'' ''web'') ?w1)"
    by (rule ex_used_isUsed) (simp_all add: nextOutcome_def ex_world_used_def ex_world_def)
  have used: "isUsed go_lib ex_world_used ex_handle
                = (Inr True, advance (Call_UsedBy ''default'' ''web'') ex_world_used)"
    by (rule ex_used_isUsed) (simp_all add: nextOutcome_def ex_world_used_def ex_world_def)
  have uris: "fst (common_UsedBy go_lib ex_world_used ex_handle) = Inr [''/1.0/networks/lxdbr0'']"
    by (simp add: common_UsedBy_def usedBy_def acl_UsedBy_eq Info_def ex_handle_def usageFunc_def
        usageURI_def nextOutcome_def ex_world_used_def ex_world_def go_lib_def)
  have j: "journal ex_world_used = []"
    by (simp add: ex_world_used_def ex_world_def)
  from C7_in_use_blocks_rename_and_delete
    [of go_lib ex_world_used ex_handle "''web2''" "Errorf ''Network ACL not found'' []" ?w1
      "advance (Call_UsedBy ''default'' ''web'') ?w1"
      "advance (Call_UsedBy ''default'' ''web'') ex_world_used" "[''/1.0/networks/lxdbr0'']"]
    load used1 used uris p j
  show ?thesis by simp
qed

subsection \<open>Update\<close>

lemma UpdateNetworkACL_eq:
  "UpdateNetworkACL w i config =
     (nextOutcome w,
      if nextOutcome w = None
      then (advance (Call_UpdateNetworkACL i config) w)\<lparr>db_acls := writePut i config (db_acls w)\<rparr>
      else advance (Call_UpdateNetworkACL i config) w)"
  by (simp add: UpdateNetworkACL_def collab_def split: option.splits)

lemma NetworkUsage_eq:
  "NetworkUsage w p names =
     (case nextOutcome w of
        Some err \<Rightarrow> Inl err
      | None \<Rightarrow> Inr (map (\<lambda>(p, n, u). (NetName u, u))
                     (filter (\<lambda>(p', n, u). p' = p \<and> n \<in> set names) (db_networks w))),
      advance (Call_NetworkUsage p names) w)"
  by (simp add: NetworkUsage_def collab_def split: option.splits)

lemma NewOVN_eq: "NewOVN w = (nextOutcome w, advance Call_NewOVN w)"
  by (simp add: NewOVN_def collab_def)

lemma OVNEnsureACLs_eq:
  "OVNEnsureACLs w p ids nets names reapply =
     (case nextOutcome w of Some err \<Rightarrow> Inl err | None \<Rightarrow> Inr OVNRevert,
      advance (Call_OVNEnsureACLs p ids nets names reapply) w)"
  by (simp add: OVNEnsureACLs_def collab_def split: option.splits)

lemma OVNPortGroupDeleteIfUnused_eq:
  "OVNPortGroupDeleteIfUnused w p n = (nextOutcome w, advance (Call_OVNPortGroupDeleteIfUnused p n) w)"
  by (simp add: OVNPortGroupDeleteIfUnused_def collab_def)

lemmas collab_eqs =
  UpdateNetworkACL_eq NetworkUsage_eq NewOVN_eq GetNetworkACLIDsByNames_eq OVNEnsureACLs_eq
  OVNPortGroupDeleteIfUnused_eq

lemma nextOutcome_db_acls [simp]: "nextOutcome (w\<lparr>db_acls := x\<rparr>) = nextOutcome w"
  by (simp add: nextOutcome_def)

lemma nextOutcome_OVNRevert [simp]: "nextOutcome (OVNRevert w) = nextOutcome w"
  by (simp add: nextOutcome_def OVNRevert_def)

lemma OVNRevert_fields [simp]:
  "db_acls (OVNRevert w) = db_acls w" "journal (OVNRevert w) = journal w @ [Call_OVNRevert]"
  by (simp_all add: OVNRevert_def)

lemma init_fields [simp]:
  "id_acl (init L d i p x) = i" "projectName (init L d i p x) = p"
  "Name (info (init L d i p (Some y))) = Name y"
  by (simp_all add: init_def Let_def)

lemma init_notNil: "collectionsNotNil (init L d i p x)"
  by (simp add: collectionsNotNil_def init_def Let_def)

lemma init_twice:
  "init L (init L d i p x) i p (Some ((info (init L d i p x))\<lparr>Put := old\<rparr>))
     = init L d i p (Some ((case x of None \<Rightarrow> emptyNetworkACL | Some y \<Rightarrow> y)\<lparr>Put := old\<rparr>))"
  by (simp add: init_def Let_def)

lemma init_initialised:
  "\<forall>r. Normalise L (Normalise L r) = Normalise L r \<Longrightarrow> initialised L (init L d i p x)"
  by (simp add: initialised_def init_def Let_def)

lemma restoreConfig_eq:
  "restoreConfig L old (w, d) =
     (snd (UpdateNetworkACL w (id_acl d) old),
      init L d (id_acl d) (projectName d) (Some ((info d)\<lparr>Put := old\<rparr>)))"
  by (simp add: restoreConfig_def split: prod.splits)

lemma Update_steps_write_fails:
  "nextOutcome w = Some e \<Longrightarrow>
   Update_steps L w d config = (Some e, [], advance (Call_UpdateNetworkACL (id_acl d) config) w, d)"
  by (simp add: Update_steps_def UpdateNetworkACL_eq Let_def revert_New_def)

lemma Update_steps_shape:
  assumes "nextOutcome w = None" and "Update_steps L w d config = (err, plan, w3, d3)"
  shows "d3 = init L d (id_acl d) (projectName d) (Some ((info d)\<lparr>Put := config\<rparr>))
         \<and> db_acls w3 = writePut (id_acl d) config (db_acls w)
         \<and> (err = None \<longrightarrow> plan = [])
         \<and> (err \<noteq> None \<longrightarrow> plan = [restoreConfig L (Put (info d))]
                             \<or> plan = [restoreConfig L (Put (info d)), onWorld OVNRevert])"
  using assms
  by (auto simp: Update_steps_def collab_eqs Let_def revert_New_def revert_Add_def
      revert_Success_def split: option.splits if_splits)

lemma revert_Fail_plans:
  "revert_Fail [] s = s"
  "revert_Fail [f] s = f s"
  "revert_Fail [f, g] s = f (g s)"
  by (simp_all add: revert_Fail_def)

lemma Update_handle:
  "snd (snd (Update L w d config)) = d \<or> (\<exists>d' i p x. snd (snd (Update L w d config)) = init L d' i p x)"
proof -
  obtain v c1 w1 where vc: "validateConfig L w d config = (v, c1, w1)"
    by (cases "validateConfig L w d config") auto
  show ?thesis
  proof (cases v)
    case (Some e)
    with vc show ?thesis by (simp add: Update_def)
  next
    case None
    obtain err plan w3 d3 where us: "Update_steps L w1 d c1 = (err, plan, w3, d3)"
      by (cases "Update_steps L w1 d c1") auto
    show ?thesis
    proof (cases "nextOutcome w1")
      case (Some e)
      from Update_steps_write_fails [OF Some, of L d c1] vc None show ?thesis
        by (simp add: Update_def revert_Fail_plans)
    next
      case no: None
      from Update_steps_shape [OF no us]
      have d3: "d3 = init L d (id_acl d) (projectName d) (Some ((info d)\<lparr>Put := c1\<rparr>))"
        and plans: "plan = [] \<or> plan = [restoreConfig L (Put (info d))]
                     \<or> plan = [restoreConfig L (Put (info d)), onWorld OVNRevert]"
        by auto
      have r: "snd (restoreConfig L old (w', d3))
                 = init L d3 (id_acl d3) (projectName d3) (Some ((info d3)\<lparr>Put := old\<rparr>))" for old w'
        by (simp add: restoreConfig_eq)
      from plans have "snd (revert_Fail plan (w3, d3)) = d3
          \<or> (\<exists>d' i p x. snd (revert_Fail plan (w3, d3)) = init L d' i p x)"
      proof (elim disjE)
        assume "plan = []"
        then show ?thesis by (simp add: revert_Fail_plans)
      next
        assume "plan = [restoreConfig L (Put (info d))]"
        then have "snd (revert_Fail plan (w3, d3))
            = init L d3 (id_acl d3) (projectName d3) (Some ((info d3)\<lparr>Put := Put (info d)\<rparr>))"
          by (simp add: revert_Fail_plans r)
        then show ?thesis by blast
      next
        assume "plan = [restoreConfig L (Put (info d)), onWorld OVNRevert]"
        then have "snd (revert_Fail plan (w3, d3))
            = init L d3 (id_acl d3) (projectName d3) (Some ((info d3)\<lparr>Put := Put (info d)\<rparr>))"
          by (simp add: revert_Fail_plans onWorld_def r)
        then show ?thesis by blast
      qed
      with d3 vc None us show ?thesis
        by (auto simp: Update_def split: prod.splits)
    qed
  qed
qed

text \<open>
  C9. After init the ingress sequence, the egress sequence and the config map of the
  handle are never nil, whatever info was passed: a nil info gives three empty
  collections, and a nil sequence or map in the info becomes an empty one. Update keeps
  this on every path: the handle it leaves is the one it was given or one that init
  made. On such a handle Info returns the same collections and the Etag values are not
  nil.
\<close>

theorem C9_collections_never_nil:
  "collectionsNotNil (init L d0 i project info0)
   \<and> Put (info (init L d0 i project None))
       = \<lparr>Description = [], Ingress = Some [], Egress = Some [], Config = Some []\<rparr>
   \<and> (Ingress (Put x) = None \<longrightarrow> Ingress (Put (info (init L d0 i project (Some x)))) = Some [])
   \<and> (Egress (Put x) = None \<longrightarrow> Egress (Put (info (init L d0 i project (Some x)))) = Some [])
   \<and> (Config (Put x) = None \<longrightarrow> Config (Put (info (init L d0 i project (Some x)))) = Some [])
   \<and> (collectionsNotNil d \<longrightarrow> collectionsNotNil (snd (snd (Update L w d config))))
   \<and> (collectionsNotNil d
      \<longrightarrow> Put (Info d) = Put (info d)
          \<and> (case Etag d of (name, description, ingress, egress, config) \<Rightarrow>
                ingress \<noteq> None \<and> egress \<noteq> None \<and> config \<noteq> None))"
proof -
  have a: "collectionsNotNil (init L d0 i project info0)" by (rule init_notNil)
  have b: "Put (info (init L d0 i project None))
       = \<lparr>Description = [], Ingress = Some [], Egress = Some [], Config = Some []\<rparr>"
    by (simp add: init_def Let_def emptyNetworkACL_def)
  have c: "Ingress (Put (info (init L d0 i project (Some x)))) = Some []" if "Ingress (Put x) = None"
    using that by (simp add: init_def Let_def)
  have e: "Egress (Put (info (init L d0 i project (Some x)))) = Some []" if "Egress (Put x) = None"
    using that by (simp add: init_def Let_def)
  have f: "Config (Put (info (init L d0 i project (Some x)))) = Some []" if "Config (Put x) = None"
    using that by (simp add: init_def Let_def)
  have g: "collectionsNotNil (snd (snd (Update L w d config)))" if "collectionsNotNil d"
    using Update_handle [of L w d config] that by (auto simp: init_notNil)
  have h: "Put (Info d) = Put (info d)
          \<and> (case Etag d of (name, description, ingress, egress, config) \<Rightarrow>
                ingress \<noteq> None \<and> egress \<noteq> None \<and> config \<noteq> None)" if "collectionsNotNil d"
    using that by (auto simp: collectionsNotNil_def Info_def Etag_def)
  from a b c e f g h show ?thesis by blast
qed

theorem C9_witness:
  "Ingress (Put (info (init go_lib ex_handle 1 ''default''
       (Some \<lparr>Name = ''web'', Put = ex_config_user, UsedBy = None\<rparr>)))) = Some []
   \<and> Egress (Put (info (init go_lib ex_handle 1 ''default''
       (Some \<lparr>Name = ''web'', Put = ex_config_user, UsedBy = None\<rparr>)))) = Some []
   \<and> Config (Put (info (init go_lib ex_handle 1 ''default''
       (Some \<lparr>Name = ''web'', Put = ex_put\<lparr>Config := None\<rparr>, UsedBy = None\<rparr>)))) = Some []
   \<and> collectionsNotNil ex_handle
   \<and> collectionsNotNil (snd (snd (Update go_lib ex_world ex_handle ex_config_user)))
   \<and> Put (Info ex_handle) = Put (info ex_handle)"
proof -
  have n: "collectionsNotNil ex_handle"
    by (simp add: collectionsNotNil_def ex_handle_def ex_put_def)
  from n C9_collections_never_nil
      [of go_lib ex_handle 1 "''default''" None "\<lparr>Name = ''web'', Put = ex_config_user, UsedBy = None\<rparr>"
        ex_handle ex_world ex_config_user]
    C9_collections_never_nil
      [of go_lib ex_handle 1 "''default''" None
        "\<lparr>Name = ''web'', Put = ex_put\<lparr>Config := None\<rparr>, UsedBy = None\<rparr>"
        ex_handle ex_world ex_config_user]
  show ?thesis by (simp add: ex_config_user_def ex_put_def)
qed

lemma writePut_twice: "writePut i a (writePut i b rows) = writePut i a rows"
  by (induction rows) (auto simp: writePut_def)

lemma writePut_inSync:
  "list_all (\<lambda>(j, r). j \<noteq> i \<or> rowPut r = old) rows \<Longrightarrow> writePut i old rows = rows"
  by (induction rows) (auto simp: writePut_def)

lemma restoreConfig_world:
  "journal (fst (restoreConfig L old (w, d))) = journal w @ [Call_UpdateNetworkACL (id_acl d) old]"
  "nextOutcome w = None \<Longrightarrow>
     db_acls (fst (restoreConfig L old (w, d))) = writePut (id_acl d) old (db_acls w)"
  by (simp_all add: restoreConfig_eq UpdateNetworkACL_eq)

lemma ex_validate_user:
  "validateConfig go_lib w ex_handle ex_config_user = (None, ex_config_user, w)"
proof -
  have "validateConfigMap go_lib (Config ex_config_user) None = None"
    by (simp add: validateConfigMap_nil ex_config_user_def go_lib_def go_IsUserConfig_def)
  moreover have "normaliseRules go_lib ex_config_user = ex_config_user"
    by (simp add: normaliseRules_def ex_config_user_def)
  moreover have "ingressRules go_lib ex_config_user = []" "egressRules go_lib ex_config_user = []"
    by (simp_all add: ingressRules_def egressRules_def rulesOf_def ex_config_user_def)
  ultimately show ?thesis by (simp add: validateConfig_eq)
qed

lemmas steps_eval =
  Update_steps_def collab_eqs Let_def revert_New_def revert_Add_def
  revert_Success_def revert_Fail_plans restoreConfig_eq onWorld_def nextOutcome_def
  ex_world_def ex_handle_def Project_def

text \<open>
  C1, as stated: the claim fails. The store write succeeds, the query of the network
  usage fails, and the write that should restore the store fails too (its outcome is
  not looked at): Update returns the error of the usage query, and the store holds the
  new configuration, not the one it held before the call.
\<close>

theorem C1_counterexample:
  "fst (Update go_lib ex_world_faulty ex_handle ex_config_user)
     = Some (Wrapf (Failure ''usage query failed'') ''Failed getting ACL network usage'' [])
   \<and> db_acls ex_world_faulty
     = [(1, \<lparr>rowProject = ''default'', rowName = ''web'', rowPut = ex_put\<rparr>)]
   \<and> db_acls (fst (snd (Update go_lib ex_world_faulty ex_handle ex_config_user)))
     = [(1, \<lparr>rowProject = ''default'', rowName = ''web'', rowPut = ex_config_user\<rparr>)]
   \<and> journal (fst (snd (Update go_lib ex_world_faulty ex_handle ex_config_user)))
     = [Call_UpdateNetworkACL 1 ex_config_user, Call_NetworkUsage ''default'' [''web''],
        Call_UpdateNetworkACL 1 ex_put]
   \<and> ex_config_user \<noteq> ex_put"
proof -
  have steps: "Update_steps go_lib ex_world_faulty ex_handle ex_config_user
    = (Some (Wrapf (Failure ''usage query failed'') ''Failed getting ACL network usage'' []),
       [restoreConfig go_lib ex_put],
       (advance (Call_NetworkUsage ''default'' [''web''])
          (advance (Call_UpdateNetworkACL 1 ex_config_user) ex_world_faulty))
         \<lparr>db_acls := [(1, \<lparr>rowProject = ''default'', rowName = ''web'', rowPut = ex_config_user\<rparr>)]\<rparr>,
       init go_lib ex_handle 1 ''default'' (Some ((info ex_handle)\<lparr>Put := ex_config_user\<rparr>)))"
    by (simp add: steps_eval ex_world_faulty_def writePut_def advance_def)
  have "ex_config_user \<noteq> ex_put"
    by (simp add: ex_config_user_def ex_put_def)
  moreover have "db_acls ex_world_faulty
     = [(1, \<lparr>rowProject = ''default'', rowName = ''web'', rowPut = ex_put\<rparr>)]"
    by (simp add: ex_world_faulty_def ex_world_def)
  ultimately show ?thesis
    by (simp add: Update_def ex_validate_user steps revert_Fail_plans restoreConfig_eq
        UpdateNetworkACL_eq)
       (simp add: nextOutcome_def ex_world_faulty_def ex_world_def advance_def)
qed

text \<open>
  C1, amended. When Update fails after the store write has succeeded, it returns the
  error of the step that failed, and the reversal plan (the restore of the old
  configuration, and after it the reverter of the SDN synchronisation when that step
  had succeeded) is run in reverse order: the SDN reverter first, the store restore
  last. The store restore writes the configuration the handle held before the call;
  when that write succeeds, the store holds it for the ACL, so the store is as before
  the call when it agreed with the handle. A handle that was as init leaves it (init
  leaves every handle so when normalising a rule twice is normalising it once) is as
  before the call.
\<close>

theorem C1_rollback_restores_old_configuration:
  assumes valid: "validateConfig L w d config = (None, config1, w1)"
    and stored: "nextOutcome w1 = None"
    and fails: "Update_steps L w1 d config1 = (Some err, plan, w3, d3)"
  shows
    "fst (Update L w d config) = Some err
     \<and> (plan = [restoreConfig L (Put (info d))]
        \<or> plan = [restoreConfig L (Put (info d)), onWorld OVNRevert])
     \<and> snd (Update L w d config) = revert_Fail plan (w3, d3)
     \<and> journal (fst (snd (Update L w d config)))
        = journal w3 @ (if length plan = 2 then [Call_OVNRevert] else [])
          @ [Call_UpdateNetworkACL (id_acl d) (Put (info d))]
     \<and> (nextOutcome w3 = None
        \<longrightarrow> db_acls (fst (snd (Update L w d config)))
            = writePut (id_acl d) (Put (info d)) (db_acls w))
     \<and> (nextOutcome w3 = None \<and> inSync w d
        \<longrightarrow> db_acls (fst (snd (Update L w d config))) = db_acls w)
     \<and> (initialised L d \<longrightarrow> snd (snd (Update L w d config)) = d)"
proof -
  let ?old = "Put (info d)" and ?i = "id_acl d"
  from Update_steps_shape [OF stored fails]
  have d3: "d3 = init L d ?i (projectName d) (Some ((info d)\<lparr>Put := config1\<rparr>))"
    and db3: "db_acls w3 = writePut ?i config1 (db_acls w1)"
    and plans: "plan = [restoreConfig L ?old] \<or> plan = [restoreConfig L ?old, onWorld OVNRevert]"
    by auto
  from validateConfig_lookupsOnly [of w L d config] valid have db1: "db_acls w1 = db_acls w"
    by (simp add: lookupsOnly_def)
  have upd: "Update L w d config = (Some err, revert_Fail plan (w3, d3))"
    using valid fails by (simp add: Update_def split: prod.splits)
  define w4 where "w4 = (if length plan = 2 then OVNRevert w3 else w3)"
  from plans have run: "revert_Fail plan (w3, d3) = restoreConfig L ?old (w4, d3)"
    by (auto simp: revert_Fail_plans onWorld_def w4_def)
  have id3: "id_acl d3 = ?i" "projectName d3 = projectName d" by (simp_all add: d3)
  have j: "journal (fst (snd (Update L w d config)))
        = journal w3 @ (if length plan = 2 then [Call_OVNRevert] else [])
          @ [Call_UpdateNetworkACL ?i ?old]"
    by (simp add: upd run restoreConfig_world id3 w4_def)
  have next4: "nextOutcome w4 = nextOutcome w3" by (simp add: w4_def)
  have db4: "db_acls w4 = db_acls w3" by (simp add: w4_def)
  have store: "db_acls (fst (snd (Update L w d config))) = writePut ?i ?old (db_acls w)"
    if "nextOutcome w3 = None"
    using that by (simp add: upd run restoreConfig_world next4 db4 db3 db1 id3 writePut_twice)
  have sync: "db_acls (fst (snd (Update L w d config))) = db_acls w"
    if "nextOutcome w3 = None \<and> inSync w d"
    using that store writePut_inSync [of ?i ?old "db_acls w"] by (simp add: inSync_def)
  have handle: "snd (snd (Update L w d config)) = d" if "initialised L d"
  proof -
    have "snd (snd (Update L w d config))
            = init L d3 ?i (projectName d) (Some ((info d3)\<lparr>Put := ?old\<rparr>))"
      by (simp add: upd run restoreConfig_eq id3)
    also have "\<dots> = init L d ?i (projectName d) (Some (info d))"
      unfolding d3 by (simp add: init_twice)
    also have "\<dots> = d" using that by (simp add: initialised_def)
    finally show ?thesis .
  qed
  from upd plans j store sync handle show ?thesis by simp
qed

lemma ex_ovn_steps:
  "fst (Update_steps go_lib ex_world_ovn ex_handle ex_config_user)
     = Some (Wrapf (Failure ''ovn unreachable'') ''Failed removing unused OVN port groups'' [])"
  "length (fst (snd (Update_steps go_lib ex_world_ovn ex_handle ex_config_user))) = 2"
  "faults (fst (snd (snd (Update_steps go_lib ex_world_ovn ex_handle ex_config_user)))) = []"
  "journal (fst (snd (snd (Update_steps go_lib ex_world_ovn ex_handle ex_config_user))))
     = [Call_UpdateNetworkACL 1 ex_config_user, Call_NetworkUsage ''default'' [''web''], Call_NewOVN,
        Call_GetNetworkACLIDsByNames ''default'',
        Call_OVNEnsureACLs ''default'' [(''web'', 1)] [(''ovn1'', \<lparr>NetName = ''ovn1'', Type = ''ovn''\<rparr>)]
          [''web''] True,
        Call_OVNPortGroupDeleteIfUnused ''default'' ''web'']"
  by (simp_all add: steps_eval ex_world_ovn_def writePut_def)

theorem C1_witness:
  "fst (Update go_lib ex_world_ovn ex_handle ex_config_user)
     = Some (Wrapf (Failure ''ovn unreachable'') ''Failed removing unused OVN port groups'' [])
   \<and> journal (fst (snd (Update go_lib ex_world_ovn ex_handle ex_config_user)))
     = [Call_UpdateNetworkACL 1 ex_config_user, Call_NetworkUsage ''default'' [''web''], Call_NewOVN,
        Call_GetNetworkACLIDsByNames ''default'',
        Call_OVNEnsureACLs ''default'' [(''web'', 1)] [(''ovn1'', \<lparr>NetName = ''ovn1'', Type = ''ovn''\<rparr>)]
          [''web''] True,
        Call_OVNPortGroupDeleteIfUnused ''default'' ''web'',
        Call_OVNRevert, Call_UpdateNetworkACL 1 ex_put]
   \<and> db_acls (fst (snd (Update go_lib ex_world_ovn ex_handle ex_config_user))) = db_acls ex_world_ovn
   \<and> snd (snd (Update go_lib ex_world_ovn ex_handle ex_config_user)) = ex_handle"
proof -
  obtain err plan w3 d3
    where steps: "Update_steps go_lib ex_world_ovn ex_handle ex_config_user = (err, plan, w3, d3)"
    by (cases "Update_steps go_lib ex_world_ovn ex_handle ex_config_user") auto
  with ex_ovn_steps
  have err: "err = Some (Wrapf (Failure ''ovn unreachable'') ''Failed removing unused OVN port groups'' [])"
    and len: "length plan = 2" and f3: "faults w3 = []"
    and j3: "journal w3
     = [Call_UpdateNetworkACL 1 ex_config_user, Call_NetworkUsage ''default'' [''web''], Call_NewOVN,
        Call_GetNetworkACLIDsByNames ''default'',
        Call_OVNEnsureACLs ''default'' [(''web'', 1)] [(''ovn1'', \<lparr>NetName = ''ovn1'', Type = ''ovn''\<rparr>)]
          [''web''] True,
        Call_OVNPortGroupDeleteIfUnused ''default'' ''web'']"
    by simp_all
  have stored: "nextOutcome ex_world_ovn = None"
    by (simp add: nextOutcome_def ex_world_ovn_def)
  have n3: "nextOutcome w3 = None" by (simp add: nextOutcome_def f3)
  have sync: "inSync ex_world_ovn ex_handle"
    by (simp add: inSync_def ex_world_ovn_def ex_world_def ex_handle_def)
  have ini: "initialised go_lib ex_handle"
    by (simp add: initialised_def init_def Let_def ex_handle_def ex_put_def)
  have h: "id_acl ex_handle = 1" "Put (info ex_handle) = ex_put"
    by (simp_all add: ex_handle_def)
  note T = C1_rollback_restores_old_configuration [OF ex_validate_user stored steps [unfolded err]]
  from T have a: "fst (Update go_lib ex_world_ovn ex_handle ex_config_user)
     = Some (Wrapf (Failure ''ovn unreachable'') ''Failed removing unused OVN port groups'' [])"
    by (rule conjunct1)
  from T [THEN conjunct2, THEN conjunct2, THEN conjunct2, THEN conjunct1] len j3 h
  have b: "journal (fst (snd (Update go_lib ex_world_ovn ex_handle ex_config_user)))
     = [Call_UpdateNetworkACL 1 ex_config_user, Call_NetworkUsage ''default'' [''web''], Call_NewOVN,
        Call_GetNetworkACLIDsByNames ''default'',
        Call_OVNEnsureACLs ''default'' [(''web'', 1)] [(''ovn1'', \<lparr>NetName = ''ovn1'', Type = ''ovn''\<rparr>)]
          [''web''] True,
        Call_OVNPortGroupDeleteIfUnused ''default'' ''web'',
        Call_OVNRevert, Call_UpdateNetworkACL 1 ex_put]"
    by simp
  from T [THEN conjunct2, THEN conjunct2, THEN conjunct2, THEN conjunct2, THEN conjunct2,
      THEN conjunct1] n3 sync
  have c: "db_acls (fst (snd (Update go_lib ex_world_ovn ex_handle ex_config_user)))
             = db_acls ex_world_ovn"
    by simp
  from T [THEN conjunct2, THEN conjunct2, THEN conjunct2, THEN conjunct2, THEN conjunct2,
      THEN conjunct2] ini
  have e: "snd (snd (Update go_lib ex_world_ovn ex_handle ex_config_user)) = ex_handle"
    by simp
  from a b c e show ?thesis by simp
qed

end
